theory Spec2Isabelle
  imports Main "HOL-Library.Word"
begin

section \<open>Virtual-SSA walkers (tree-ssa-alias.c)\<close>


subsection \<open>walk_aliased_vdefs\<close>






section \<open>Value ranges (tree-vrp.c)\<close>

subsection \<open>Types, wide integers and trees\<close>

text \<open>
  A scalar type as the range code reads it.  The fields are the macros of the same
  names; \<open>TYPE_OVERFLOW_WRAPS\<close> and \<open>TYPE_OVERFLOW_UNDEFINED\<close> depend on the type and on
  command line flags and are taken as given.
\<close>

record tree_type =
  TYPE_PRECISION :: nat
  TYPE_UNSIGNED :: bool
  INTEGRAL_TYPE_P :: bool
  POINTER_TYPE_P :: bool
  TYPE_OVERFLOW_WRAPS :: bool
  TYPE_OVERFLOW_UNDEFINED :: bool

text \<open>
  A \<open>wide_int\<close> of the type's precision is modelled by the integer it denotes when
  read with the type's sign (\<open>TYPE_SIGN\<close>).  \<open>wi_min_value\<close> and \<open>wi_max_value\<close> are
  \<open>wi::min_value (prec, sgn)\<close> and \<open>wi::max_value (prec, sgn)\<close>; \<open>wi_from\<close> truncates an
  integer to the precision and reads it back (\<open>wide_int::from\<close>).
\<close>

definition wi_min_value :: "tree_type \<Rightarrow> int" where
  "wi_min_value ty = (if TYPE_UNSIGNED ty then 0 else - (2 ^ (TYPE_PRECISION ty - 1)))"

definition wi_max_value :: "tree_type \<Rightarrow> int" where
  "wi_max_value ty =
     (if TYPE_UNSIGNED ty then 2 ^ TYPE_PRECISION ty - 1 else 2 ^ (TYPE_PRECISION ty - 1) - 1)"

definition wi_from :: "tree_type \<Rightarrow> int \<Rightarrow> int" where
  "wi_from ty x =
     (if TYPE_UNSIGNED ty then x mod 2 ^ TYPE_PRECISION ty
      else (x + 2 ^ (TYPE_PRECISION ty - 1)) mod 2 ^ TYPE_PRECISION ty
             - 2 ^ (TYPE_PRECISION ty - 1))"

text \<open>
  \<open>wi::overflow_type\<close>, and \<open>wi::add\<close>, \<open>wi::sub\<close> and \<open>wi::neg\<close> with their overflow
  output: the wrapped result, and whether the exact result fell below or above the
  values of the type.  \<open>wi::neg\<close> reports an overflow for the value whose only set bit is
  the sign bit.
\<close>

datatype overflow_type = OVF_NONE | OVF_UNDERFLOW | OVF_OVERFLOW

definition wi_overflow :: "tree_type \<Rightarrow> int \<Rightarrow> overflow_type" where
  "wi_overflow ty r =
     (if r < wi_min_value ty then OVF_UNDERFLOW
      else if wi_max_value ty < r then OVF_OVERFLOW
      else OVF_NONE)"

definition wi_add :: "tree_type \<Rightarrow> int \<Rightarrow> int \<Rightarrow> int \<times> overflow_type" where
  "wi_add ty x y = (wi_from ty (x + y), wi_overflow ty (x + y))"

definition wi_sub :: "tree_type \<Rightarrow> int \<Rightarrow> int \<Rightarrow> int \<times> overflow_type" where
  "wi_sub ty x y = (wi_from ty (x - y), wi_overflow ty (x - y))"

definition wi_neg :: "tree_type \<Rightarrow> int \<Rightarrow> int \<times> overflow_type" where
  "wi_neg ty x =
     (wi_from ty (- x),
      if x mod 2 ^ TYPE_PRECISION ty = 2 ^ (TYPE_PRECISION ty - 1) then OVF_OVERFLOW
      else OVF_NONE)"

definition wi_cmp :: "int \<Rightarrow> int \<Rightarrow> int" where
  "wi_cmp x y = (if x < y then - 1 else if y < x then 1 else 0)"

text \<open>
  The trees that occur as bounds of a range: an integer constant with its value and its
  \<open>TREE_OVERFLOW\<close> flag, an SSA name, the address of a declaration (an invariant that
  is not an integer constant), and the expressions \<open>get_single_symbol\<close> takes apart.
  \<open>ERROR_MARK\<close> is \<open>error_mark_node\<close>.  Every bound has the type of its range, which
  the functions below receive as \<open>ty\<close>.
\<close>

datatype tree_code = PLUS_EXPR | MINUS_EXPR | POINTER_PLUS_EXPR | NEGATE_EXPR

datatype tree =
    INTEGER_CST int bool
  | SSA_NAME nat
  | ADDR_EXPR nat
  | BINARY tree_code tree tree
  | UNARY tree_code tree
  | ERROR_MARK

fun INTEGER_CST_P :: "tree \<Rightarrow> bool" where
  "INTEGER_CST_P (INTEGER_CST v ovf) = True"
| "INTEGER_CST_P t = False"

fun SSA_NAME_P :: "tree \<Rightarrow> bool" where
  "SSA_NAME_P (SSA_NAME v) = True"
| "SSA_NAME_P t = False"

fun TREE_OVERFLOW_P :: "tree \<Rightarrow> bool" where
  "TREE_OVERFLOW_P (INTEGER_CST v ovf) = ovf"
| "TREE_OVERFLOW_P t = False"

fun drop_tree_overflow :: "tree \<Rightarrow> tree" where
  "drop_tree_overflow (INTEGER_CST v ovf) = INTEGER_CST v False"
| "drop_tree_overflow t = t"

fun is_gimple_min_invariant :: "tree \<Rightarrow> bool" where
  "is_gimple_min_invariant (INTEGER_CST v ovf) = True"
| "is_gimple_min_invariant (ADDR_EXPR d) = True"
| "is_gimple_min_invariant t = False"

text \<open>\<open>wi::to_wide\<close>; the source applies it to integer constants only.\<close>

fun wi_to_wide :: "tree \<Rightarrow> int" where
  "wi_to_wide (INTEGER_CST v ovf) = v"
| "wi_to_wide t = 0"

definition tree_int_cst_lt :: "tree \<Rightarrow> tree \<Rightarrow> bool" where
  "tree_int_cst_lt t1 t2 \<longleftrightarrow> wi_to_wide t1 < wi_to_wide t2"

definition tree_int_cst_compare :: "tree \<Rightarrow> tree \<Rightarrow> int" where
  "tree_int_cst_compare t1 t2 = wi_cmp (wi_to_wide t1) (wi_to_wide t2)"

definition tree_int_cst_equal :: "tree \<Rightarrow> tree \<Rightarrow> bool" where
  "tree_int_cst_equal t1 t2 \<longleftrightarrow>
     INTEGER_CST_P t1 \<and> INTEGER_CST_P t2 \<and> wi_to_wide t1 = wi_to_wide t2"

fun integer_zerop :: "tree \<Rightarrow> bool" where
  "integer_zerop (INTEGER_CST v ovf) = (v = 0)"
| "integer_zerop t = False"

fun integer_onep :: "tree \<Rightarrow> bool" where
  "integer_onep (INTEGER_CST v ovf) = (v = 1)"
| "integer_onep t = False"

text \<open>
  \<open>operand_equal_p (t1, t2, 0)\<close>: integer constants are equal when their values are,
  whatever their overflow flags; the operands of the commutative \<open>PLUS_EXPR\<close> may be
  swapped.
\<close>

fun operand_equal_p :: "tree \<Rightarrow> tree \<Rightarrow> bool" where
  "operand_equal_p (INTEGER_CST v1 o1) (INTEGER_CST v2 o2) = (v1 = v2)"
| "operand_equal_p (SSA_NAME n1) (SSA_NAME n2) = (n1 = n2)"
| "operand_equal_p (ADDR_EXPR d1) (ADDR_EXPR d2) = (d1 = d2)"
| "operand_equal_p (BINARY c1 a1 b1) (BINARY c2 a2 b2) =
     (c1 = c2 \<and>
      ((operand_equal_p a1 a2 \<and> operand_equal_p b1 b2) \<or>
       (c1 = PLUS_EXPR \<and> operand_equal_p a1 b2 \<and> operand_equal_p b1 a2)))"
| "operand_equal_p (UNARY c1 a1) (UNARY c2 a2) = (c1 = c2 \<and> operand_equal_p a1 a2)"
| "operand_equal_p t1 t2 = False"

definition build_int_cst :: "tree_type \<Rightarrow> int \<Rightarrow> tree" where
  "build_int_cst ty v = INTEGER_CST (wi_from ty v) False"

definition wide_int_to_tree :: "tree_type \<Rightarrow> int \<Rightarrow> tree" where
  "wide_int_to_tree ty w = INTEGER_CST (wi_from ty w) False"

text \<open>
  \<open>int_const_binop\<close> on two integer constants, for \<open>PLUS_EXPR\<close> and \<open>MINUS_EXPR\<close>: the
  wrapped result, flagged \<open>TREE_OVERFLOW\<close> when a signed operation overflowed or an
  operand was flagged.  The source calls it on integer constants only; on other trees
  the model returns the first operand.
\<close>

fun int_const_binop :: "tree_type \<Rightarrow> tree_code \<Rightarrow> tree \<Rightarrow> tree \<Rightarrow> tree" where
  "int_const_binop ty PLUS_EXPR (INTEGER_CST a oa) (INTEGER_CST b ob) =
     INTEGER_CST (wi_from ty (a + b))
       ((\<not> TYPE_UNSIGNED ty \<and> wi_overflow ty (a + b) \<noteq> OVF_NONE) \<or> oa \<or> ob)"
| "int_const_binop ty MINUS_EXPR (INTEGER_CST a oa) (INTEGER_CST b ob) =
     INTEGER_CST (wi_from ty (a - b))
       ((\<not> TYPE_UNSIGNED ty \<and> wi_overflow ty (a - b) \<noteq> OVF_NONE) \<or> oa \<or> ob)"
| "int_const_binop ty code t1 t2 = t1"


text \<open>
  Modelled from the spec: the macros \<open>TYPE_MIN_VALUE\<close> and \<open>TYPE_MAX_VALUE\<close> are not
  part of the sources at hand; they are the extremes of the domain, here the extremes
  of the type's precision and sign.
\<close>

definition TYPE_MIN_VALUE :: "tree_type \<Rightarrow> tree" where
  "TYPE_MIN_VALUE ty = INTEGER_CST (wi_min_value ty) False"

definition TYPE_MAX_VALUE :: "tree_type \<Rightarrow> tree" where
  "TYPE_MAX_VALUE ty = INTEGER_CST (wi_max_value ty) False"

definition vrp_val_max :: "tree_type \<Rightarrow> bool \<Rightarrow> tree option" where
  "vrp_val_max ty handle_pointers =
     (if INTEGRAL_TYPE_P ty then Some (TYPE_MAX_VALUE ty)
      else if POINTER_TYPE_P ty \<and> handle_pointers
        then Some (wide_int_to_tree ty (wi_max_value ty))
      else None)"

definition vrp_val_min :: "tree_type \<Rightarrow> bool \<Rightarrow> tree option" where
  "vrp_val_min ty handle_pointers =
     (if INTEGRAL_TYPE_P ty then Some (TYPE_MIN_VALUE ty)
      else if POINTER_TYPE_P ty \<and> handle_pointers then Some (build_int_cst ty 0)
      else None)"

definition vrp_val_is_max :: "tree_type \<Rightarrow> tree \<Rightarrow> bool \<Rightarrow> bool" where
  "vrp_val_is_max ty val handle_pointers =
     (case vrp_val_max ty handle_pointers of
        None \<Rightarrow> False
      | Some type_max \<Rightarrow> val = type_max \<or> operand_equal_p val type_max)"

definition vrp_val_is_min :: "tree_type \<Rightarrow> tree \<Rightarrow> bool \<Rightarrow> bool" where
  "vrp_val_is_min ty val handle_pointers =
     (case vrp_val_min ty handle_pointers of
        None \<Rightarrow> False
      | Some type_min \<Rightarrow> val = type_min \<or> operand_equal_p val type_min)"

text \<open>
  Modelled from the spec: \<open>value_range_base::supports_type_p\<close> is declared in a header
  that is not at hand; ranges exist for integers and pointers.
\<close>

definition supports_type_p :: "tree_type \<Rightarrow> bool" where
  "supports_type_p ty \<longleftrightarrow> INTEGRAL_TYPE_P ty \<or> POINTER_TYPE_P ty"

subsection \<open>The lattice value and its canonical form\<close>

datatype value_range_kind = VR_UNDEFINED | VR_VARYING | VR_RANGE | VR_ANTI_RANGE

record value_range_base =
  m_kind :: value_range_kind
  m_min :: "tree option"
  m_max :: "tree option"

definition set_undefined :: value_range_base where
  "set_undefined = \<lparr>m_kind = VR_UNDEFINED, m_min = None, m_max = None\<rparr>"

definition set_varying :: "tree_type \<Rightarrow> value_range_base" where
  "set_varying ty =
     (if supports_type_p ty
      then \<lparr>m_kind = VR_VARYING, m_min = vrp_val_min ty True, m_max = vrp_val_max ty True\<rparr>
      else \<lparr>m_kind = VR_VARYING, m_min = Some ERROR_MARK, m_max = Some ERROR_MARK\<rparr>)"

definition undefined_p :: "value_range_base \<Rightarrow> bool" where
  "undefined_p vr \<longleftrightarrow> m_kind vr = VR_UNDEFINED"

definition varying_p :: "value_range_base \<Rightarrow> bool" where
  "varying_p vr \<longleftrightarrow> m_kind vr = VR_VARYING"

text \<open>
  \<open>value_range_base::set (kind, min, max)\<close>.  The second half of the function, from
  ``anti-ranges that can be represented as ranges should be so'' on, is
  \<open>set_normalize\<close>; the first half, which swaps bounds given in the wrong order, is
  \<open>value_range_base_set\<close> itself.  \<open>POLY_INT_CST\<close> bounds do not occur.
\<close>

definition set_normalize ::
    "tree_type \<Rightarrow> value_range_kind \<Rightarrow> tree \<Rightarrow> tree \<Rightarrow> value_range_base" where
  "set_normalize ty kind0 min0 max0 =
     (let is_min = (INTEGRAL_TYPE_P ty \<and> tree_int_cst_compare min0 (TYPE_MIN_VALUE ty) \<le> 0);
          is_max = (INTEGRAL_TYPE_P ty \<and> tree_int_cst_compare max0 (TYPE_MAX_VALUE ty) \<ge> 0)
      in
      if kind0 = VR_ANTI_RANGE \<and> is_min \<and> is_max then set_varying ty
      else
        let (kind, vmin, vmax) =
          (if kind0 = VR_ANTI_RANGE \<and> TYPE_PRECISION ty = 1 \<and> (is_min \<or> is_max) then
             (if is_min then (VR_RANGE, the (vrp_val_max ty False), the (vrp_val_max ty False))
              else (VR_RANGE, the (vrp_val_min ty False), the (vrp_val_min ty False)))
           else if kind0 = VR_ANTI_RANGE \<and> (is_min \<or> (POINTER_TYPE_P ty \<and> integer_zerop min0)) then
             (VR_RANGE, int_const_binop ty PLUS_EXPR max0 (build_int_cst ty 1),
              the (vrp_val_max ty True))
           else if kind0 = VR_ANTI_RANGE \<and> is_max then
             (VR_RANGE, the (vrp_val_min ty False),
              int_const_binop ty MINUS_EXPR min0 (build_int_cst ty 1))
           else (kind0, min0, max0))
        in
        if wi_to_wide vmin = wi_min_value ty \<and> wi_to_wide vmax = wi_max_value ty then
          (if kind = VR_RANGE then set_varying ty else set_undefined)
        else \<lparr>m_kind = kind, m_min = Some vmin, m_max = Some vmax\<rparr>)"

definition value_range_base_set ::
    "tree_type \<Rightarrow> value_range_kind \<Rightarrow> tree \<Rightarrow> tree \<Rightarrow> value_range_base" where
  "value_range_base_set ty kind vmin vmax =
     (if kind = VR_UNDEFINED then set_undefined
      else if kind = VR_VARYING then set_varying ty
      else if \<not> INTEGER_CST_P vmin \<or> \<not> INTEGER_CST_P vmax then
        \<lparr>m_kind = kind, m_min = Some vmin, m_max = Some vmax\<rparr>
      else if tree_int_cst_lt vmax vmin then
        (if TYPE_PRECISION ty = 1 then set_varying ty
         else
           let one = build_int_cst ty 1;
               tmp = int_const_binop ty PLUS_EXPR vmax one;
               vmax' = int_const_binop ty MINUS_EXPR vmin one;
               vmin' = tmp
           in
           if tree_int_cst_lt vmax' vmin' then set_varying ty
           else set_normalize ty (if kind = VR_RANGE then VR_ANTI_RANGE else VR_RANGE)
                  vmin' vmax')
      else set_normalize ty kind vmin vmax)"

subsection \<open>Comparing bounds\<close>

text \<open>
  \<open>get_single_symbol (t, &neg, &inv)\<close>: the SSA name of a bound of the form
  \<open>[-]NAME [+ CST]\<close>, with the outputs \<open>neg\<close> and \<open>inv\<close>.  Where the source returns
  \<open>NULL_TREE\<close> the outputs keep the values set on entry.
\<close>

definition get_single_symbol :: "tree \<Rightarrow> tree option \<times> bool \<times> tree option" where
  "get_single_symbol t =
     (case (case t of
              BINARY code op0 op1 \<Rightarrow>
                if code = PLUS_EXPR \<or> code = POINTER_PLUS_EXPR \<or> code = MINUS_EXPR then
                  (if is_gimple_min_invariant op0 then Some (code = MINUS_EXPR, Some op0, op1)
                   else if is_gimple_min_invariant op1 then Some (False, Some op1, op0)
                   else None)
                else Some (False, None, t)
            | _ \<Rightarrow> Some (False, None, t)) of
        None \<Rightarrow> (None, False, None)
      | Some (neg0, inv0, t0) \<Rightarrow>
          let (t1, neg1) = (case t0 of UNARY NEGATE_EXPR x \<Rightarrow> (x, \<not> neg0) | _ \<Rightarrow> (t0, neg0))
          in if \<not> SSA_NAME_P t1 then (None, False, None)
             else (Some t1, neg1, map_option drop_tree_overflow inv0))"

text \<open>\<open>build_symbolic_expr (type, sym, neg, inv)\<close>.\<close>

definition build_symbolic_expr :: "tree_type \<Rightarrow> tree \<Rightarrow> bool \<Rightarrow> tree \<Rightarrow> tree" where
  "build_symbolic_expr ty symb neg invar =
     (let t = (if neg then UNARY NEGATE_EXPR symb else symb)
      in if integer_zerop invar then t
         else BINARY (if POINTER_TYPE_P ty then POINTER_PLUS_EXPR else PLUS_EXPR) t invar)"

text \<open>
  What the range code reads besides the type: for two pointer invariants that are not
  both integer constants, whether \<open>fold_binary_to_constant\<close> folds \<open>a < b\<close>, and
  \<open>a != b\<close>, to true; and the flag \<open>-fdelete-null-pointer-checks\<close>.
\<close>

record vrp_env =
  fold_LT_EXPR :: "tree \<Rightarrow> tree \<Rightarrow> bool"
  fold_NE_EXPR :: "tree \<Rightarrow> tree \<Rightarrow> bool"
  flag_delete_null_pointer_checks :: bool

text \<open>
  \<open>compare_values_warnv\<close> (and \<open>compare_values\<close>, which drops the \<open>strict_overflow_p\<close>
  output): \<open>-2\<close> incomparable, \<open>-1\<close> less, \<open>0\<close> equal, \<open>1\<close> greater, \<open>2\<close> different.
  Identity of trees (\<open>val1 == val2\<close>, \<open>inv1 == inv2\<close>) is equality of the model's trees.
\<close>

definition compare_values :: "tree_type \<Rightarrow> vrp_env \<Rightarrow> tree \<Rightarrow> tree \<Rightarrow> int" where
  "compare_values ty F val1 val2 =
     (if val1 = val2 then 0
      else
        let overflow_undefined = (INTEGRAL_TYPE_P ty \<and> TYPE_OVERFLOW_UNDEFINED ty);
            (sym1, neg1, inv1) = get_single_symbol val1;
            (sym2, neg2, inv2) = get_single_symbol val2;
            cst1 = is_gimple_min_invariant val1;
            cst2 = is_gimple_min_invariant val2
        in
        if sym1 \<noteq> None \<and> sym2 \<noteq> None then
          (if sym1 \<noteq> sym2 \<or> neg1 \<noteq> neg2 then - 2
           else if inv1 = inv2 then 0
           else if \<not> overflow_undefined then - 2
           else wi_cmp (case inv1 of None \<Rightarrow> 0 | Some i \<Rightarrow> wi_to_wide i)
                       (case inv2 of None \<Rightarrow> 0 | Some i \<Rightarrow> wi_to_wide i))
        else if (sym1 \<noteq> None \<and> inv1 \<noteq> None \<and> cst2) \<or> (sym2 \<noteq> None \<and> inv2 \<noteq> None \<and> cst1) then
          (if \<not> overflow_undefined then - 2
           else
             let cst = (if cst1 then val1 else val2);
                 invar = (if cst1 then the inv2 else the inv1);
                 diff = wi_from ty (wi_to_wide cst - wi_to_wide invar)
             in
             if wi_cmp 0 (wi_to_wide invar) \<noteq> wi_cmp diff (wi_to_wide cst) then
               (let res = wi_cmp (wi_to_wide cst) (wi_to_wide invar)
                in if cst1 then res else - res)
             else - 2)
        else if \<not> cst1 \<or> \<not> cst2 then - 2
        else if \<not> POINTER_TYPE_P ty then
          (if TREE_OVERFLOW_P val1 \<or> TREE_OVERFLOW_P val2 then - 2
           else if INTEGER_CST_P val1 \<and> INTEGER_CST_P val2 then tree_int_cst_compare val1 val2
           else - 2)
        else
          (if INTEGER_CST_P val1 \<and> INTEGER_CST_P val2 then
             (if TREE_OVERFLOW_P val1 \<or> TREE_OVERFLOW_P val2 then - 2
              else tree_int_cst_compare val1 val2)
           else if operand_equal_p val1 val2 then 0
           else if fold_LT_EXPR F val1 val2 then - 1
           else if fold_LT_EXPR F val2 val1 then 1
           else if fold_NE_EXPR F val1 val2 then 2
           else - 2))"

text \<open>\<open>operand_less_p\<close>: \<open>1\<close> if \<open>val < val2\<close>, \<open>0\<close> if not, \<open>-2\<close> if incomparable.\<close>

definition operand_less_p :: "tree_type \<Rightarrow> vrp_env \<Rightarrow> tree \<Rightarrow> tree \<Rightarrow> int" where
  "operand_less_p ty F val val2 =
     (if INTEGER_CST_P val \<and> INTEGER_CST_P val2 then (if tree_int_cst_lt val val2 then 1 else 0)
      else if SSA_NAME_P val \<and> SSA_NAME_P val2 then (if val = val2 then 0 else - 2)
      else
        let cmp = compare_values ty F val val2
        in if cmp = - 1 then 1
           else if cmp = 0 \<or> cmp = 1 then 0
           else - 2)"

definition vrp_operand_equal_p :: "tree option \<Rightarrow> tree option \<Rightarrow> bool" where
  "vrp_operand_equal_p val1 val2 =
     (if val1 = val2 then True
      else case (val1, val2) of
             (Some t1, Some t2) \<Rightarrow> operand_equal_p t1 t2
           | _ \<Rightarrow> False)"

text \<open>
  \<open>value_range_base::value_inside_range\<close>: \<open>1\<close> if \<open>val\<close> is inside the range, \<open>0\<close> if
  it is not, \<open>-2\<close> if that cannot be told.
\<close>

definition value_inside_range :: "tree_type \<Rightarrow> vrp_env \<Rightarrow> value_range_base \<Rightarrow> tree \<Rightarrow> int" where
  "value_inside_range ty F vr val =
     (if varying_p vr then 1
      else if undefined_p vr then 0
      else
        let cmp1 = operand_less_p ty F val (the (m_min vr))
        in if cmp1 = - 2 then - 2
           else if cmp1 = 1 then (if m_kind vr \<noteq> VR_RANGE then 1 else 0)
           else
             let cmp2 = operand_less_p ty F (the (m_max vr)) val
             in if cmp2 = - 2 then - 2
                else if m_kind vr = VR_RANGE then (if cmp2 = 0 then 1 else 0)
                else (if cmp2 \<noteq> 0 then 1 else 0))"

definition may_contain_p :: "tree_type \<Rightarrow> vrp_env \<Rightarrow> value_range_base \<Rightarrow> tree \<Rightarrow> bool" where
  "may_contain_p ty F vr val \<longleftrightarrow> value_inside_range ty F vr val \<noteq> 0"



definition symbolic_p :: "value_range_base \<Rightarrow> bool" where
  "symbolic_p vr \<longleftrightarrow>
     \<not> varying_p vr \<and> \<not> undefined_p vr \<and>
     (\<not> is_gimple_min_invariant (the (m_min vr)) \<or> \<not> is_gimple_min_invariant (the (m_max vr)))"

text \<open>
  \<open>value_range_base::check\<close>: the assertions every stored range passes, as a predicate.
\<close>

definition value_range_base_check :: "tree_type \<Rightarrow> vrp_env \<Rightarrow> value_range_base \<Rightarrow> bool" where
  "value_range_base_check ty F vr =
     (case m_kind vr of
        VR_UNDEFINED \<Rightarrow> m_min vr = None \<and> m_max vr = None
      | VR_VARYING \<Rightarrow> m_min vr \<noteq> None \<and> m_max vr \<noteq> None
      | _ \<Rightarrow>
          (case (m_min vr, m_max vr) of
             (Some lo, Some hi) \<Rightarrow>
               \<not> TREE_OVERFLOW_P lo \<and> \<not> TREE_OVERFLOW_P hi \<and>
               (INTEGRAL_TYPE_P ty \<and> m_kind vr = VR_ANTI_RANGE
                  \<longrightarrow> \<not> vrp_val_is_min ty lo False \<or> \<not> vrp_val_is_max ty hi False) \<and>
               (let cmp = compare_values ty F lo hi in cmp = 0 \<or> cmp = - 1 \<or> cmp = - 2)
           | _ \<Rightarrow> False))"

text \<open>
  Modelled from the spec: \<open>range_includes_zero_p\<close> and \<open>value_range_base::zero_p\<close> are
  defined in a header that is not at hand.  A range includes zero unless it is
  undefined or zero is known to be outside of it; \<open>zero_p\<close> holds for the zero singleton.
\<close>

definition range_includes_zero_p :: "tree_type \<Rightarrow> vrp_env \<Rightarrow> value_range_base \<Rightarrow> bool" where
  "range_includes_zero_p ty F vr =
     (if undefined_p vr then False
      else if varying_p vr then True
      else may_contain_p ty F vr (build_int_cst ty 0))"



definition set_nonzero :: "tree_type \<Rightarrow> value_range_base" where
  "set_nonzero ty =
     (let zero = build_int_cst ty 0 in value_range_base_set ty VR_ANTI_RANGE zero zero)"


subsection \<open>Meet and join of ranges\<close>

text \<open>
  \<open>union_ranges\<close>: the union of \<open>{vr0type, vr0min, vr0max}\<close> and
  \<open>{vr1type, vr1min, vr1max}\<close>, as the new value of the first triple.  Both kinds are
  \<open>VR_RANGE\<close> or \<open>VR_ANTI_RANGE\<close> (the caller has dealt with the other two); where the
  source says \<open>gcc_unreachable\<close> the model gives up like the label \<open>give_up\<close>, with
  \<open>VR_VARYING\<close> and no bounds.  \<open>!operand_less_p (max, min)\<close> holds when the result is 0.
\<close>

definition union_ranges ::
    "tree_type \<Rightarrow> vrp_env \<Rightarrow> value_range_kind \<Rightarrow> tree \<Rightarrow> tree \<Rightarrow> value_range_kind \<Rightarrow> tree \<Rightarrow> tree
      \<Rightarrow> value_range_kind \<times> tree option \<times> tree option" where
  "union_ranges ty F vr0type vr0min vr0max vr1type vr1min vr1max =
     (let cmpmin = compare_values ty F vr0min vr1min;
          cmpmax = compare_values ty F vr0max vr1max;
          mineq = (cmpmin = 0);
          maxeq = (cmpmax = 0);
          one = build_int_cst ty 1;
          give_up = (VR_VARYING, None, None);
          RR = (vr0type = VR_RANGE \<and> vr1type = VR_RANGE);
          AA = (vr0type = VR_ANTI_RANGE \<and> vr1type = VR_ANTI_RANGE);
          AR = (vr0type = VR_ANTI_RANGE \<and> vr1type = VR_RANGE);
          RA = (vr0type = VR_RANGE \<and> vr1type = VR_ANTI_RANGE)
      in
      if mineq \<and> maxeq then
        (if vr0type = vr1type then (vr0type, Some vr0min, Some vr0max)
         else give_up)
      else if operand_less_p ty F vr0max vr1min = 1 \<or> operand_less_p ty F vr1max vr0min = 1 then
        (if AA then give_up
         else if AR then (vr0type, Some vr0min, Some vr0max)
         else if RA then (vr1type, Some vr1min, Some vr1max)
         else if RR then
           (if operand_less_p ty F vr0max vr1min = 1 then
              (if INTEGER_CST_P vr0max \<and> INTEGER_CST_P vr1min
                  \<and> vrp_val_is_min ty vr0min False \<and> vrp_val_is_max ty vr1max False then
                 (let mn = int_const_binop ty PLUS_EXPR vr0max one;
                      mx = int_const_binop ty MINUS_EXPR vr1min one
                  in if operand_less_p ty F mx mn = 0 then (VR_ANTI_RANGE, Some mn, Some mx)
                     else (vr0type, Some vr0min, Some vr1max))
               else (vr0type, Some vr0min, Some vr1max))
            else
              (if INTEGER_CST_P vr1max \<and> INTEGER_CST_P vr0min
                  \<and> vrp_val_is_min ty vr1min False \<and> vrp_val_is_max ty vr0max False then
                 (let mn = int_const_binop ty PLUS_EXPR vr1max one;
                      mx = int_const_binop ty MINUS_EXPR vr0min one
                  in if operand_less_p ty F mx mn = 0 then (VR_ANTI_RANGE, Some mn, Some mx)
                     else (vr0type, Some vr1min, Some vr0max))
               else (vr0type, Some vr1min, Some vr0max)))
         else give_up)
      else if (maxeq \<or> cmpmax = 1) \<and> (mineq \<or> cmpmin = - 1) then
        (if RR then (vr0type, Some vr0min, Some vr0max)
         else if AA then (vr1type, Some vr1min, Some vr1max)
         else if AR then
           (if \<not> mineq \<and> INTEGER_CST_P vr1min then
              (vr0type, Some vr0min, Some (int_const_binop ty MINUS_EXPR vr1min one))
            else if \<not> maxeq \<and> INTEGER_CST_P vr1max then
              (vr0type, Some (int_const_binop ty PLUS_EXPR vr1max one), Some vr0max)
            else give_up)
         else give_up)
      else if (maxeq \<or> cmpmax = - 1) \<and> (mineq \<or> cmpmin = 1) then
        (if RR then (vr1type, Some vr1min, Some vr1max)
         else if AA then (vr0type, Some vr0min, Some vr0max)
         else if RA then
           (if \<not> mineq \<and> INTEGER_CST_P vr0min then
              (VR_ANTI_RANGE, Some vr1min, Some (int_const_binop ty MINUS_EXPR vr0min one))
            else if \<not> maxeq \<and> INTEGER_CST_P vr0max then
              (VR_ANTI_RANGE, Some (int_const_binop ty PLUS_EXPR vr0max one), Some vr1max)
            else give_up)
         else give_up)
      else if cmpmin = - 1 \<and> cmpmax = - 1
              \<and> (operand_less_p ty F vr1min vr0max = 1 \<or> operand_equal_p vr1min vr0max) then
        (if RR then (vr0type, Some vr0min, Some vr1max)
         else if AA then (vr0type, Some vr1min, Some vr0max)
         else if AR then
           (if INTEGER_CST_P vr1min then
              (vr0type, Some vr0min, Some (int_const_binop ty MINUS_EXPR vr1min one))
            else give_up)
         else if RA then
           (if INTEGER_CST_P vr0max then
              (vr1type, Some (int_const_binop ty PLUS_EXPR vr0max one), Some vr1max)
            else give_up)
         else give_up)
      else if cmpmin = 1 \<and> cmpmax = 1
              \<and> (operand_less_p ty F vr0min vr1max = 1 \<or> operand_equal_p vr0min vr1max) then
        (if RR then (vr0type, Some vr1min, Some vr0max)
         else if AA then (vr0type, Some vr0min, Some vr1max)
         else if AR then
           (if INTEGER_CST_P vr1max then
              (vr0type, Some (int_const_binop ty PLUS_EXPR vr1max one), Some vr0max)
            else give_up)
         else if RA then
           (if INTEGER_CST_P vr0min then
              (vr1type, Some vr1min, Some (int_const_binop ty MINUS_EXPR vr0min one))
            else give_up)
         else give_up)
      else give_up)"

text \<open>
  \<open>value_range_base::union_helper\<close>, and \<open>value_range_base::union_\<close>, which stores its
  result in the first range.  \<open>vr0->type ()\<close> is the ambient type.
\<close>

definition union_helper ::
    "tree_type \<Rightarrow> vrp_env \<Rightarrow> value_range_base \<Rightarrow> value_range_base \<Rightarrow> value_range_base" where
  "union_helper ty F vr0 vr1 =
     (if undefined_p vr1 \<or> varying_p vr0 then vr0
      else if undefined_p vr0 \<or> varying_p vr1 then vr1
      else
        let (vr0type, vr0min, vr0max) =
              union_ranges ty F (m_kind vr0) (the (m_min vr0)) (the (m_max vr0))
                (m_kind vr1) (the (m_min vr1)) (the (m_max vr1));
            tem = (if vr0type = VR_UNDEFINED then set_undefined
                   else if vr0type = VR_VARYING then set_varying ty
                   else value_range_base_set ty vr0type (the vr0min) (the vr0max))
        in
        if varying_p tem \<and> \<not> range_includes_zero_p ty F vr0 \<and> \<not> range_includes_zero_p ty F vr1
        then set_nonzero ty
        else tem)"

definition value_range_base_union ::
    "tree_type \<Rightarrow> vrp_env \<Rightarrow> value_range_base \<Rightarrow> value_range_base \<Rightarrow> value_range_base" where
  "value_range_base_union ty F this other = union_helper ty F this other"

text \<open>
  \<open>wi::clz\<close> of a value of the type's precision, through the number of significant
  bits of its unsigned reading.
\<close>

fun bit_length :: "nat \<Rightarrow> nat" where
  "bit_length n = (if n = 0 then 0 else Suc (bit_length (n div 2)))"

definition wi_clz :: "tree_type \<Rightarrow> int \<Rightarrow> nat" where
  "wi_clz ty x = TYPE_PRECISION ty - bit_length (nat (x mod 2 ^ TYPE_PRECISION ty))"

text \<open>
  \<open>intersect_ranges\<close>, in the same form.  \<open>int_precision\<close> is
  \<open>TYPE_PRECISION (integer_type_node)\<close>.  The chain of cases has no final \<open>else\<close>: when
  no case applies the first range is kept.  Where the source says \<open>gcc_unreachable\<close> the
  model keeps the first range as well.
\<close>

definition intersect_ranges ::
    "tree_type \<Rightarrow> vrp_env \<Rightarrow> nat \<Rightarrow> value_range_kind \<Rightarrow> tree \<Rightarrow> tree
      \<Rightarrow> value_range_kind \<Rightarrow> tree \<Rightarrow> tree
      \<Rightarrow> value_range_kind \<times> tree option \<times> tree option" where
  "intersect_ranges ty F int_precision vr0type vr0min vr0max vr1type vr1min vr1max =
     (let mineq = vrp_operand_equal_p (Some vr0min) (Some vr1min);
          maxeq = vrp_operand_equal_p (Some vr0max) (Some vr1max);
          one = build_int_cst ty 1;
          minus_one = build_int_cst ty (- 1);
          one_bit_signed = (TYPE_PRECISION ty = 1 \<and> \<not> TYPE_UNSIGNED ty);
          keep = (vr0type, Some vr0min, Some vr0max);
          take = (vr1type, Some vr1min, Some vr1max);
          empty = (VR_UNDEFINED, None, None);
          RR = (vr0type = VR_RANGE \<and> vr1type = VR_RANGE);
          AA = (vr0type = VR_ANTI_RANGE \<and> vr1type = VR_ANTI_RANGE);
          AR = (vr0type = VR_ANTI_RANGE \<and> vr1type = VR_RANGE);
          RA = (vr0type = VR_RANGE \<and> vr1type = VR_ANTI_RANGE);
          r =
      (if mineq \<and> maxeq then
        (if vr0type = vr1type then keep
         else if RA \<or> AR then empty
         else keep)
      else if operand_less_p ty F vr0max vr1min = 1 \<or> operand_less_p ty F vr1max vr0min = 1 then
        (if RA then keep
         else if AR then take
         else if RR then empty
         else if AA then
           (if INTEGER_CST_P vr0max \<and> INTEGER_CST_P vr1min
               \<and> operand_less_p ty F vr0max vr1min = 1
               \<and> integer_onep (int_const_binop ty MINUS_EXPR vr1min vr0max) then
              (vr0type, Some vr0min, Some vr1max)
            else if INTEGER_CST_P vr1max \<and> INTEGER_CST_P vr0min
               \<and> operand_less_p ty F vr1max vr0min = 1
               \<and> integer_onep (int_const_binop ty MINUS_EXPR vr0min vr1max) then
              (vr0type, Some vr1min, Some vr0max)
            else keep)
         else keep)
      else if (maxeq \<or> operand_less_p ty F vr1max vr0max = 1)
              \<and> (mineq \<or> operand_less_p ty F vr0min vr1min = 1) then
        (if RR then take
         else if RA then
           (if mineq then
              (if \<not> INTEGER_CST_P vr1max then (vr0type, Some vr1max, Some vr0max)
               else if one_bit_signed then
                 (vr0type, Some (int_const_binop ty MINUS_EXPR vr1max minus_one), Some vr0max)
               else (vr0type, Some (int_const_binop ty PLUS_EXPR vr1max one), Some vr0max))
            else if maxeq then
              (if \<not> INTEGER_CST_P vr1min then (vr0type, Some vr0min, Some vr1min)
               else if one_bit_signed then
                 (vr0type, Some vr0min, Some (int_const_binop ty PLUS_EXPR vr1min minus_one))
               else (vr0type, Some vr0min, Some (int_const_binop ty MINUS_EXPR vr1min one)))
            else if vrp_val_is_min ty vr0min False \<and> vrp_val_is_max ty vr0max False then take
            else keep)
         else if AA then keep
         else if AR then empty
         else keep)
      else if (maxeq \<or> operand_less_p ty F vr0max vr1max = 1)
              \<and> (mineq \<or> operand_less_p ty F vr1min vr0min = 1) then
        (if RR then keep
         else if AR then
           (if mineq then
              (if \<not> INTEGER_CST_P vr0max then (VR_RANGE, Some vr0max, Some vr1max)
               else if one_bit_signed then
                 (VR_RANGE, Some (int_const_binop ty MINUS_EXPR vr0max minus_one), Some vr1max)
               else (VR_RANGE, Some (int_const_binop ty PLUS_EXPR vr0max one), Some vr1max))
            else if maxeq then
              (if \<not> INTEGER_CST_P vr0min then (VR_RANGE, Some vr1min, Some vr0min)
               else if one_bit_signed then
                 (VR_RANGE, Some vr1min, Some (int_const_binop ty PLUS_EXPR vr0min minus_one))
               else (VR_RANGE, Some vr1min, Some (int_const_binop ty MINUS_EXPR vr0min one)))
            else if vrp_val_is_min ty vr1min False \<and> vrp_val_is_max ty vr1max False then keep
            else if vr0min = vr0max \<and> integer_zerop vr0min
                    \<and> (int_precision \<le> TYPE_PRECISION ty \<or> POINTER_TYPE_P ty)
                    \<and> INTEGER_CST_P vr1max \<and> INTEGER_CST_P vr1min
                    \<and> wi_clz ty (wi_to_wide vr1max - wi_to_wide vr1min) < TYPE_PRECISION ty div 2
              then keep
            else take)
         else if AA then take
         else if RA then empty
         else keep)
      else if (operand_less_p ty F vr1min vr0max = 1 \<or> operand_equal_p vr1min vr0max)
              \<and> operand_less_p ty F vr0min vr1min = 1 then
        (if AA then (vr0type, Some vr0min, Some vr1max)
         else if RR then (vr0type, Some vr1min, Some vr0max)
         else if RA then
           (if INTEGER_CST_P vr1min then
              (vr0type, Some vr0min, Some (int_const_binop ty MINUS_EXPR vr1min one))
            else (vr0type, Some vr0min, Some vr1min))
         else if AR then
           (if INTEGER_CST_P vr0max then
              (VR_RANGE, Some (int_const_binop ty PLUS_EXPR vr0max one), Some vr1max)
            else (VR_RANGE, Some vr0max, Some vr1max))
         else keep)
      else if (operand_less_p ty F vr0min vr1max = 1 \<or> operand_equal_p vr0min vr1max)
              \<and> operand_less_p ty F vr1min vr0min = 1 then
        (if AA then (vr0type, Some vr1min, Some vr0max)
         else if RR then (vr0type, Some vr0min, Some vr1max)
         else if RA then
           (if INTEGER_CST_P vr1max then
              (vr0type, Some (int_const_binop ty PLUS_EXPR vr1max one), Some vr0max)
            else (vr0type, Some vr1max, Some vr0max))
         else if AR then
           (if INTEGER_CST_P vr0min then
              (VR_RANGE, Some vr1min, Some (int_const_binop ty MINUS_EXPR vr0min one))
            else (VR_RANGE, Some vr1min, Some vr0min))
         else keep)
      else keep)
      in
      if fst r = VR_UNDEFINED then r
      else if vr1type = VR_RANGE \<and> is_gimple_min_invariant vr1min
              \<and> vrp_operand_equal_p (Some vr1min) (Some vr1max) then take
      else r)"

text \<open>\<open>value_range_base::intersect_helper\<close> and \<open>value_range_base::intersect\<close>.\<close>

definition intersect_helper ::
    "tree_type \<Rightarrow> vrp_env \<Rightarrow> nat \<Rightarrow> value_range_base \<Rightarrow> value_range_base
      \<Rightarrow> value_range_base" where
  "intersect_helper ty F int_precision vr0 vr1 =
     (if varying_p vr1 then vr0
      else if varying_p vr0 then vr1
      else if undefined_p vr0 then vr0
      else if undefined_p vr1 then vr1
      else
        let (vr0type, vr0min, vr0max) =
              intersect_ranges ty F int_precision (m_kind vr0) (the (m_min vr0)) (the (m_max vr0))
                (m_kind vr1) (the (m_min vr1)) (the (m_max vr1));
            tem = (if vr0type = VR_UNDEFINED then set_undefined
                   else if vr0type = VR_VARYING then set_varying ty
                   else value_range_base_set ty vr0type (the vr0min) (the vr0max))
        in if varying_p tem then vr0 else tem)"

definition value_range_base_intersect ::
    "tree_type \<Rightarrow> vrp_env \<Rightarrow> nat \<Rightarrow> value_range_base \<Rightarrow> value_range_base
      \<Rightarrow> value_range_base" where
  "value_range_base_intersect ty F int_precision this other =
     intersect_helper ty F int_precision this other"

subsection \<open>Pointer addition\<close>


subsection \<open>Addition and subtraction of ranges\<close>

text \<open>
  \<open>ranges_from_anti_range (ar, vr0, vr1, handle_pointers)\<close>: the result and the two
  output ranges.
\<close>

definition ranges_from_anti_range ::
    "tree_type \<Rightarrow> value_range_base \<Rightarrow> bool \<Rightarrow> bool \<times> value_range_base \<times> value_range_base" where
  "ranges_from_anti_range ty ar handle_pointers =
     (if m_kind ar \<noteq> VR_ANTI_RANGE
         \<or> \<not> INTEGER_CST_P (the (m_min ar))
         \<or> \<not> INTEGER_CST_P (the (m_max ar))
         \<or> vrp_val_min ty handle_pointers = None
         \<or> vrp_val_max ty handle_pointers = None
      then (False, set_undefined, set_undefined)
      else
        let type_min = the (vrp_val_min ty handle_pointers);
            type_max = the (vrp_val_max ty handle_pointers);
            vr0 = (if tree_int_cst_lt type_min (the (m_min ar))
                   then value_range_base_set ty VR_RANGE type_min
                          (wide_int_to_tree ty (wi_to_wide (the (m_min ar)) - 1))
                   else set_undefined);
            vr1 = (if tree_int_cst_lt (the (m_max ar)) type_max
                   then value_range_base_set ty VR_RANGE
                          (wide_int_to_tree ty (wi_to_wide (the (m_max ar)) + 1)) type_max
                   else set_undefined)
        in
        if undefined_p vr0 then (\<not> undefined_p vr1, vr1, set_undefined)
        else (True, vr0, vr1))"

text \<open>
  \<open>combine_bound\<close>: the bound and the overflow indication, which keeps its value on
  entry where the source does not assign it.
\<close>

definition combine_bound ::
    "tree_type \<Rightarrow> tree_code \<Rightarrow> overflow_type \<Rightarrow> tree option \<Rightarrow> tree option
      \<Rightarrow> int \<times> overflow_type" where
  "combine_bound ty code ovf op0 op1 =
     (let minus_p = (code = MINUS_EXPR)
      in case (op0, op1) of
           (Some t0, Some t1) \<Rightarrow>
             (if minus_p then wi_sub ty (wi_to_wide t0) (wi_to_wide t1)
              else wi_add ty (wi_to_wide t0) (wi_to_wide t1))
         | (Some t0, None) \<Rightarrow> (wi_to_wide t0, ovf)
         | (None, Some t1) \<Rightarrow>
             (if minus_p then wi_neg ty (wi_to_wide t1) else (wi_to_wide t1, ovf))
         | (None, None) \<Rightarrow> (0, ovf))"

text \<open>
  \<open>set_value_range_with_overflow\<close>: the outputs \<open>kind\<close>, \<open>min\<close> and \<open>max\<close>; the two
  bounds are \<open>NULL_TREE\<close> on entry and stay so where the source returns \<open>VR_VARYING\<close>.
\<close>

definition set_value_range_with_overflow ::
    "tree_type \<Rightarrow> int \<Rightarrow> int \<Rightarrow> overflow_type \<Rightarrow> overflow_type
      \<Rightarrow> value_range_kind \<times> tree option \<times> tree option" where
  "set_value_range_with_overflow ty wmin wmax min_ovf max_ovf =
     (if TYPE_PRECISION ty = 1 \<and> wmax < wmin then (VR_VARYING, None, None)
      else if TYPE_OVERFLOW_WRAPS ty then
        (let tmin = wi_from ty wmin;
             tmax = wi_from ty wmax
         in
         if (min_ovf \<noteq> OVF_NONE) = (max_ovf \<noteq> OVF_NONE) then
           (if tmax < tmin then (VR_VARYING, None, None)
            else (VR_RANGE, Some (wide_int_to_tree ty tmin), Some (wide_int_to_tree ty tmax)))
         else if (min_ovf = OVF_UNDERFLOW \<and> max_ovf = OVF_NONE)
                 \<or> (max_ovf = OVF_OVERFLOW \<and> min_ovf = OVF_NONE) then
           (let tem = tmin;
                tmin' = wi_from ty (tmax + 1);
                covers1 = (wi_cmp tmin' tmax < 0);
                tmax' = wi_from ty (tem - 1);
                covers = (covers1 \<or> wi_cmp tmax' tem > 0)
            in
            if covers \<or> wi_cmp tmin' tmax' > 0 then (VR_VARYING, None, None)
            else (VR_ANTI_RANGE, Some (wide_int_to_tree ty tmin'),
                  Some (wide_int_to_tree ty tmax')))
         else (VR_VARYING, None, None))
      else
        (let type_min = wi_min_value ty;
             type_max = wi_max_value ty
         in
         (VR_RANGE,
          Some (if min_ovf = OVF_UNDERFLOW then wide_int_to_tree ty type_min
                else if min_ovf = OVF_OVERFLOW then wide_int_to_tree ty type_max
                else wide_int_to_tree ty wmin),
          Some (if max_ovf = OVF_UNDERFLOW then wide_int_to_tree ty type_min
                else if max_ovf = OVF_OVERFLOW then wide_int_to_tree ty type_max
                else wide_int_to_tree ty wmax))))"

text \<open>\<open>adjust_symbolic_bound\<close>: the new value of \<open>bound\<close>.\<close>

definition adjust_symbolic_bound ::
    "tree_type \<Rightarrow> tree_code \<Rightarrow> tree option \<Rightarrow> tree option \<Rightarrow> tree option \<Rightarrow> bool \<Rightarrow> bool
      \<Rightarrow> tree option" where
  "adjust_symbolic_bound ty code bound sym_op0 sym_op1 neg_op0 neg_op1 =
     (let minus_p = (code = MINUS_EXPR)
      in if sym_op0 = sym_op1 then bound
         else if sym_op0 \<noteq> None then
           Some (build_symbolic_expr ty (the sym_op0) neg_op0 (the bound))
         else if sym_op1 \<noteq> None then
           (if \<not> minus_p \<or> neg_op1 \<or> TYPE_OVERFLOW_WRAPS ty then
              Some (build_symbolic_expr ty (the sym_op1) (neg_op1 \<noteq> minus_p) (the bound))
            else None)
         else bound)"

text \<open>
  One operand of the test ``either constant or single-symbolic'' in
  \<open>extract_range_from_plus_minus_expr\<close>:
  \<open>TREE_CODE (op) == INTEGER_CST || (sym = get_single_symbol (op, &neg, &op))\<close>.
  \<open>None\<close> when the test fails; otherwise the symbol, the negation flag and the new
  value of \<open>op\<close>.
\<close>

definition plus_minus_operand :: "tree \<Rightarrow> (tree option \<times> bool \<times> tree option) option" where
  "plus_minus_operand op =
     (if INTEGER_CST_P op then Some (None, False, Some op)
      else case get_single_symbol op of
             (None, neg, invar) \<Rightarrow> None
           | (Some s, neg, invar) \<Rightarrow> Some (Some s, neg, invar))"

text \<open>
  \<open>extract_range_from_plus_minus_expr\<close> after the two blocks that take anti-ranges
  apart: from the declaration of \<open>kind\<close> to the end of the function.
\<close>

definition plus_minus_ranges ::
    "tree_type \<Rightarrow> vrp_env \<Rightarrow> tree_code \<Rightarrow> value_range_base \<Rightarrow> value_range_base
      \<Rightarrow> value_range_base" where
  "plus_minus_ranges ty F code vr0 vr1 =
     (let vr0_kind = (if varying_p vr0 then VR_RANGE else m_kind vr0);
          vr0_min = (if varying_p vr0 then vrp_val_min ty False else m_min vr0);
          vr0_max = (if varying_p vr0 then vrp_val_max ty False else m_max vr0);
          vr1_kind = (if varying_p vr1 then VR_RANGE else m_kind vr1);
          vr1_min = (if varying_p vr1 then vrp_val_min ty False else m_min vr1);
          vr1_max = (if varying_p vr1 then vrp_val_max ty False else m_max vr1);
          minus_p = (code = MINUS_EXPR);
          min_op0 = vr0_min;
          min_op1 = (if minus_p then vr1_max else vr1_min);
          max_op0 = vr0_max;
          max_op1 = (if minus_p then vr1_min else vr1_max)
      in
      if vr0_kind = VR_RANGE \<and> vr1_kind = VR_RANGE then
        (case (plus_minus_operand (the min_op0), plus_minus_operand (the min_op1),
               plus_minus_operand (the max_op0), plus_minus_operand (the max_op1)) of
           (Some (sym_min_op0, neg_min_op0, min_op0'), Some (sym_min_op1, neg_min_op1, min_op1'),
            Some (sym_max_op0, neg_max_op0, max_op0'), Some (sym_max_op1, neg_max_op1, max_op1')) \<Rightarrow>
             if (\<not> (sym_min_op0 \<noteq> None \<and> sym_min_op1 \<noteq> None)
                 \<or> (sym_min_op0 = sym_min_op1
                     \<and> neg_min_op0 = (if minus_p then neg_min_op1 else \<not> neg_min_op1)))
                \<and> (\<not> (sym_max_op0 \<noteq> None \<and> sym_max_op1 \<noteq> None)
                    \<or> (sym_max_op0 = sym_max_op1
                        \<and> neg_max_op0 = (if minus_p then neg_max_op1 else \<not> neg_max_op1)))
             then
               (let (wmin, min_ovf) = combine_bound ty code OVF_NONE min_op0' min_op1';
                    (wmax, max_ovf) = combine_bound ty code OVF_NONE max_op0' max_op1'
                in
                if (min_ovf \<noteq> OVF_NONE \<and> sym_min_op0 \<noteq> sym_min_op1)
                   \<or> (max_ovf \<noteq> OVF_NONE \<and> sym_max_op0 \<noteq> sym_max_op1)
                then set_varying ty
                else
                  let (kind, vmin0, vmax0) =
                        set_value_range_with_overflow ty wmin wmax min_ovf max_ovf
                  in
                  if kind = VR_VARYING then set_varying ty
                  else
                    let vmin = adjust_symbolic_bound ty code vmin0 sym_min_op0 sym_min_op1
                                 neg_min_op0 neg_min_op1;
                        vmax = adjust_symbolic_bound ty code vmax0 sym_max_op0 sym_max_op1
                                 neg_max_op0 neg_max_op1
                    in
                    if vmin = None \<or> TREE_OVERFLOW_P (the vmin)
                       \<or> vmax = None \<or> TREE_OVERFLOW_P (the vmax)
                    then set_varying ty
                    else
                      let cmp = compare_values ty F (the vmin) (the vmax)
                      in if cmp = - 2 \<or> cmp = 1 then set_varying ty
                         else value_range_base_set ty kind (the vmin) (the vmax))
             else set_varying ty
         | _ \<Rightarrow> set_varying ty)
      else set_varying ty)"

text \<open>
  The pieces \<open>ranges_from_anti_range\<close> returns are never anti-ranges, so the recursion
  of \<open>extract_range_from_plus_minus_expr\<close> ends.
\<close>

lemma wi_from_ge_min: "wi_min_value ty \<le> wi_from ty x"
  by (simp add: wi_from_def wi_min_value_def)

lemma wi_from_le_max: "wi_from ty x \<le> wi_max_value ty"
proof (cases "TYPE_PRECISION ty")
  case 0
  then show ?thesis by (simp add: wi_from_def wi_max_value_def)
next
  case (Suc k)
  have "(x + 2 ^ k) mod (2 * 2 ^ k) < 2 * (2::int) ^ k" by simp
  moreover have "x mod (2 * 2 ^ k) < 2 * (2::int) ^ k" by simp
  ultimately show ?thesis using Suc by (simp add: wi_from_def wi_max_value_def)
qed

lemma set_range_not_anti:
  "\<not> tree_int_cst_lt hi lo \<Longrightarrow> m_kind (value_range_base_set ty VR_RANGE lo hi) \<noteq> VR_ANTI_RANGE"
  by (simp add: value_range_base_set_def set_normalize_def set_varying_def set_undefined_def
      Let_def)

lemma ranges_from_anti_range_kinds:
  "m_kind (fst (snd (ranges_from_anti_range ty ar False))) \<noteq> VR_ANTI_RANGE"
  "m_kind (snd (snd (ranges_from_anti_range ty ar False))) \<noteq> VR_ANTI_RANGE"
proof -
  have a: "m_kind (value_range_base_set ty VR_RANGE (TYPE_MIN_VALUE ty)
                    (wide_int_to_tree ty x)) \<noteq> VR_ANTI_RANGE" for x
    by (rule set_range_not_anti)
       (simp add: tree_int_cst_lt_def TYPE_MIN_VALUE_def wide_int_to_tree_def not_less
          wi_from_ge_min)
  have b: "m_kind (value_range_base_set ty VR_RANGE (wide_int_to_tree ty x)
                    (TYPE_MAX_VALUE ty)) \<noteq> VR_ANTI_RANGE" for x
    by (rule set_range_not_anti)
       (simp add: tree_int_cst_lt_def TYPE_MAX_VALUE_def wide_int_to_tree_def not_less
          wi_from_le_max)
  have u: "m_kind set_undefined \<noteq> VR_ANTI_RANGE" by (simp add: set_undefined_def)
  show "m_kind (fst (snd (ranges_from_anti_range ty ar False))) \<noteq> VR_ANTI_RANGE"
    using a b u by (simp add: ranges_from_anti_range_def Let_def vrp_val_min_def vrp_val_max_def)
  show "m_kind (snd (snd (ranges_from_anti_range ty ar False))) \<noteq> VR_ANTI_RANGE"
    using a b u by (simp add: ranges_from_anti_range_def Let_def vrp_val_min_def vrp_val_max_def)
qed

text \<open>
  \<open>extract_range_from_plus_minus_expr\<close>: the result range \<open>vr\<close>.  An anti-range with
  constant bounds is taken apart into one or two ranges, the operation is done on each
  piece, and the results are joined with \<open>union_\<close>.
\<close>

function extract_range_from_plus_minus_expr ::
    "tree_type \<Rightarrow> vrp_env \<Rightarrow> tree_code \<Rightarrow> value_range_base \<Rightarrow> value_range_base
      \<Rightarrow> value_range_base" where
  "extract_range_from_plus_minus_expr ty F code vr0 vr1 =
     (if m_kind vr0 = VR_ANTI_RANGE \<and> fst (ranges_from_anti_range ty vr0 False) then
        (let vrtem0 = fst (snd (ranges_from_anti_range ty vr0 False));
             vrtem1 = snd (snd (ranges_from_anti_range ty vr0 False));
             vr = extract_range_from_plus_minus_expr ty F code vrtem0 vr1
         in if \<not> undefined_p vrtem1
            then value_range_base_union ty F vr
                   (extract_range_from_plus_minus_expr ty F code vrtem1 vr1)
            else vr)
      else if m_kind vr1 = VR_ANTI_RANGE \<and> fst (ranges_from_anti_range ty vr1 False) then
        (let vrtem0 = fst (snd (ranges_from_anti_range ty vr1 False));
             vrtem1 = snd (snd (ranges_from_anti_range ty vr1 False));
             vr = extract_range_from_plus_minus_expr ty F code vr0 vrtem0
         in if \<not> undefined_p vrtem1
            then value_range_base_union ty F vr
                   (extract_range_from_plus_minus_expr ty F code vr0 vrtem1)
            else vr)
      else plus_minus_ranges ty F code vr0 vr1)"
  by pat_completeness auto
termination
  by (relation "measure (\<lambda>(ty, F, code, vr0, vr1).
          (if m_kind vr0 = VR_ANTI_RANGE then 2 else 0)
          + (if m_kind vr1 = VR_ANTI_RANGE then 1 else 0))")
     (auto simp: ranges_from_anti_range_kinds)

subsection \<open>Example types\<close>


definition uint8 :: tree_type where
  "uint8 = \<lparr>TYPE_PRECISION = 8, TYPE_UNSIGNED = True, INTEGRAL_TYPE_P = True,
             POINTER_TYPE_P = False, TYPE_OVERFLOW_WRAPS = True,
             TYPE_OVERFLOW_UNDEFINED = False\<rparr>"


definition no_fold :: vrp_env where
  "no_fold = \<lparr>fold_LT_EXPR = (\<lambda>a b. False), fold_NE_EXPR = (\<lambda>a b. False),
              flag_delete_null_pointer_checks = True\<rparr>"

subsection \<open>Notions used to state and prove soundness\<close>

text \<open>
  A lattice value in canonical form over an integral type, with integer constants as
  bounds: what \<open>set\<close> stores when it is given constants of the type (lemma
  \<open>set_triple\<close> below), and what \<open>value_range_base::check\<close> accepts.  These are the
  constructible non-symbolic lattice values.
\<close>

definition canonical_range :: "tree_type \<Rightarrow> value_range_base \<Rightarrow> bool" where
  "canonical_range ty vr =
     (case m_kind vr of
        VR_UNDEFINED \<Rightarrow> vr = set_undefined
      | VR_VARYING \<Rightarrow> vr = set_varying ty
      | VR_RANGE \<Rightarrow>
          (case (m_min vr, m_max vr) of
             (Some (INTEGER_CST l ol), Some (INTEGER_CST h oh)) \<Rightarrow>
               \<not> ol \<and> \<not> oh \<and> wi_min_value ty \<le> l \<and> l \<le> h \<and> h \<le> wi_max_value ty
               \<and> \<not> (l = wi_min_value ty \<and> h = wi_max_value ty)
           | _ \<Rightarrow> False)
      | VR_ANTI_RANGE \<Rightarrow>
          (case (m_min vr, m_max vr) of
             (Some (INTEGER_CST l ol), Some (INTEGER_CST h oh)) \<Rightarrow>
               \<not> ol \<and> \<not> oh \<and> wi_min_value ty < l \<and> l \<le> h \<and> h < wi_max_value ty
           | _ \<Rightarrow> False))"

text \<open>
  Membership of a concrete value of the type in a lattice value is the answer \<open>1\<close> of
  \<open>value_inside_range\<close> on the constant (\<open>value_range_base::contains_p\<close> of a
  non-symbolic range).
\<close>

definition contains_value :: "tree_type \<Rightarrow> vrp_env \<Rightarrow> value_range_base \<Rightarrow> int \<Rightarrow> bool" where
  "contains_value ty F vr v \<longleftrightarrow> value_inside_range ty F vr (INTEGER_CST v False) = 1"

definition type_value :: "tree_type \<Rightarrow> int \<Rightarrow> bool" where
  "type_value ty v \<longleftrightarrow> wi_min_value ty \<le> v \<and> v \<le> wi_max_value ty"

text \<open>
  The concrete operations of the arithmetic soundness claim: the exact sum or
  difference, wrapped to the precision for a wrapping type and saturated to the bounds
  of the type otherwise.
\<close>

definition concrete_plus_minus :: "tree_type \<Rightarrow> tree_code \<Rightarrow> int \<Rightarrow> int \<Rightarrow> int" where
  "concrete_plus_minus ty code x y =
     (let e = (if code = MINUS_EXPR then x - y else x + y)
      in if TYPE_OVERFLOW_WRAPS ty then wi_from ty e
         else max (wi_min_value ty) (min (wi_max_value ty) e))"

text \<open>
  The triples \<open>union_ranges\<close> and \<open>intersect_ranges\<close> return, before \<open>set\<close> puts them in
  canonical form: \<open>triple_ok\<close> says that the bounds, when there are any, are constants
  of the type in the right order; \<open>in_triple\<close> is membership in the set the triple
  denotes.  \<open>one_ok\<close> holds for the types in which the constant \<open>1\<close> is representable,
  that is for all but the signed types of one bit.
\<close>

definition triple_ok :: "tree_type \<Rightarrow> value_range_kind \<times> tree option \<times> tree option \<Rightarrow> bool" where
  "triple_ok ty r \<longleftrightarrow>
     (case r of (k, lo, hi) \<Rightarrow>
        k = VR_VARYING \<or> k = VR_UNDEFINED \<or>
        ((k = VR_RANGE \<or> k = VR_ANTI_RANGE) \<and>
         (\<exists>l h. lo = Some (INTEGER_CST l False) \<and> hi = Some (INTEGER_CST h False) \<and>
                wi_min_value ty \<le> l \<and> l \<le> h \<and> h \<le> wi_max_value ty)))"

definition in_triple :: "int \<Rightarrow> value_range_kind \<times> tree option \<times> tree option \<Rightarrow> bool" where
  "in_triple v r \<longleftrightarrow>
     (case r of (k, lo, hi) \<Rightarrow>
        k = VR_VARYING \<or>
        (k = VR_RANGE \<and> wi_to_wide (the lo) \<le> v \<and> v \<le> wi_to_wide (the hi)) \<or>
        (k = VR_ANTI_RANGE \<and> (v < wi_to_wide (the lo) \<or> wi_to_wide (the hi) < v)))"

definition one_ok :: "tree_type \<Rightarrow> bool" where
  "one_ok ty \<longleftrightarrow> 0 < TYPE_PRECISION ty \<and> 1 \<le> wi_max_value ty"

text \<open>A signed type of one bit, with the values \<open>-1\<close> and \<open>0\<close>.\<close>

definition int1 :: tree_type where
  "int1 = \<lparr>TYPE_PRECISION = 1, TYPE_UNSIGNED = False, INTEGRAL_TYPE_P = True,
            POINTER_TYPE_P = False, TYPE_OVERFLOW_WRAPS = False,
            TYPE_OVERFLOW_UNDEFINED = True\<rparr>"

section \<open>The alias oracle (tree-ssa-alias.c)\<close>

subsection \<open>Types, fields and references\<close>

text \<open>
  Type nodes.  A node is identified by its \<open>TYPE_UID\<close>; comparing two nodes compares all
  fields.  \<open>TYPE_CANONICAL\<close> is kept as the uid of the canonical type, \<open>None\<close> for a type
  that needs structural comparison.  \<open>TYPE_DOMAIN_MIN\<close> is
  \<open>TYPE_MIN_VALUE (TYPE_DOMAIN (type))\<close> when the type has a domain with a minimum.
  \<open>TYPE_ELEM\<close> is \<open>TREE_TYPE\<close> of an array, vector or pointer type.
\<close>

datatype type_code =
  VOID_TYPE | INTEGER_TYPE | REAL_TYPE | POINTER_TYPE | RECORD_TYPE | UNION_TYPE
  | QUAL_UNION_TYPE | ARRAY_TYPE | VECTOR_TYPE | COMPLEX_TYPE

datatype type_node = TYPE_NODE
  (TYPE_UID: nat) (TYPE_CODE: type_code) (TYPE_SIZE: "tree option")
  (TYPE_SIZE_UNIT: "tree option") (TYPE_ALIGN: nat) (TYPE_CANONICAL: "nat option")
  (TYPE_DOMAIN_MIN: "tree option") (TYPE_ELEM: "type_node option")

text \<open>Field declarations; \<open>DECL_FIELD_CONTEXT\<close> is \<open>DECL_CONTEXT\<close>.\<close>

datatype field_decl = FIELD_DECL
  (FIELD_UID: nat) (DECL_CONTEXT: type_node) (FIELD_TYPE: type_node) (DECL_BIT_FIELD: bool)
  (DECL_BIT_FIELD_REPRESENTATIVE: "field_decl option")
  (DECL_FIELD_OFFSET: tree) (DECL_FIELD_BIT_OFFSET: tree) (FIELD_SIZE: "tree option")

text \<open>
  The trees that occur in memory references.  \<open>DECL\<close> carries the code of the
  declaration, its uid, its type and its \<open>DECL_SIZE\<close>.  \<open>EXPR\<close> is a tree that is not a
  reference: an SSA name, a constant or an address.  \<open>MEM_REF\<close> carries the pointer, the
  constant offset, the pointer type of the offset operand, the type of the reference,
  \<open>MR_DEPENDENCE_CLIQUE\<close> and \<open>MR_DEPENDENCE_BASE\<close>; \<open>TARGET_MEM_REF\<close> has
  \<open>TMR_INDEX\<close>, \<open>TMR_INDEX2\<close> and \<open>TMR_STEP\<close> in addition.  \<open>ARRAY_REF\<close> carries the array,
  the index, the operands 2 (low bound) and 3 (element size), and the type.
\<close>

datatype decl_code = VAR_DECL | PARM_DECL | RESULT_DECL | FUNCTION_DECL | LABEL_DECL | CONST_DECL

datatype ref_tree =
    DECL decl_code nat type_node "tree option"
  | EXPR tree type_node
  | CONSTRUCTOR type_node
  | STRING_CST type_node
  | MEM_REF tree int type_node type_node nat nat
  | TARGET_MEM_REF tree int type_node type_node "tree option" "tree option" "tree option" nat nat
  | COMPONENT_REF ref_tree field_decl
  | ARRAY_REF ref_tree tree "tree option" "tree option" type_node
  | ARRAY_RANGE_REF ref_tree tree "tree option" "tree option" type_node
  | BIT_FIELD_REF ref_tree type_node
  | VIEW_CONVERT_EXPR ref_tree type_node
  | REALPART_EXPR ref_tree type_node
  | IMAGPART_EXPR ref_tree type_node

fun TREE_TYPE :: "ref_tree \<Rightarrow> type_node" where
  "TREE_TYPE (DECL c u t s) = t"
| "TREE_TYPE (EXPR e t) = t"
| "TREE_TYPE (CONSTRUCTOR t) = t"
| "TREE_TYPE (STRING_CST t) = t"
| "TREE_TYPE (MEM_REF p off pt t cl b) = t"
| "TREE_TYPE (TARGET_MEM_REF p off pt t i i2 s cl b) = t"
| "TREE_TYPE (COMPONENT_REF r f) = FIELD_TYPE f"
| "TREE_TYPE (ARRAY_REF r i lo sz t) = t"
| "TREE_TYPE (ARRAY_RANGE_REF r i lo sz t) = t"
| "TREE_TYPE (BIT_FIELD_REF r t) = t"
| "TREE_TYPE (VIEW_CONVERT_EXPR r t) = t"
| "TREE_TYPE (REALPART_EXPR r t) = t"
| "TREE_TYPE (IMAGPART_EXPR r t) = t"

text \<open>
  Modelled from the spec: \<open>handled_component_p\<close>, \<open>DECL_P\<close>, \<open>CONSTANT_CLASS_P\<close> and the
  other tree predicates come from a header that is not at hand.
\<close>

fun handled_component_p :: "ref_tree \<Rightarrow> bool" where
  "handled_component_p (COMPONENT_REF r f) = True"
| "handled_component_p (ARRAY_REF r i lo sz t) = True"
| "handled_component_p (ARRAY_RANGE_REF r i lo sz t) = True"
| "handled_component_p (BIT_FIELD_REF r t) = True"
| "handled_component_p (VIEW_CONVERT_EXPR r t) = True"
| "handled_component_p (REALPART_EXPR r t) = True"
| "handled_component_p (IMAGPART_EXPR r t) = True"
| "handled_component_p r = False"

text \<open>\<open>TREE_OPERAND (ref, 0)\<close> of a handled component; any other tree is left as it is.\<close>

fun TREE_OPERAND0 :: "ref_tree \<Rightarrow> ref_tree" where
  "TREE_OPERAND0 (COMPONENT_REF r f) = r"
| "TREE_OPERAND0 (ARRAY_REF r i lo sz t) = r"
| "TREE_OPERAND0 (ARRAY_RANGE_REF r i lo sz t) = r"
| "TREE_OPERAND0 (BIT_FIELD_REF r t) = r"
| "TREE_OPERAND0 (VIEW_CONVERT_EXPR r t) = r"
| "TREE_OPERAND0 (REALPART_EXPR r t) = r"
| "TREE_OPERAND0 (IMAGPART_EXPR r t) = r"
| "TREE_OPERAND0 r = r"

fun DECL_P :: "ref_tree \<Rightarrow> bool" where
  "DECL_P (DECL c u t s) = True"
| "DECL_P r = False"

fun decl_code_p :: "decl_code \<Rightarrow> ref_tree \<Rightarrow> bool" where
  "decl_code_p c (DECL c' u t s) = (c = c')"
| "decl_code_p c r = False"

fun SSA_NAME_CODE_P :: "ref_tree \<Rightarrow> bool" where
  "SSA_NAME_CODE_P (EXPR (SSA_NAME n) t) = True"
| "SSA_NAME_CODE_P r = False"

fun ADDR_EXPR_P :: "ref_tree \<Rightarrow> bool" where
  "ADDR_EXPR_P (EXPR (ADDR_EXPR n) t) = True"
| "ADDR_EXPR_P r = False"

fun CONSTRUCTOR_P :: "ref_tree \<Rightarrow> bool" where
  "CONSTRUCTOR_P (CONSTRUCTOR t) = True"
| "CONSTRUCTOR_P r = False"

fun CONSTANT_CLASS_P :: "ref_tree \<Rightarrow> bool" where
  "CONSTANT_CLASS_P (EXPR (INTEGER_CST v ovf) t) = True"
| "CONSTANT_CLASS_P (STRING_CST t) = True"
| "CONSTANT_CLASS_P r = False"

fun MEM_REF_P :: "ref_tree \<Rightarrow> bool" where
  "MEM_REF_P (MEM_REF p off pt t cl b) = True"
| "MEM_REF_P r = False"

fun TARGET_MEM_REF_P :: "ref_tree \<Rightarrow> bool" where
  "TARGET_MEM_REF_P (TARGET_MEM_REF p off pt t i i2 s cl b) = True"
| "TARGET_MEM_REF_P r = False"

fun COMPONENT_REF_P :: "ref_tree \<Rightarrow> bool" where
  "COMPONENT_REF_P (COMPONENT_REF r f) = True"
| "COMPONENT_REF_P r = False"

fun ARRAY_REF_P :: "ref_tree \<Rightarrow> bool" where
  "ARRAY_REF_P (ARRAY_REF r i lo sz t) = True"
| "ARRAY_REF_P r = False"

fun view_or_bit_field_p :: "ref_tree \<Rightarrow> bool" where
  "view_or_bit_field_p (VIEW_CONVERT_EXPR r t) = True"
| "view_or_bit_field_p (BIT_FIELD_REF r t) = True"
| "view_or_bit_field_p r = False"

text \<open>
  The operands of a \<open>MEM_REF\<close> or \<open>TARGET_MEM_REF\<close>: the pointer, \<open>mem_ref_offset\<close>, the
  type of operand 1, the restrict clique and base, and the index, second index and
  step.  On other trees the pointer is \<open>ERROR_MARK\<close>, the offset zero and the rest absent.
\<close>

fun mem_ptr :: "ref_tree \<Rightarrow> tree" where
  "mem_ptr (MEM_REF p off pt t cl b) = p"
| "mem_ptr (TARGET_MEM_REF p off pt t i i2 s cl b) = p"
| "mem_ptr r = ERROR_MARK"

fun mem_ref_offset :: "ref_tree \<Rightarrow> int" where
  "mem_ref_offset (MEM_REF p off pt t cl b) = off"
| "mem_ref_offset (TARGET_MEM_REF p off pt t i i2 s cl b) = off"
| "mem_ref_offset r = 0"

fun mem_ptrtype :: "ref_tree \<Rightarrow> type_node" where
  "mem_ptrtype (MEM_REF p off pt t cl b) = pt"
| "mem_ptrtype (TARGET_MEM_REF p off pt t i i2 s cl b) = pt"
| "mem_ptrtype r = TREE_TYPE r"

fun MR_DEPENDENCE_CLIQUE :: "ref_tree \<Rightarrow> nat" where
  "MR_DEPENDENCE_CLIQUE (MEM_REF p off pt t cl b) = cl"
| "MR_DEPENDENCE_CLIQUE (TARGET_MEM_REF p off pt t i i2 s cl b) = cl"
| "MR_DEPENDENCE_CLIQUE r = 0"

fun MR_DEPENDENCE_BASE :: "ref_tree \<Rightarrow> nat" where
  "MR_DEPENDENCE_BASE (MEM_REF p off pt t cl b) = b"
| "MR_DEPENDENCE_BASE (TARGET_MEM_REF p off pt t i i2 s cl b) = b"
| "MR_DEPENDENCE_BASE r = 0"

fun TMR_INDEX :: "ref_tree \<Rightarrow> tree option" where
  "TMR_INDEX (TARGET_MEM_REF p off pt t i i2 s cl b) = i"
| "TMR_INDEX r = None"

fun TMR_INDEX2 :: "ref_tree \<Rightarrow> tree option" where
  "TMR_INDEX2 (TARGET_MEM_REF p off pt t i i2 s cl b) = i2"
| "TMR_INDEX2 r = None"

fun TMR_STEP :: "ref_tree \<Rightarrow> tree option" where
  "TMR_STEP (TARGET_MEM_REF p off pt t i i2 s cl b) = s"
| "TMR_STEP r = None"

fun DECL_SIZE :: "ref_tree \<Rightarrow> tree option" where
  "DECL_SIZE (DECL c u t s) = s"
| "DECL_SIZE r = None"

text \<open>The pointee of a pointer type: \<open>TREE_TYPE (ptrtype)\<close>.\<close>

definition pointee :: "type_node \<Rightarrow> type_node" where
  "pointee pt = (case TYPE_ELEM pt of Some t \<Rightarrow> t | None \<Rightarrow> pt)"

subsection \<open>The environment of the oracle\<close>

text \<open>
  What the oracle reads from the rest of the compiler: the flag \<open>-fstrict-aliasing\<close>;
  \<open>in_ssa\<close>, the value of \<open>!cfun || gimple_in_ssa_p (cfun)\<close>; the type tables
  (\<open>TYPE_MAIN_VARIANT\<close>, \<open>get_alias_set\<close>, \<open>alias_sets_conflict_p\<close>,
  \<open>alias_set_subset_of\<close>); \<open>compare_base_decls\<close>; the points-to queries
  \<open>ptr_deref_may_alias_decl_p\<close> and \<open>ptr_derefs_may_alias_p\<close>;
  \<open>SSA_NAME_POINTS_TO_READONLY_MEMORY\<close>; \<open>array_at_struct_end_p\<close>; and the offset that
  \<open>get_ref_base_and_extent\<close> computes for a reference.
\<close>

record alias_env =
  flag_strict_aliasing :: bool
  in_ssa :: bool
  TYPE_MAIN_VARIANT :: "type_node \<Rightarrow> type_node"
  get_alias_set :: "type_node \<Rightarrow> int"
  alias_sets_conflict_p :: "int \<Rightarrow> int \<Rightarrow> bool"
  alias_set_subset_of :: "int \<Rightarrow> int \<Rightarrow> bool"
  compare_base_decls :: "ref_tree \<Rightarrow> ref_tree \<Rightarrow> int"
  ptr_deref_may_alias_decl_p :: "tree \<Rightarrow> ref_tree \<Rightarrow> bool"
  ptr_derefs_may_alias_p :: "tree \<Rightarrow> tree \<Rightarrow> bool"
  SSA_NAME_POINTS_TO_READONLY_MEMORY :: "tree \<Rightarrow> bool"
  array_at_struct_end_p :: "ref_tree \<Rightarrow> bool"
  get_ref_base_and_extent_offset :: "ref_tree \<Rightarrow> int"

text \<open>
  \<open>ao_ref\<close> after \<open>ao_ref_base\<close>, \<open>ao_ref_alias_set\<close> and \<open>ao_ref_base_alias_set\<close> have
  filled it in: the reference (or \<open>NULL\<close>), its base, the offset, size and maximal size
  in bits, the two alias sets and the volatile flag.
\<close>

record ao_ref =
  ao_ref :: "ref_tree option"
  ao_base :: ref_tree
  ao_offset :: int
  ao_size :: int
  ao_max_size :: int
  ao_ref_alias_set :: int
  ao_base_alias_set :: int
  ao_volatile_p :: bool

text \<open>
  Modelled from the spec: \<open>ranges_maybe_overlap_p\<close> and \<open>maybe_in_range_p\<close> come from a
  header that is not at hand.  The ranges are \<open>[pos, pos + size)\<close>; the size \<open>-1\<close> stands
  for an open-ended range.
\<close>

definition maybe_in_range_p :: "int \<Rightarrow> int \<Rightarrow> int \<Rightarrow> bool" where
  "maybe_in_range_p val pos sz =
     (if val < pos then False else if sz = - 1 then True else val - pos < sz)"

definition ranges_maybe_overlap_p :: "int \<Rightarrow> int \<Rightarrow> int \<Rightarrow> int \<Rightarrow> bool" where
  "ranges_maybe_overlap_p pos1 size1 pos2 size2 =
     (if maybe_in_range_p pos2 pos1 size1 then size2 \<noteq> 0
      else if maybe_in_range_p pos1 pos2 size2 then size1 \<noteq> 0
      else False)"

subsection \<open>Sizes and types\<close>

text \<open>
  Modelled from the spec: \<open>poly_int_tree_p (t, &value)\<close> with a \<open>poly_uint64\<close> result
  comes from a header that is not at hand.  It holds for an integer constant that fits an
  unsigned 64-bit integer and then gives its value.
\<close>

definition poly_int_tree_p :: "tree \<Rightarrow> bool" where
  "poly_int_tree_p t \<longleftrightarrow> INTEGER_CST_P t \<and> 0 \<le> wi_to_wide t \<and> wi_to_wide t < 2 ^ 64"

definition compare_sizes :: "tree option \<Rightarrow> tree option \<Rightarrow> int" where
  "compare_sizes s1 s2 =
     (case (s1, s2) of
        (Some t1, Some t2) \<Rightarrow>
          if \<not> poly_int_tree_p t1 \<or> \<not> poly_int_tree_p t2 then 0
          else if wi_to_wide t1 < wi_to_wide t2 then - 1
          else if wi_to_wide t2 < wi_to_wide t1 then 1
          else 0
      | _ \<Rightarrow> 0)"

text \<open>The two loops of \<open>compare_type_sizes\<close> that step through array and vector types.\<close>

fun strip_array_types :: "type_node \<Rightarrow> type_node" where
  "strip_array_types (TYPE_NODE u c sz szu al can dm el) =
     (if c = ARRAY_TYPE \<or> c = VECTOR_TYPE then
        (case el of Some t \<Rightarrow> strip_array_types t
         | None \<Rightarrow> TYPE_NODE u c sz szu al can dm el)
      else TYPE_NODE u c sz szu al can dm el)"

definition compare_type_sizes :: "type_node \<Rightarrow> type_node \<Rightarrow> int" where
  "compare_type_sizes type1 type2 =
     compare_sizes (TYPE_SIZE (strip_array_types type1)) (TYPE_SIZE (strip_array_types type2))"

definition same_type_for_tbaa :: "alias_env \<Rightarrow> type_node \<Rightarrow> type_node \<Rightarrow> int" where
  "same_type_for_tbaa E t1 t2 =
     (let type1 = TYPE_MAIN_VARIANT E t1;
          type2 = TYPE_MAIN_VARIANT E t2
      in if type1 = type2 then 1
         else if TYPE_CANONICAL type1 = None \<or> TYPE_CANONICAL type2 = None then - 1
         else if TYPE_CANONICAL type1 = TYPE_CANONICAL type2 then 1
         else if TYPE_CODE type1 = ARRAY_TYPE \<and> TYPE_CODE type2 = ARRAY_TYPE then - 1
         else if get_alias_set E type1 = get_alias_set E type2 then - 1
         else 0)"

definition RECORD_OR_UNION_TYPE_P :: "type_node \<Rightarrow> bool" where
  "RECORD_OR_UNION_TYPE_P t \<longleftrightarrow>
     TYPE_CODE t = RECORD_TYPE \<or> TYPE_CODE t = UNION_TYPE \<or> TYPE_CODE t = QUAL_UNION_TYPE"

definition type_has_components_p :: "type_node \<Rightarrow> bool" where
  "type_has_components_p t \<longleftrightarrow>
     (TYPE_CODE t = ARRAY_TYPE \<or> RECORD_OR_UNION_TYPE_P t)
     \<or> TYPE_CODE t = VECTOR_TYPE \<or> TYPE_CODE t = COMPLEX_TYPE"

definition component_ref_to_zero_sized_trailing_array_p :: "alias_env \<Rightarrow> ref_tree \<Rightarrow> bool" where
  "component_ref_to_zero_sized_trailing_array_p E r =
     (case r of
        COMPONENT_REF r0 f \<Rightarrow>
          TYPE_CODE (FIELD_TYPE f) = ARRAY_TYPE
          \<and> (TYPE_SIZE (FIELD_TYPE f) = None \<or> integer_zerop (the (TYPE_SIZE (FIELD_TYPE f))))
          \<and> array_at_struct_end_p E r
      | _ \<Rightarrow> False)"

subsection \<open>Fields and array elements that cannot overlap\<close>

text \<open>
  Modelled from the spec: \<open>ranges_maybe_overlap_p\<close> on \<open>poly_uint64\<close> values, where the
  open-ended size \<open>-1\<close> is the largest unsigned 64-bit integer.
\<close>

definition ranges_maybe_overlap_p_uint64 :: "int \<Rightarrow> int \<Rightarrow> int \<Rightarrow> int \<Rightarrow> bool" where
  "ranges_maybe_overlap_p_uint64 pos1 size1 pos2 size2 =
     ranges_maybe_overlap_p pos1 (if size1 = 2 ^ 64 - 1 then - 1 else size1)
       pos2 (if size2 = 2 ^ 64 - 1 then - 1 else size2)"

definition nonoverlapping_component_refs_p_1 :: "field_decl \<Rightarrow> field_decl \<Rightarrow> int" where
  "nonoverlapping_component_refs_p_1 f1 f2 =
     (let type1 = DECL_CONTEXT f1;
          type2 = DECL_CONTEXT f2;
          field1 = (if TYPE_CODE type1 = RECORD_TYPE \<and> DECL_BIT_FIELD_REPRESENTATIVE f1 \<noteq> None
                    then the (DECL_BIT_FIELD_REPRESENTATIVE f1) else f1);
          field2 = (if TYPE_CODE type2 = RECORD_TYPE \<and> DECL_BIT_FIELD_REPRESENTATIVE f2 \<noteq> None
                    then the (DECL_BIT_FIELD_REPRESENTATIVE f2) else f2)
      in
      if DECL_BIT_FIELD field1 \<and> DECL_BIT_FIELD field2 then - 1
      else if type1 = type2 \<and> TYPE_CODE type1 = RECORD_TYPE then
        (if field1 \<noteq> field2 then 1 else 0)
      else if tree_int_cst_equal (DECL_FIELD_OFFSET field1) (DECL_FIELD_OFFSET field2)
              \<and> tree_int_cst_equal (DECL_FIELD_BIT_OFFSET field1) (DECL_FIELD_BIT_OFFSET field2)
      then 0
      else if poly_int_tree_p (DECL_FIELD_OFFSET field1)
              \<and> poly_int_tree_p (DECL_FIELD_OFFSET field2)
              \<and> poly_int_tree_p (DECL_FIELD_BIT_OFFSET field1)
              \<and> poly_int_tree_p (DECL_FIELD_BIT_OFFSET field2) then
        (let offset1 = (wi_to_wide (DECL_FIELD_OFFSET field1) * 8
                          + wi_to_wide (DECL_FIELD_BIT_OFFSET field1)) mod 2 ^ 64;
             offset2 = (wi_to_wide (DECL_FIELD_OFFSET field2) * 8
                          + wi_to_wide (DECL_FIELD_BIT_OFFSET field2)) mod 2 ^ 64
         in
         if offset1 = offset2 then 0
         else if FIELD_SIZE field1 \<noteq> None \<and> poly_int_tree_p (the (FIELD_SIZE field1))
                 \<and> FIELD_SIZE field2 \<noteq> None \<and> poly_int_tree_p (the (FIELD_SIZE field2))
                 \<and> \<not> ranges_maybe_overlap_p_uint64 offset1 (wi_to_wide (the (FIELD_SIZE field1)))
                       offset2 (wi_to_wide (the (FIELD_SIZE field2)))
         then 1
         else - 1)
      else - 1)"

text \<open>
  The operands of an \<open>ARRAY_REF\<close>: the index (operand 1), the low bound (operand 2) and
  the element size (operand 3).
\<close>

fun array_index :: "ref_tree \<Rightarrow> tree" where
  "array_index (ARRAY_REF r i lo sz t) = i"
| "array_index (ARRAY_RANGE_REF r i lo sz t) = i"
| "array_index r = ERROR_MARK"

fun array_operand2 :: "ref_tree \<Rightarrow> tree option" where
  "array_operand2 (ARRAY_REF r i lo sz t) = lo"
| "array_operand2 (ARRAY_RANGE_REF r i lo sz t) = lo"
| "array_operand2 r = None"

fun array_operand3 :: "ref_tree \<Rightarrow> tree option" where
  "array_operand3 (ARRAY_REF r i lo sz t) = sz"
| "array_operand3 (ARRAY_RANGE_REF r i lo sz t) = sz"
| "array_operand3 r = None"

definition integer_zero_node :: tree where
  "integer_zero_node = INTEGER_CST 0 False"

definition cheap_array_ref_low_bound :: "ref_tree \<Rightarrow> tree" where
  "cheap_array_ref_low_bound r =
     (case array_operand2 r of
        Some lo \<Rightarrow> lo
      | None \<Rightarrow>
          (case TYPE_DOMAIN_MIN (TREE_TYPE (TREE_OPERAND0 r)) of
             Some lo \<Rightarrow> lo
           | None \<Rightarrow> integer_zero_node))"

text \<open>
  An operand that may be absent, as an argument of \<open>operand_equal_p\<close>: the source
  passes only operands that are there; the model puts \<open>ERROR_MARK\<close>, which is equal to
  nothing, in the place of an absent one.
\<close>

definition operand_or_error :: "tree option \<Rightarrow> tree" where
  "operand_or_error t = (case t of Some x \<Rightarrow> x | None \<Rightarrow> ERROR_MARK)"

definition elmt_type :: "ref_tree \<Rightarrow> type_node" where
  "elmt_type r = pointee (TREE_TYPE (TREE_OPERAND0 r))"

definition nonoverlapping_array_refs_p :: "ref_tree \<Rightarrow> ref_tree \<Rightarrow> int" where
  "nonoverlapping_array_refs_p ref1 ref2 =
     (let index1 = array_index ref1;
          index2 = array_index ref2;
          low_bound1 = cheap_array_ref_low_bound ref1;
          low_bound2 = cheap_array_ref_low_bound ref2
      in
      if operand_equal_p index1 low_bound1 \<and> operand_equal_p index2 low_bound2 then 0
      else if (array_operand3 ref1 = None) \<noteq> (array_operand3 ref2 = None) then - 1
      else
        let elmt_type1 = elmt_type ref1;
            elmt_type2 = elmt_type ref2
        in
        if (if array_operand3 ref1 \<noteq> None
            then TYPE_ALIGN elmt_type1 \<noteq> TYPE_ALIGN elmt_type2
                 \<or> \<not> operand_equal_p (operand_or_error (array_operand3 ref1))
                        (operand_or_error (array_operand3 ref2))
            else \<not> operand_equal_p (operand_or_error (TYPE_SIZE_UNIT elmt_type1))
                     (operand_or_error (TYPE_SIZE_UNIT elmt_type2)))
        then - 1
        else if \<not> operand_equal_p low_bound1 low_bound2 then 0
        else if INTEGER_CST_P index1 \<and> INTEGER_CST_P index2 then
          (if tree_int_cst_equal index1 index2 then 0 else 1)
        else 0)"

subsection \<open>Matching two access paths\<close>

text \<open>
  The stack of handled components of \<open>nonoverlapping_refs_since_match_p\<close>: the loop
  \<open>while (handled_component_p (ref) && ref != match)\<close>.  The head of the list is the top
  of the stack, the component nearest to the base; the second result is the tree the
  loop stops at.
\<close>

fun component_refs_stack ::
    "ref_tree option \<Rightarrow> ref_tree \<Rightarrow> ref_tree list \<Rightarrow> ref_tree list \<times> ref_tree" where
  "component_refs_stack match1 (COMPONENT_REF r f) st =
     (if Some (COMPONENT_REF r f) = match1 then (st, COMPONENT_REF r f)
      else component_refs_stack match1 r (COMPONENT_REF r f # st))"
| "component_refs_stack match1 (ARRAY_REF r i lo sz t) st =
     (if Some (ARRAY_REF r i lo sz t) = match1 then (st, ARRAY_REF r i lo sz t)
      else component_refs_stack match1 r (ARRAY_REF r i lo sz t # st))"
| "component_refs_stack match1 (ARRAY_RANGE_REF r i lo sz t) st =
     (if Some (ARRAY_RANGE_REF r i lo sz t) = match1 then (st, ARRAY_RANGE_REF r i lo sz t)
      else component_refs_stack match1 r (ARRAY_RANGE_REF r i lo sz t # st))"
| "component_refs_stack match1 (REALPART_EXPR r t) st =
     (if Some (REALPART_EXPR r t) = match1 then (st, REALPART_EXPR r t)
      else component_refs_stack match1 r (REALPART_EXPR r t # st))"
| "component_refs_stack match1 (IMAGPART_EXPR r t) st =
     (if Some (IMAGPART_EXPR r t) = match1 then (st, IMAGPART_EXPR r t)
      else component_refs_stack match1 r (IMAGPART_EXPR r t # st))"
| "component_refs_stack match1 (VIEW_CONVERT_EXPR r t) st =
     (if Some (VIEW_CONVERT_EXPR r t) = match1 then (st, VIEW_CONVERT_EXPR r t)
      else component_refs_stack match1 r [])"
| "component_refs_stack match1 (BIT_FIELD_REF r t) st =
     (if Some (BIT_FIELD_REF r t) = match1 then (st, BIT_FIELD_REF r t)
      else component_refs_stack match1 r [])"
| "component_refs_stack match1 r st = (st, r)"

text \<open>The number of \<open>ARRAY_REF\<close>s on top of a stack.\<close>

fun narray_refs :: "ref_tree list \<Rightarrow> nat" where
  "narray_refs [] = 0"
| "narray_refs (r # rs) = (if ARRAY_REF_P r then Suc (narray_refs rs) else 0)"

text \<open>
  The loops \<open>for (; narray_refs1 > narray_refs2; narray_refs1--)\<close>: pop \<open>n\<close> array
  references whose index is the low bound; \<open>None\<close> when one of them has another index
  (the source returns 0 then).
\<close>

fun pop_extra_array_refs :: "nat \<Rightarrow> ref_tree list \<Rightarrow> ref_tree list option" where
  "pop_extra_array_refs 0 st = Some st"
| "pop_extra_array_refs (Suc n) [] = Some []"
| "pop_extra_array_refs (Suc n) (r # rs) =
     (if \<not> operand_equal_p (array_index r) (cheap_array_ref_low_bound r) then None
      else pop_extra_array_refs n rs)"

text \<open>
  The loop \<open>for (i = 0; i < narray_refs1; i++)\<close> over the matched array references:
  \<open>Inl 1\<close> when the function returns 1, otherwise the stacks that are left with the new
  values of \<open>partial_overlap\<close> and \<open>seen_unmatched_ref_p\<close>.
\<close>

fun match_array_refs ::
    "nat \<Rightarrow> ref_tree list \<Rightarrow> ref_tree list \<Rightarrow> bool \<Rightarrow> bool
      \<Rightarrow> int + (ref_tree list \<times> ref_tree list \<times> bool \<times> bool)" where
  "match_array_refs (Suc n) (r1 # s1) (r2 # s2) partial_overlap seen =
     (let cmp = nonoverlapping_array_refs_p r1 r2
      in if cmp = 1 \<and> \<not> partial_overlap then Inl 1
         else match_array_refs n s1 s2 False (seen \<or> cmp = - 1))"
| "match_array_refs n s1 s2 partial_overlap seen = Inr (s1, s2, partial_overlap, seen)"

text \<open>
  The loops \<open>do ... while (!RECORD_OR_UNION_TYPE_P (...))\<close>: pop until a component of a
  record or union; \<open>None\<close> when the stack runs empty (the source returns 0 then).
\<close>

fun pop_component_ref :: "ref_tree list \<Rightarrow> bool \<Rightarrow> (ref_tree \<times> ref_tree list \<times> bool) option" where
  "pop_component_ref [] seen = None"
| "pop_component_ref (r # rs) seen =
     (let seen' = (seen \<or> \<not> COMPONENT_REF_P r)
      in if RECORD_OR_UNION_TYPE_P (TREE_TYPE (TREE_OPERAND0 r)) then Some (r, rs, seen')
         else pop_component_ref rs seen')"

lemma pop_component_ref_length:
  "pop_component_ref st seen = Some (r, rs, seen') \<Longrightarrow> length rs < length st"
  by (induction st seen rule: pop_component_ref.induct) (auto simp: Let_def split: if_splits)

lemma pop_extra_array_refs_length:
  "pop_extra_array_refs n st = Some rs \<Longrightarrow> length rs \<le> length st"
  by (induction n st rule: pop_extra_array_refs.induct) (auto split: if_splits)

lemma match_array_refs_length:
  "match_array_refs n s1 s2 po seen = Inr (t1, t2, po', seen') \<Longrightarrow>
     length t1 \<le> length s1 \<and> length t2 \<le> length s2"
  by (induction n s1 s2 po seen rule: match_array_refs.induct)
     (auto simp: Let_def split: if_splits)

fun component_field :: "ref_tree \<Rightarrow> field_decl option" where
  "component_field (COMPONENT_REF r f) = Some f"
| "component_field r = None"

text \<open>
  The loop \<open>while (true)\<close> of \<open>nonoverlapping_refs_since_match_p\<close> on the two stacks.
  Where the source asserts that the two popped trees are \<open>COMPONENT_REF\<close>s, the model
  answers \<open>-1\<close> for any other tree.
\<close>

function match_components :: "ref_tree list \<Rightarrow> ref_tree list \<Rightarrow> bool \<Rightarrow> int" where
  "match_components component_refs1 component_refs2 partial_overlap =
     (case
        (if component_refs1 \<noteq> [] \<and> component_refs2 \<noteq> [] then
           (let n1 = narray_refs component_refs1;
                n2 = narray_refs component_refs2
            in case pop_extra_array_refs (n1 - n2) component_refs1 of
                 None \<Rightarrow> Inl 0
               | Some s1 \<Rightarrow>
                   (case pop_extra_array_refs (n2 - n1) component_refs2 of
                      None \<Rightarrow> Inl 0
                    | Some s2 \<Rightarrow> match_array_refs (min n1 n2) s1 s2 partial_overlap False))
         else Inr (component_refs1, component_refs2, partial_overlap, False))
      of
        Inl res \<Rightarrow> res
      | Inr (s1, s2, po, seen) \<Rightarrow>
          (case pop_component_ref s1 seen of
             None \<Rightarrow> 0
           | Some (ref1, t1, seen1) \<Rightarrow>
               (case pop_component_ref s2 seen1 of
                  None \<Rightarrow> 0
                | Some (ref2, t2, seen2) \<Rightarrow>
                    (case (component_field ref1, component_field ref2) of
                       (Some field1, Some field2) \<Rightarrow>
                         if seen2 \<and> \<not> operand_equal_p
                                         (operand_or_error (TYPE_SIZE (DECL_CONTEXT field1)))
                                         (operand_or_error (TYPE_SIZE (DECL_CONTEXT field2)))
                         then - 1
                         else
                           let cmp = nonoverlapping_component_refs_p_1 field1 field2
                           in if cmp = - 1 then - 1
                              else if cmp = 1 then 1
                              else match_components t1 t2 False
                     | _ \<Rightarrow> - 1))))"
  by pat_completeness auto
termination
  apply (relation "measure (\<lambda>(s1, s2, po). length s1 + length s2)")
   apply simp
  apply (auto simp: Let_def split: if_splits option.splits sum.splits dest!: pop_component_ref_length pop_extra_array_refs_length match_array_refs_length)
  done

declare match_components.simps [simp del]

text \<open>The operand 1 of a \<open>MEM_REF\<close> at the start of an access path.\<close>

definition nonoverlapping_refs_since_match_p ::
    "ref_tree option \<Rightarrow> ref_tree \<Rightarrow> ref_tree option \<Rightarrow> ref_tree \<Rightarrow> bool \<Rightarrow> int" where
  "nonoverlapping_refs_since_match_p match1 ref1 match2 ref2 partial_overlap =
     (if match1 = Some ref1 \<or> \<not> handled_component_p ref1
         \<or> match2 = Some ref2 \<or> \<not> handled_component_p ref2 then - 1
      else
        let (component_refs1, r1) = component_refs_stack match1 ref1 [];
            (component_refs2, r2) = component_refs_stack match2 ref2 [];
            mem_ref1 = (MEM_REF_P r1 \<and> Some r1 \<noteq> match1);
            mem_ref2 = (MEM_REF_P r2 \<and> Some r2 \<noteq> match2)
        in
        if (mem_ref1 \<and> \<not> mem_ref2 \<and> mem_ref_offset r1 \<noteq> 0)
           \<or> (mem_ref2 \<and> \<not> mem_ref1 \<and> mem_ref_offset r2 \<noteq> 0)
           \<or> (mem_ref1 \<and> mem_ref2 \<and> mem_ref_offset r1 \<noteq> mem_ref_offset r2)
        then - 1
        else match_components component_refs1 component_refs2 partial_overlap)"

subsection \<open>Fields of the same record type anywhere on the two paths\<close>

definition ncr_type_uid :: "field_decl \<Rightarrow> nat" where
  "ncr_type_uid field =
     (case TYPE_CANONICAL (DECL_CONTEXT field) of
        Some uid \<Rightarrow> uid
      | None \<Rightarrow> TYPE_UID (DECL_CONTEXT field))"

definition ncr_compar :: "field_decl \<Rightarrow> field_decl \<Rightarrow> int" where
  "ncr_compar field1 field2 =
     (if ncr_type_uid field1 < ncr_type_uid field2 then - 1
      else if ncr_type_uid field1 > ncr_type_uid field2 then 1
      else 0)"

text \<open>
  The fields of record types on an access path, in the order in which the source
  pushes them (outermost component first); a view conversion or bit-field reference
  empties the vector.
\<close>

fun record_fields :: "ref_tree \<Rightarrow> field_decl list \<Rightarrow> field_decl list" where
  "record_fields (COMPONENT_REF r f) fs =
     record_fields r (if TYPE_CODE (DECL_CONTEXT f) = RECORD_TYPE then fs @ [f] else fs)"
| "record_fields (ARRAY_REF r i lo sz t) fs = record_fields r fs"
| "record_fields (ARRAY_RANGE_REF r i lo sz t) fs = record_fields r fs"
| "record_fields (REALPART_EXPR r t) fs = record_fields r fs"
| "record_fields (IMAGPART_EXPR r t) fs = record_fields r fs"
| "record_fields (VIEW_CONVERT_EXPR r t) fs = record_fields r []"
| "record_fields (BIT_FIELD_REF r t) fs = record_fields r []"
| "record_fields r fs = fs"

text \<open>
  The sort of the two vectors: a swap for two elements, \<open>qsort\<close> otherwise, modelled by
  the stable sort on the key \<open>ncr_type_uid\<close>.
\<close>

definition ncr_sort :: "field_decl list \<Rightarrow> field_decl list" where
  "ncr_sort fs =
     (case fs of
        [a, b] \<Rightarrow> if ncr_compar a b = 1 then [b, a] else [a, b]
      | _ \<Rightarrow> sort_key ncr_type_uid fs)"

text \<open>The final loop \<open>do ... while (1)\<close> over the two sorted vectors.\<close>

fun ncr_merge :: "alias_env \<Rightarrow> field_decl list \<Rightarrow> field_decl list \<Rightarrow> bool" where
  "ncr_merge E (fieldx # xs) (fieldy # ys) =
     (if same_type_for_tbaa E (DECL_CONTEXT fieldx) (DECL_CONTEXT fieldy) = 1
         \<and> nonoverlapping_component_refs_p_1 fieldx fieldy = 1 then True
      else if ncr_type_uid fieldx < ncr_type_uid fieldy then ncr_merge E xs (fieldy # ys)
      else ncr_merge E (fieldx # xs) ys)"
| "ncr_merge E xs ys = False"

definition nonoverlapping_component_refs_p ::
    "alias_env \<Rightarrow> ref_tree option \<Rightarrow> ref_tree option \<Rightarrow> bool" where
  "nonoverlapping_component_refs_p E x y =
     (if \<not> flag_strict_aliasing E \<or> x = None \<or> y = None
         \<or> \<not> handled_component_p (the x) \<or> \<not> handled_component_p (the y) then False
      else
        let fieldsx = record_fields (the x) []
        in if fieldsx = [] then False
           else
             let fieldsy = record_fields (the y) []
             in if fieldsy = [] then False
                else if length fieldsx = 1 \<and> length fieldsy = 1 then
                  same_type_for_tbaa E (DECL_CONTEXT (hd fieldsx)) (DECL_CONTEXT (hd fieldsy)) = 1
                  \<and> nonoverlapping_component_refs_p_1 (hd fieldsx) (hd fieldsy) = 1
                else ncr_merge E (ncr_sort fieldsx) (ncr_sort fieldsy))"

subsection \<open>Access paths through pointers\<close>

definition aliasing_matching_component_refs_p ::
    "alias_env \<Rightarrow> ref_tree \<Rightarrow> ref_tree \<Rightarrow> int \<Rightarrow> int \<Rightarrow> ref_tree \<Rightarrow> ref_tree \<Rightarrow> int \<Rightarrow> int
      \<Rightarrow> bool \<Rightarrow> bool" where
  "aliasing_matching_component_refs_p E match1 ref1 offset1 max_size1
       match2 ref2 offset2 max_size2 partial_overlap =
     (if \<not> partial_overlap
         \<and> \<not> ranges_maybe_overlap_p (offset1 - get_ref_base_and_extent_offset E match1) max_size1
               (offset2 - get_ref_base_and_extent_offset E match2) max_size2
      then False
      else
        let cmp = nonoverlapping_refs_since_match_p (Some match1) ref1 (Some match2) ref2
                    partial_overlap
        in if cmp = 1 \<or> (cmp = - 1 \<and> nonoverlapping_component_refs_p E (Some ref1) (Some ref2))
           then False
           else True)"

text \<open>
  The loop of \<open>aliasing_component_refs_walk\<close>: the tree \<open>ref\<close> it stops at, \<open>same_p\<close> and
  \<open>maybe_match\<close>.
\<close>

function walk_access_path ::
    "alias_env \<Rightarrow> type_node \<Rightarrow> ref_tree option \<Rightarrow> ref_tree \<Rightarrow> int \<Rightarrow> bool
      \<Rightarrow> ref_tree \<times> int \<times> bool" where
  "walk_access_path E type1 end_struct_ref1 r same_p maybe_match =
     (let cmp = compare_type_sizes type1 (TREE_TYPE r)
      in if cmp < 0
            \<and> (end_struct_ref1 = None
                \<or> compare_type_sizes (TREE_TYPE (the end_struct_ref1)) (TREE_TYPE r) < 0)
         then (r, same_p, maybe_match)
         else
           let same_p' = (if cmp = 0 then same_type_for_tbaa E (TREE_TYPE r) type1 else same_p);
               maybe_match' = (maybe_match \<or> (cmp = 0 \<and> same_p' = - 1))
           in if cmp = 0 \<and> same_p' = 1 then (r, same_p', maybe_match')
              else if \<not> handled_component_p r then (r, same_p', maybe_match')
              else walk_access_path E type1 end_struct_ref1 (TREE_OPERAND0 r) same_p' maybe_match')"
  by pat_completeness auto
termination
  by (relation "measure (\<lambda>(E, type1, e, r, s, m). size r)")
     (auto elim: handled_component_p.elims)

declare walk_access_path.simps [simp del]

definition aliasing_component_refs_walk ::
    "alias_env \<Rightarrow> ref_tree \<Rightarrow> type_node \<Rightarrow> ref_tree \<Rightarrow> int \<Rightarrow> int \<Rightarrow> ref_tree option
      \<Rightarrow> ref_tree \<Rightarrow> ref_tree \<Rightarrow> int \<Rightarrow> int \<Rightarrow> bool \<Rightarrow> int \<times> bool" where
  "aliasing_component_refs_walk E ref1 type1 base1 offset1 max_size1 end_struct_ref1
       ref2 base2 offset2 max_size2 maybe_match =
     (let (r, same_p, maybe_match') =
            walk_access_path E type1 end_struct_ref1 ref2 0 maybe_match
      in if same_p = 1 then
           (let partial_overlap =
                  (TYPE_CODE (TREE_TYPE base1) = ARRAY_TYPE
                   \<and> (TYPE_SIZE (TREE_TYPE base1) = None
                       \<or> \<not> INTEGER_CST_P (the (TYPE_SIZE (TREE_TYPE base1)))
                       \<or> r = base2))
            in ((if aliasing_matching_component_refs_p E base1 ref1 offset1 max_size1
                       r ref2 offset2 max_size2 partial_overlap then 1 else 0),
                maybe_match' \<or> partial_overlap))
         else (- 1, maybe_match'))"

text \<open>
  The two loops at the start of \<open>aliasing_component_refs_p\<close> that choose the base: the
  base, the new value of \<open>ref\<close> and \<open>end_struct_ref\<close>.
\<close>

function choose_base ::
    "alias_env \<Rightarrow> ref_tree \<Rightarrow> ref_tree \<Rightarrow> ref_tree option
      \<Rightarrow> ref_tree \<times> ref_tree \<times> ref_tree option" where
  "choose_base E base1 ref1 end_struct_ref1 =
     (if handled_component_p base1 then
        choose_base E (TREE_OPERAND0 base1)
          (if view_or_bit_field_p base1 then TREE_OPERAND0 base1 else ref1)
          (if component_ref_to_zero_sized_trailing_array_p E base1 then Some base1
           else end_struct_ref1)
      else (base1, ref1, end_struct_ref1))"
  by pat_completeness auto
termination
  by (relation "measure (\<lambda>(E, b, r, e). size b)") (auto elim: handled_component_p.elims)

declare choose_base.simps [simp del]

definition aliasing_component_refs_p ::
    "alias_env \<Rightarrow> ref_tree \<Rightarrow> int \<Rightarrow> int \<Rightarrow> int \<Rightarrow> int
      \<Rightarrow> ref_tree \<Rightarrow> int \<Rightarrow> int \<Rightarrow> int \<Rightarrow> int \<Rightarrow> bool" where
  "aliasing_component_refs_p E ref1_in ref1_alias_set base1_alias_set offset1 max_size1
       ref2_in ref2_alias_set base2_alias_set offset2 max_size2 =
     (let (base1, ref1, end_struct_ref1) = choose_base E ref1_in ref1_in None;
          type1 = TREE_TYPE base1;
          (base2, ref2, end_struct_ref2) = choose_base E ref2_in ref2_in None;
          type2 = TREE_TYPE base2;
          cmp_outer = compare_type_sizes type2 type1;
          (res1, maybe_match1) =
            (if cmp_outer \<ge> 0
                \<or> (end_struct_ref2 \<noteq> None
                    \<and> compare_type_sizes (TREE_TYPE (the end_struct_ref2)) type1 \<ge> 0)
             then aliasing_component_refs_walk E ref1 type1 base1 offset1 max_size1
                    end_struct_ref1 ref2 base2 offset2 max_size2 False
             else (- 1, False))
      in
      if res1 \<noteq> - 1 then res1 \<noteq> 0
      else
        let (res2, maybe_match) =
              (if cmp_outer \<le> 0
                  \<or> (end_struct_ref1 \<noteq> None
                      \<and> compare_type_sizes (TREE_TYPE (the end_struct_ref1)) type1 \<le> 0)
               then aliasing_component_refs_walk E ref2 type2 base2 offset2 max_size2
                      end_struct_ref2 ref1 base1 offset1 max_size1 maybe_match1
               else (- 1, maybe_match1))
        in
        if res2 \<noteq> - 1 then res2 \<noteq> 0
        else if maybe_match then \<not> nonoverlapping_component_refs_p E (Some ref1) (Some ref2)
        else if compare_type_sizes (TREE_TYPE ref2) type1 \<ge> 0
                \<and> (end_struct_ref1 = None
                    \<or> compare_type_sizes (TREE_TYPE ref2) (TREE_TYPE (the end_struct_ref1)) \<ge> 0)
                \<and> type_has_components_p (TREE_TYPE ref2)
                \<and> (base1_alias_set = ref2_alias_set
                    \<or> alias_set_subset_of E base1_alias_set ref2_alias_set)
        then True
        else if compare_type_sizes (TREE_TYPE ref1) type2 \<ge> 0
                \<and> (end_struct_ref2 = None
                    \<or> compare_type_sizes (TREE_TYPE ref1) (TREE_TYPE (the end_struct_ref2)) \<ge> 0)
                \<and> type_has_components_p (TREE_TYPE ref1)
                \<and> (base2_alias_set = ref1_alias_set
                    \<or> alias_set_subset_of E base2_alias_set ref1_alias_set)
        then True
        else False)"

subsection \<open>The three disambiguators and the query\<close>

text \<open>The loop \<open>while (handled_component_p (t)) t = TREE_OPERAND (t, 0)\<close>.\<close>

function strip_handled_components :: "ref_tree \<Rightarrow> ref_tree" where
  "strip_handled_components r =
     (if handled_component_p r then strip_handled_components (TREE_OPERAND0 r) else r)"
  by pat_completeness auto
termination
  by (relation "measure size") (auto elim: handled_component_p.elims)

declare strip_handled_components.simps [simp del]

definition decl_refs_may_alias_p ::
    "alias_env \<Rightarrow> ref_tree option \<Rightarrow> ref_tree \<Rightarrow> int \<Rightarrow> int \<Rightarrow> int
      \<Rightarrow> ref_tree option \<Rightarrow> ref_tree \<Rightarrow> int \<Rightarrow> int \<Rightarrow> int \<Rightarrow> bool" where
  "decl_refs_may_alias_p E ref1 base1 offset1 max_size1 size1 ref2 base2 offset2 max_size2 size2 =
     (if compare_base_decls E base1 base2 = 0 then False
      else if \<not> ranges_maybe_overlap_p offset1 max_size1 offset2 max_size2 then False
      else if size1 = max_size1 \<and> size2 = max_size2 then True
      else if ref1 \<noteq> None \<and> ref2 \<noteq> None
              \<and> handled_component_p (the ref1) \<and> handled_component_p (the ref2)
              \<and> nonoverlapping_refs_since_match_p None (the ref1) None (the ref2) False = 1
      then False
      else True)"

text \<open>\<open>TREE_CODE (base) != TARGET_MEM_REF || (!TMR_INDEX (base) && !TMR_INDEX2 (base))\<close>.\<close>

definition no_tmr_index :: "ref_tree \<Rightarrow> bool" where
  "no_tmr_index b \<longleftrightarrow> \<not> TARGET_MEM_REF_P b \<or> (TMR_INDEX b = None \<and> TMR_INDEX2 b = None)"

definition indirect_ref_may_alias_decl_p ::
    "alias_env \<Rightarrow> ref_tree option \<Rightarrow> ref_tree \<Rightarrow> int \<Rightarrow> int \<Rightarrow> int \<Rightarrow> int \<Rightarrow> int
      \<Rightarrow> ref_tree option \<Rightarrow> ref_tree \<Rightarrow> int \<Rightarrow> int \<Rightarrow> int \<Rightarrow> int \<Rightarrow> int \<Rightarrow> bool \<Rightarrow> bool" where
  "indirect_ref_may_alias_decl_p E ref1 base1 offset1 max_size1 size1 ref1_alias_set
       base1_alias_set ref2 base2 offset2 max_size2 size2 ref2_alias_set base2_alias_set tbaa_p =
     (let ptr1 = mem_ptr base1;
          moff = mem_ref_offset base1 * 8
      in
      if \<not> TARGET_MEM_REF_P base1
         \<and> \<not> ranges_maybe_overlap_p (offset1 + moff) (- 1) offset2 max_size2 then False
      else if \<not> ptr_deref_may_alias_decl_p E ptr1 base2 then False
      else if \<not> flag_strict_aliasing E \<or> \<not> tbaa_p then True
      else if base1_alias_set = 0 \<or> base2_alias_set = 0 then True
      else if base1_alias_set \<noteq> base2_alias_set
              \<and> \<not> alias_sets_conflict_p E base1_alias_set base2_alias_set then False
      else
        let ptrtype1 = mem_ptrtype base1
        in
        if TYPE_CODE (pointee ptrtype1) \<noteq> UNION_TYPE
           \<and> TYPE_CODE (pointee ptrtype1) \<noteq> QUAL_UNION_TYPE
           \<and> compare_sizes (DECL_SIZE base2) (TYPE_SIZE (pointee ptrtype1)) < 0 then False
        else if ref2 = None then True
        else
          let dbase2 = strip_handled_components (the ref2);
              doffset1 = offset1;
              dmem = (MEM_REF_P dbase2 \<or> TARGET_MEM_REF_P dbase2);
              doffset2 = (if dmem then offset2 - mem_ref_offset dbase2 * 8 else offset2)
          in
          if dmem \<and> same_type_for_tbaa E (TREE_TYPE dbase2) (pointee (mem_ptrtype dbase2)) \<noteq> 1
          then True
          else if same_type_for_tbaa E (TREE_TYPE base1) (pointee ptrtype1) \<noteq> 1 then True
          else if no_tmr_index base1 \<and> no_tmr_index dbase2
                  \<and> same_type_for_tbaa E (TREE_TYPE base1) (TREE_TYPE dbase2) = 1 then
            (let partial_overlap =
                   (TYPE_CODE (TREE_TYPE base1) = ARRAY_TYPE
                    \<and> TYPE_SIZE (TREE_TYPE base1) \<noteq> None
                    \<and> \<not> INTEGER_CST_P (the (TYPE_SIZE (TREE_TYPE base1))))
             in
             if \<not> partial_overlap
                \<and> \<not> ranges_maybe_overlap_p doffset1 max_size1 doffset2 max_size2 then False
             else if ref1 = None \<or> ref2 = None
                     \<or> (\<not> partial_overlap \<and> size1 = max_size1 \<and> size2 = max_size2) then True
             else
               let res = nonoverlapping_refs_since_match_p (Some base1) (the ref1)
                           (Some base2) (the ref2) partial_overlap
               in if res = - 1 then \<not> nonoverlapping_component_refs_p E ref1 ref2
                  else res = 0)
          else if ref1 \<noteq> None \<and> ref2 \<noteq> None
                  \<and> (handled_component_p (the ref1) \<or> handled_component_p (the ref2)) then
            aliasing_component_refs_p E (the ref1) ref1_alias_set base1_alias_set offset1 max_size1
              (the ref2) ref2_alias_set base2_alias_set offset2 max_size2
          else True)"

text \<open>
  The comparison \<open>a == b || (a && b && operand_equal_p (a, b, 0))\<close> of two operands that
  may be absent.
\<close>

definition same_operand :: "tree option \<Rightarrow> tree option \<Rightarrow> bool" where
  "same_operand a b \<longleftrightarrow>
     a = b \<or> (a \<noteq> None \<and> b \<noteq> None \<and> operand_equal_p (the a) (the b))"

definition indirect_refs_may_alias_p ::
    "alias_env \<Rightarrow> ref_tree option \<Rightarrow> ref_tree \<Rightarrow> int \<Rightarrow> int \<Rightarrow> int \<Rightarrow> int \<Rightarrow> int
      \<Rightarrow> ref_tree option \<Rightarrow> ref_tree \<Rightarrow> int \<Rightarrow> int \<Rightarrow> int \<Rightarrow> int \<Rightarrow> int \<Rightarrow> bool \<Rightarrow> bool" where
  "indirect_refs_may_alias_p E ref1 base1 offset1 max_size1 size1 ref1_alias_set
       base1_alias_set ref2 base2 offset2 max_size2 size2 ref2_alias_set base2_alias_set tbaa_p =
     (let ptr1 = mem_ptr base1;
          ptr2 = mem_ptr base2;
          same_object =
            (in_ssa E \<and> operand_equal_p ptr1 ptr2
             \<and> ((no_tmr_index base1 \<and> no_tmr_index base2)
                 \<or> (TARGET_MEM_REF_P base1 \<and> TARGET_MEM_REF_P base2
                     \<and> same_operand (TMR_STEP base1) (TMR_STEP base2)
                     \<and> same_operand (TMR_INDEX base1) (TMR_INDEX base2)
                     \<and> same_operand (TMR_INDEX2 base1) (TMR_INDEX2 base2))));
          early =
            (if same_object then
               (if \<not> ranges_maybe_overlap_p (offset1 + mem_ref_offset base1 * 8) max_size1
                       (offset2 + mem_ref_offset base2 * 8) max_size2 then Some False
                else if size1 = max_size1 \<and> size2 = max_size2 then Some True
                else if ref1 \<noteq> None \<and> ref2 \<noteq> None then
                  (let res = nonoverlapping_refs_since_match_p None (the ref1) None (the ref2) False
                   in if res \<noteq> - 1 then Some (res = 0) else None)
                else None)
             else None)
      in
      case early of
        Some b \<Rightarrow> b
      | None \<Rightarrow>
          if \<not> ptr_derefs_may_alias_p E ptr1 ptr2 then False
          else if \<not> flag_strict_aliasing E \<or> \<not> tbaa_p then True
          else
            let ptrtype1 = mem_ptrtype base1;
                ptrtype2 = mem_ptrtype base2
            in
            if base1_alias_set = 0 \<or> base2_alias_set = 0 then True
            else if base1_alias_set \<noteq> base2_alias_set
                    \<and> \<not> alias_sets_conflict_p E base1_alias_set base2_alias_set then False
            else if same_type_for_tbaa E (TREE_TYPE base1) (pointee ptrtype1) \<noteq> 1
                    \<or> same_type_for_tbaa E (TREE_TYPE base2) (pointee ptrtype2) \<noteq> 1 then True
            else if no_tmr_index base1 \<and> no_tmr_index base2
                    \<and> same_type_for_tbaa E (pointee ptrtype1) (pointee ptrtype2) = 1 then
              (let partial_overlap = (TYPE_CODE (pointee ptrtype1) = ARRAY_TYPE)
               in
               if \<not> partial_overlap
                  \<and> \<not> ranges_maybe_overlap_p offset1 max_size1 offset2 max_size2 then False
               else if ref1 = None \<or> ref2 = None
                       \<or> (\<not> partial_overlap \<and> size1 = max_size1 \<and> size2 = max_size2) then True
               else
                 let res = nonoverlapping_refs_since_match_p (Some base1) (the ref1)
                             (Some base2) (the ref2) partial_overlap
                 in if res = - 1 then \<not> nonoverlapping_component_refs_p E ref1 ref2
                    else res = 0)
            else if ref1 \<noteq> None \<and> ref2 \<noteq> None
                    \<and> (handled_component_p (the ref1) \<or> handled_component_p (the ref2)) then
              aliasing_component_refs_p E (the ref1) ref1_alias_set base1_alias_set offset1
                max_size1 (the ref2) ref2_alias_set base2_alias_set offset2 max_size2
            else True)"

text \<open>
  \<open>refs_may_alias_p_2\<close>.  A base is ``degenerate'' when it is an SSA name, a
  \<open>CONST_DECL\<close>, a \<open>CONSTRUCTOR\<close>, an \<open>ADDR_EXPR\<close> or a constant; it is ``code'' when it is a
  \<open>FUNCTION_DECL\<close> or a \<open>LABEL_DECL\<close>.  Where the source ends in \<open>gcc_unreachable\<close> the model
  answers \<open>True\<close>.
\<close>

definition degenerate_base_p :: "ref_tree \<Rightarrow> bool" where
  "degenerate_base_p b \<longleftrightarrow>
     SSA_NAME_CODE_P b \<or> decl_code_p CONST_DECL b \<or> CONSTRUCTOR_P b \<or> ADDR_EXPR_P b
     \<or> CONSTANT_CLASS_P b"

definition code_base_p :: "ref_tree \<Rightarrow> bool" where
  "code_base_p b \<longleftrightarrow> decl_code_p FUNCTION_DECL b \<or> decl_code_p LABEL_DECL b"

definition indirect_base_p :: "ref_tree \<Rightarrow> bool" where
  "indirect_base_p b \<longleftrightarrow> MEM_REF_P b \<or> TARGET_MEM_REF_P b"

definition points_to_readonly :: "alias_env \<Rightarrow> ref_tree \<Rightarrow> bool" where
  "points_to_readonly E b \<longleftrightarrow>
     SSA_NAME_P (mem_ptr b) \<and> SSA_NAME_POINTS_TO_READONLY_MEMORY E (mem_ptr b)"

definition refs_may_alias_p_2 :: "alias_env \<Rightarrow> ao_ref \<Rightarrow> ao_ref \<Rightarrow> bool \<Rightarrow> bool" where
  "refs_may_alias_p_2 E r1 r2 tbaa_p =
     (let base1 = ao_base r1;
          base2 = ao_base r2
      in
      if degenerate_base_p base1 \<or> degenerate_base_p base2 then False
      else if code_base_p base1 \<or> code_base_p base2 then True
      else if ao_volatile_p r1 \<and> ao_volatile_p r2 then True
      else
        let var1_p = DECL_P base1;
            var2_p = DECL_P base2
        in
        if var1_p \<and> var2_p then
          decl_refs_may_alias_p E (ao_ref r1) base1 (ao_offset r1) (ao_max_size r1) (ao_size r1)
            (ao_ref r2) base2 (ao_offset r2) (ao_max_size r2) (ao_size r2)
        else
          let rbase1 = (if var1_p then map_option strip_handled_components (ao_ref r1)
                        else Some base1);
              rbase2 = (if var2_p then map_option strip_handled_components (ao_ref r2)
                        else Some base2)
          in
          if rbase1 \<noteq> None \<and> rbase2 \<noteq> None
             \<and> indirect_base_p base1 \<and> indirect_base_p base2
             \<and> MR_DEPENDENCE_CLIQUE base1 = MR_DEPENDENCE_CLIQUE base2
             \<and> MR_DEPENDENCE_BASE base1 \<noteq> MR_DEPENDENCE_BASE base2 then False
          else
            let swap = (indirect_base_p base1 \<and> var2_p);
                s1 = (if swap then r2 else r1);
                s2 = (if swap then r1 else r2);
                var1_p' = (if swap then True else var1_p);
                ind1_p = (if swap then False else indirect_base_p base1);
                ind2_p = (if swap then True else indirect_base_p base2)
            in
            if tbaa_p \<and> flag_strict_aliasing E
               \<and> \<not> alias_sets_conflict_p E (ao_ref_alias_set s1) (ao_ref_alias_set s2) then False
            else if points_to_readonly E (ao_base s2)
                    \<or> (ind1_p \<and> points_to_readonly E (ao_base s1)) then False
            else if var1_p' \<and> ind2_p then
              indirect_ref_may_alias_decl_p E (ao_ref s2) (ao_base s2) (ao_offset s2)
                (ao_max_size s2) (ao_size s2) (ao_ref_alias_set s2) (ao_base_alias_set s2)
                (ao_ref s1) (ao_base s1) (ao_offset s1) (ao_max_size s1) (ao_size s1)
                (ao_ref_alias_set s1) (ao_base_alias_set s1) tbaa_p
            else if ind1_p \<and> ind2_p then
              indirect_refs_may_alias_p E (ao_ref s1) (ao_base s1) (ao_offset s1)
                (ao_max_size s1) (ao_size s1) (ao_ref_alias_set s1) (ao_base_alias_set s1)
                (ao_ref s2) (ao_base s2) (ao_offset s2) (ao_max_size s2) (ao_size s2)
                (ao_ref_alias_set s2) (ao_base_alias_set s2) tbaa_p
            else True)"

subsection \<open>Example types and references\<close>

text \<open>
  The types \<open>int\<close> and \<open>int *\<close>; \<open>struct S { int arr[0]; }\<close>, of size zero, with its
  zero-sized trailing array, and \<open>struct S *\<close>; \<open>struct A { int x; int y; }\<close>,
  \<open>struct B { struct A a; int k; }\<close> and \<open>struct B *\<close>.
\<close>

definition int_type :: type_node where
  "int_type = TYPE_NODE 1 INTEGER_TYPE (Some (INTEGER_CST 32 False)) (Some (INTEGER_CST 4 False))
     32 (Some 1) None None"

definition int_ptr_type :: type_node where
  "int_ptr_type = TYPE_NODE 2 POINTER_TYPE (Some (INTEGER_CST 64 False))
     (Some (INTEGER_CST 8 False)) 64 (Some 2) None (Some int_type)"

definition arr0_type :: type_node where
  "arr0_type = TYPE_NODE 3 ARRAY_TYPE (Some (INTEGER_CST 0 False)) (Some (INTEGER_CST 0 False))
     32 (Some 3) (Some (INTEGER_CST 0 False)) (Some int_type)"

definition S_type :: type_node where
  "S_type = TYPE_NODE 4 RECORD_TYPE (Some (INTEGER_CST 0 False)) (Some (INTEGER_CST 0 False))
     32 (Some 4) None None"

definition S_ptr_type :: type_node where
  "S_ptr_type = TYPE_NODE 5 POINTER_TYPE (Some (INTEGER_CST 64 False))
     (Some (INTEGER_CST 8 False)) 64 (Some 5) None (Some S_type)"

definition A_type :: type_node where
  "A_type = TYPE_NODE 6 RECORD_TYPE (Some (INTEGER_CST 64 False)) (Some (INTEGER_CST 8 False))
     32 (Some 6) None None"

definition B_type :: type_node where
  "B_type = TYPE_NODE 7 RECORD_TYPE (Some (INTEGER_CST 96 False)) (Some (INTEGER_CST 12 False))
     32 (Some 7) None None"

definition B_ptr_type :: type_node where
  "B_ptr_type = TYPE_NODE 8 POINTER_TYPE (Some (INTEGER_CST 64 False))
     (Some (INTEGER_CST 8 False)) 64 (Some 8) None (Some B_type)"

definition field_arr :: field_decl where
  "field_arr = FIELD_DECL 10 S_type arr0_type False None (INTEGER_CST 0 False)
     (INTEGER_CST 0 False) (Some (INTEGER_CST 0 False))"

definition field_x :: field_decl where
  "field_x = FIELD_DECL 11 A_type int_type False None (INTEGER_CST 0 False)
     (INTEGER_CST 0 False) (Some (INTEGER_CST 32 False))"

definition field_y :: field_decl where
  "field_y = FIELD_DECL 12 A_type int_type False None (INTEGER_CST 0 False)
     (INTEGER_CST 32 False) (Some (INTEGER_CST 32 False))"

definition field_a :: field_decl where
  "field_a = FIELD_DECL 13 B_type A_type False None (INTEGER_CST 0 False)
     (INTEGER_CST 0 False) (Some (INTEGER_CST 64 False))"

text \<open>
  An environment with strict aliasing, in SSA form, in which the points-to queries
  cannot tell anything.  The alias sets are 1 for scalars and the uid of the type for
  records; the set of a scalar is a subset of the set of every record.
\<close>

definition example_env :: alias_env where
  "example_env =
     \<lparr>flag_strict_aliasing = True, in_ssa = True,
      TYPE_MAIN_VARIANT = (\<lambda>t. t),
      get_alias_set = (\<lambda>t. if TYPE_CODE t = RECORD_TYPE then int (TYPE_UID t) else 1),
      alias_sets_conflict_p = (\<lambda>s1 s2. s1 = 0 \<or> s2 = 0 \<or> s1 = s2 \<or> s1 = 1 \<or> s2 = 1),
      alias_set_subset_of = (\<lambda>s1 s2. s2 = 0 \<or> s1 = s2 \<or> s1 = 1),
      compare_base_decls = (\<lambda>d1 d2. if d1 = d2 then 1 else 0),
      ptr_deref_may_alias_decl_p = (\<lambda>p d. True),
      ptr_derefs_may_alias_p = (\<lambda>p q. True),
      SSA_NAME_POINTS_TO_READONLY_MEMORY = (\<lambda>p. False),
      array_at_struct_end_p = (\<lambda>r. True),
      get_ref_base_and_extent_offset = (\<lambda>r. 0)\<rparr>"

text \<open>
  With \<open>struct S *p\<close> and \<open>int *q\<close>: the references \<open>p->arr[0]\<close> and \<open>*q\<close>, each an access
  of 32 bits at offset 0 of its base.
\<close>

definition deref_p :: ref_tree where
  "deref_p = MEM_REF (SSA_NAME 1) 0 S_ptr_type S_type 0 0"

definition deref_q :: ref_tree where
  "deref_q = MEM_REF (SSA_NAME 2) 0 int_ptr_type int_type 0 0"

definition ref_p_arr_0 :: ao_ref where
  "ref_p_arr_0 =
     \<lparr>ao_ref = Some (ARRAY_REF (COMPONENT_REF deref_p field_arr) (INTEGER_CST 0 False) None None
                       int_type),
      ao_base = deref_p, ao_offset = 0, ao_size = 32, ao_max_size = 32,
      ao_ref_alias_set = 1, ao_base_alias_set = 4, ao_volatile_p = False\<rparr>"

definition ref_deref_q :: ao_ref where
  "ref_deref_q =
     \<lparr>ao_ref = Some deref_q, ao_base = deref_q, ao_offset = 0, ao_size = 32, ao_max_size = 32,
      ao_ref_alias_set = 1, ao_base_alias_set = 1, ao_volatile_p = False\<rparr>"

text \<open>With \<open>struct B *r\<close>: the references \<open>r->a.x\<close> and \<open>r->a.y\<close>.\<close>

definition deref_r :: ref_tree where
  "deref_r = MEM_REF (SSA_NAME 3) 0 B_ptr_type B_type 0 0"

definition ref_r_a_x :: ao_ref where
  "ref_r_a_x =
     \<lparr>ao_ref = Some (COMPONENT_REF (COMPONENT_REF deref_r field_a) field_x),
      ao_base = deref_r, ao_offset = 0, ao_size = 32, ao_max_size = 32,
      ao_ref_alias_set = 1, ao_base_alias_set = 7, ao_volatile_p = False\<rparr>"

definition ref_r_a_y :: ao_ref where
  "ref_r_a_y =
     \<lparr>ao_ref = Some (COMPONENT_REF (COMPONENT_REF deref_r field_a) field_y),
      ao_base = deref_r, ao_offset = 32, ao_size = 32, ao_max_size = 32,
      ao_ref_alias_set = 1, ao_base_alias_set = 7, ao_volatile_p = False\<rparr>"

text \<open>A register and a variable as bases.\<close>

definition ref_register :: ao_ref where
  "ref_register =
     \<lparr>ao_ref = Some (EXPR (SSA_NAME 7) int_type), ao_base = EXPR (SSA_NAME 7) int_type,
      ao_offset = 0, ao_size = 32, ao_max_size = 32,
      ao_ref_alias_set = 1, ao_base_alias_set = 1, ao_volatile_p = False\<rparr>"

definition ref_variable :: ao_ref where
  "ref_variable =
     \<lparr>ao_ref = Some (DECL VAR_DECL 20 int_type (Some (INTEGER_CST 32 False))),
      ao_base = DECL VAR_DECL 20 int_type (Some (INTEGER_CST 32 False)),
      ao_offset = 0, ao_size = 32, ao_max_size = 32,
      ao_ref_alias_set = 1, ao_base_alias_set = 1, ao_volatile_p = False\<rparr>"

definition ref_function :: ao_ref where
  "ref_function =
     \<lparr>ao_ref = Some (DECL FUNCTION_DECL 21 int_type None),
      ao_base = DECL FUNCTION_DECL 21 int_type None,
      ao_offset = 0, ao_size = - 1, ao_max_size = - 1,
      ao_ref_alias_set = 0, ao_base_alias_set = 0, ao_volatile_p = False\<rparr>"

section \<open>Properties of the virtual-SSA walkers\<close>

subsection \<open>32-bit counters\<close>





subsection \<open>walk_aliased_vdefs with a zero limit\<close>







section \<open>Properties of value ranges\<close>

subsection \<open>Canonical form\<close>

lemma wi_min_le_max: "wi_min_value ty \<le> wi_max_value ty"
proof -
  have "(1::int) \<le> 2 ^ n" for n by simp
  then have "(1::int) \<le> 2 ^ TYPE_PRECISION ty" "(1::int) \<le> 2 ^ (TYPE_PRECISION ty - 1)" by blast+
  then show ?thesis unfolding wi_min_value_def wi_max_value_def by (simp split: if_splits)
qed








subsection \<open>Pointer addition\<close>









subsection \<open>Anti-range operands of addition and subtraction\<close>






lemma ranges_from_anti_range_symbolic:
  "\<not> INTEGER_CST_P (the (m_min ar)) \<or> \<not> INTEGER_CST_P (the (m_max ar))
     \<Longrightarrow> \<not> fst (ranges_from_anti_range ty ar hp)"
  by (auto simp: ranges_from_anti_range_def)




section \<open>Soundness of meet and join\<close>

subsection \<open>Constant bounds\<close>

lemma wi_from_id:
  assumes "0 < TYPE_PRECISION ty" "wi_min_value ty \<le> x" "x \<le> wi_max_value ty"
  shows "wi_from ty x = x"
proof -
  from assms(1) obtain k where k: "TYPE_PRECISION ty = Suc k" by (cases "TYPE_PRECISION ty") auto
  show ?thesis
  proof (cases "TYPE_UNSIGNED ty")
    case True
    with assms show ?thesis by (simp add: wi_from_def wi_min_value_def wi_max_value_def)
  next
    case False
    with assms k have "0 \<le> x + 2 ^ k" "x + 2 ^ k < 2 * 2 ^ k"
      by (simp_all add: wi_min_value_def wi_max_value_def)
    then have "(x + 2 ^ k) mod (2 * 2 ^ k) = x + 2 ^ k" by simp
    with False k show ?thesis by (simp add: wi_from_def)
  qed
qed

lemma compare_values_cst [simp]:
  "compare_values ty F (INTEGER_CST a False) (INTEGER_CST b False) = wi_cmp a b"
  by (simp add: compare_values_def get_single_symbol_def Let_def tree_int_cst_compare_def wi_cmp_def)

lemma operand_less_p_cst [simp]:
  "operand_less_p ty F (INTEGER_CST a oa) (INTEGER_CST b ob) = (if a < b then 1 else 0)"
  by (simp add: operand_less_p_def tree_int_cst_lt_def)

lemma vrp_operand_equal_p_cst [simp]:
  "vrp_operand_equal_p (Some (INTEGER_CST a oa)) (Some (INTEGER_CST b ob)) = (a = b)"
  by (auto simp: vrp_operand_equal_p_def)

lemma vrp_val_is_min_cst [simp]:
  "INTEGRAL_TYPE_P ty \<Longrightarrow> vrp_val_is_min ty (INTEGER_CST a oa) False = (a = wi_min_value ty)"
  by (auto simp: vrp_val_is_min_def vrp_val_min_def TYPE_MIN_VALUE_def)

lemma vrp_val_is_max_cst [simp]:
  "INTEGRAL_TYPE_P ty \<Longrightarrow> vrp_val_is_max ty (INTEGER_CST a oa) False = (a = wi_max_value ty)"
  by (auto simp: vrp_val_is_max_def vrp_val_max_def TYPE_MAX_VALUE_def)

lemma wi_min_le_0: "wi_min_value ty \<le> 0"
  by (simp add: wi_min_value_def)

lemma build_one [simp]: "one_ok ty \<Longrightarrow> build_int_cst ty 1 = INTEGER_CST 1 False"
  using wi_from_id[of ty 1] wi_min_le_0[of ty] by (simp add: build_int_cst_def one_ok_def)

lemma binop_plus [simp]:
  "0 < TYPE_PRECISION ty \<Longrightarrow> wi_min_value ty \<le> a + b \<Longrightarrow> a + b \<le> wi_max_value ty \<Longrightarrow>
   int_const_binop ty PLUS_EXPR (INTEGER_CST a False) (INTEGER_CST b False) = INTEGER_CST (a + b) False"
  by (simp add: wi_from_id wi_overflow_def)

lemma binop_minus [simp]:
  "0 < TYPE_PRECISION ty \<Longrightarrow> wi_min_value ty \<le> a - b \<Longrightarrow> a - b \<le> wi_max_value ty \<Longrightarrow>
   int_const_binop ty MINUS_EXPR (INTEGER_CST a False) (INTEGER_CST b False) = INTEGER_CST (a - b) False"
  by (simp add: wi_from_id wi_overflow_def)

declare int_const_binop.simps [simp del]

lemma interval_cases [case_names eq left right inner outer ovl ovr]:
  fixes a0 b0 a1 b1 :: int
  assumes "a0 \<le> b0" "a1 \<le> b1"
  obtains (eq) "a0 = a1" "b0 = b1"
    | (left) "b0 < a1"
    | (right) "b1 < a0"
    | (inner) "a0 \<le> a1" "b1 \<le> b0" "a0 < a1 \<or> b1 < b0"
    | (outer) "a1 \<le> a0" "b0 \<le> b1" "a1 < a0 \<or> b0 < b1"
    | (ovl) "a0 < a1" "b0 < b1" "a1 \<le> b0"
    | (ovr) "a1 < a0" "b1 < b0" "a0 \<le> b1"
  using assms by linarith


lemma one_ok_not_one_bit_signed [simp]:
  "one_ok ty \<Longrightarrow> TYPE_PRECISION ty = Suc 0 \<Longrightarrow> TYPE_UNSIGNED ty"
  by (auto simp: one_ok_def wi_max_value_def split: if_splits)

lemma wi_range_width: "0 < TYPE_PRECISION ty \<Longrightarrow> wi_max_value ty - wi_min_value ty = 2 ^ TYPE_PRECISION ty - 1"
proof -
  assume "0 < TYPE_PRECISION ty"
  then obtain k where k: "TYPE_PRECISION ty = Suc k" by (cases "TYPE_PRECISION ty") auto
  then show ?thesis by (simp add: wi_max_value_def wi_min_value_def)
qed

lemma wi_from_mod: "(wi_from ty x - x) mod 2 ^ TYPE_PRECISION ty = 0"
proof (cases "TYPE_UNSIGNED ty")
  case True
  then show ?thesis by (simp add: wi_from_def mod_diff_left_eq)
next
  case False
  have "((x + 2 ^ (TYPE_PRECISION ty - 1)) mod 2 ^ TYPE_PRECISION ty - 2 ^ (TYPE_PRECISION ty - 1) - x)
          mod 2 ^ TYPE_PRECISION ty
        = ((x + 2 ^ (TYPE_PRECISION ty - 1)) mod 2 ^ TYPE_PRECISION ty - (x + 2 ^ (TYPE_PRECISION ty - 1)))
          mod 2 ^ TYPE_PRECISION ty" by (simp add: algebra_simps)
  also have "\<dots> = 0" by (simp add: mod_diff_left_eq)
  finally show ?thesis using False by (simp add: wi_from_def)
qed

lemma adjacent_onep [simp]:
  assumes "one_ok ty" "wi_min_value ty \<le> b" "b < a" "a \<le> wi_max_value ty"
  shows "integer_onep (int_const_binop ty MINUS_EXPR (INTEGER_CST a oa) (INTEGER_CST b ob)) = (a = b + 1)"
proof -
  from assms have p: "0 < TYPE_PRECISION ty" "1 \<le> wi_max_value ty" by (simp_all add: one_ok_def)
  have w1: "wi_from ty 1 = 1" using p wi_min_le_0[of ty] by (simp add: wi_from_id)
  have "wi_from ty (a - b) = 1 \<longleftrightarrow> a - b = 1"
  proof
    assume e: "wi_from ty (a - b) = 1"
    from wi_from_mod[of ty "a - b"] e have "(1 - (a - b)) mod 2 ^ TYPE_PRECISION ty = 0" by simp
    then have d: "2 ^ TYPE_PRECISION ty dvd (a - b - 1)"
      by (metis dvd_minus_iff minus_diff_eq mod_0_imp_dvd)
    from assms wi_range_width[OF p(1)] have "0 \<le> a - b - 1" "a - b - 1 < 2 ^ TYPE_PRECISION ty" by linarith+
    with d show "a - b = 1"
      using zdvd_not_zless[of "a - b - 1" "2 ^ TYPE_PRECISION ty"] by force
  next
    assume "a - b = 1" with w1 show "wi_from ty (a - b) = 1" by simp
  qed
  then show ?thesis by (auto simp: int_const_binop.simps)
qed

subsection \<open>Canonical ranges and membership\<close>

lemma contains_value_range [simp]:
  "contains_value ty F \<lparr>m_kind = VR_RANGE, m_min = Some (INTEGER_CST l ol), m_max = Some (INTEGER_CST h oh)\<rparr> v
     = (l \<le> v \<and> v \<le> h)"
  by (auto simp: contains_value_def value_inside_range_def varying_p_def undefined_p_def Let_def)

lemma contains_value_anti [simp]:
  "contains_value ty F \<lparr>m_kind = VR_ANTI_RANGE, m_min = Some (INTEGER_CST l ol), m_max = Some (INTEGER_CST h oh)\<rparr> v
     = (v < l \<or> h < v)"
  by (auto simp: contains_value_def value_inside_range_def varying_p_def undefined_p_def Let_def)

lemma contains_value_varying [simp]: "contains_value ty F (set_varying ty) v"
  by (simp add: contains_value_def value_inside_range_def varying_p_def set_varying_def)

lemma contains_value_undefined [simp]: "\<not> contains_value ty F set_undefined v"
  by (simp add: contains_value_def value_inside_range_def varying_p_def undefined_p_def set_undefined_def)

lemma canonical_varying [simp]: "canonical_range ty (set_varying ty)"
  by (simp add: canonical_range_def set_varying_def)

lemma canonical_undefined [simp]: "canonical_range ty set_undefined"
  by (simp add: canonical_range_def set_undefined_def)

lemma canonical_range_lit [simp]:
  "canonical_range ty \<lparr>m_kind = VR_RANGE, m_min = Some (INTEGER_CST l ol), m_max = Some (INTEGER_CST h oh)\<rparr>
     = (\<not> ol \<and> \<not> oh \<and> wi_min_value ty \<le> l \<and> l \<le> h \<and> h \<le> wi_max_value ty
        \<and> \<not> (l = wi_min_value ty \<and> h = wi_max_value ty))"
  by (simp add: canonical_range_def)

lemma canonical_anti_lit [simp]:
  "canonical_range ty \<lparr>m_kind = VR_ANTI_RANGE, m_min = Some (INTEGER_CST l ol), m_max = Some (INTEGER_CST h oh)\<rparr>
     = (\<not> ol \<and> \<not> oh \<and> wi_min_value ty < l \<and> l \<le> h \<and> h < wi_max_value ty)"
  by (simp add: canonical_range_def)

lemma canonical_bounds:
  assumes "canonical_range ty vr" "m_kind vr = VR_RANGE \<or> m_kind vr = VR_ANTI_RANGE"
  shows "\<exists>l h. m_min vr = Some (INTEGER_CST l False) \<and> m_max vr = Some (INTEGER_CST h False)"
proof -
  from assms obtain lo where lo: "m_min vr = Some lo"
    by (cases "m_min vr") (auto simp: canonical_range_def)
  with assms obtain l ol where l: "lo = INTEGER_CST l ol"
    by (cases lo) (auto simp: canonical_range_def)
  with lo assms obtain hi where hi: "m_max vr = Some hi"
    by (cases "m_max vr") (auto simp: canonical_range_def)
  with lo l assms obtain h oh where h: "hi = INTEGER_CST h oh"
    by (cases hi) (auto simp: canonical_range_def)
  with lo l hi assms show ?thesis
    by (auto simp: canonical_range_def)
qed

lemma canonical_cases [consumes 1, case_names undefined varying range anti]:
  assumes "canonical_range ty vr"
  obtains (undefined) "vr = set_undefined"
    | (varying) "vr = set_varying ty"
    | (range) l h where "vr = \<lparr>m_kind = VR_RANGE, m_min = Some (INTEGER_CST l False), m_max = Some (INTEGER_CST h False)\<rparr>"
        "wi_min_value ty \<le> l" "l \<le> h" "h \<le> wi_max_value ty" "\<not> (l = wi_min_value ty \<and> h = wi_max_value ty)"
    | (anti) l h where "vr = \<lparr>m_kind = VR_ANTI_RANGE, m_min = Some (INTEGER_CST l False), m_max = Some (INTEGER_CST h False)\<rparr>"
        "wi_min_value ty < l" "l \<le> h" "h < wi_max_value ty"
proof (cases "m_kind vr")
  case VR_UNDEFINED
  with assms undefined show ?thesis by (simp add: canonical_range_def)
next
  case VR_VARYING
  with assms varying show ?thesis by (simp add: canonical_range_def)
next
  case VR_RANGE
  with canonical_bounds[OF assms] obtain l h where
    e: "vr = \<lparr>m_kind = VR_RANGE, m_min = Some (INTEGER_CST l False), m_max = Some (INTEGER_CST h False)\<rparr>"
    by (cases vr) auto
  with assms have "wi_min_value ty \<le> l" "l \<le> h" "h \<le> wi_max_value ty"
     "\<not> (l = wi_min_value ty \<and> h = wi_max_value ty)" by simp_all
  with e show ?thesis by (rule range)
next
  case VR_ANTI_RANGE
  with canonical_bounds[OF assms] obtain l h where
    e: "vr = \<lparr>m_kind = VR_ANTI_RANGE, m_min = Some (INTEGER_CST l False), m_max = Some (INTEGER_CST h False)\<rparr>"
    by (cases vr) auto
  with assms have "wi_min_value ty < l" "l \<le> h" "h < wi_max_value ty" by simp_all
  with e show ?thesis by (rule anti)
qed

lemma one_ok_cases:
  assumes "0 < TYPE_PRECISION ty"
  obtains (ok) "one_ok ty" | (bit) "TYPE_PRECISION ty = 1" "\<not> TYPE_UNSIGNED ty" "wi_min_value ty = - 1" "wi_max_value ty = 0"
proof (cases "one_ok ty")
  case True then show ?thesis by (rule ok)
next
  case False
  with assms have lt: "wi_max_value ty < 1" by (simp add: one_ok_def)
  from assms obtain k where k: "TYPE_PRECISION ty = Suc k" by (cases "TYPE_PRECISION ty") simp_all
  have p: "(1::int) \<le> 2 ^ k" by simp
  have u: "\<not> TYPE_UNSIGNED ty"
  proof
    assume "TYPE_UNSIGNED ty"
    then have "wi_max_value ty = 2 * 2 ^ k - 1" by (simp add: wi_max_value_def k)
    with p lt show False by linarith
  qed
  then have m: "wi_max_value ty = 2 ^ k - 1" by (simp add: wi_max_value_def k)
  with lt p have e: "(2::int) ^ k = 1" by linarith
  have "k = 0"
  proof (cases k)
    case (Suc j)
    have "(1::int) \<le> 2 ^ j" by simp
    then have "(2::int) \<le> 2 * 2 ^ j" by linarith
    with e Suc show ?thesis by simp
  qed simp
  with k have k1: "TYPE_PRECISION ty = 1" by simp
  from u k1 have "wi_min_value ty = - 1" "wi_max_value ty = 0"
    by (simp_all add: wi_min_value_def wi_max_value_def)
  with k1 u show ?thesis by (rule bit)
qed

lemma one_bit_width: "TYPE_PRECISION ty = Suc 0 \<Longrightarrow> wi_max_value ty = wi_min_value ty + 1"
  by (simp add: wi_min_value_def wi_max_value_def)

lemma set_triple:
  assumes ty: "INTEGRAL_TYPE_P ty" "0 < TYPE_PRECISION ty" "\<not> POINTER_TYPE_P ty"
    and tv: "wi_min_value ty \<le> v" "v \<le> wi_max_value ty"
    and k: "k = VR_RANGE \<or> k = VR_ANTI_RANGE"
    and b: "wi_min_value ty \<le> l" "l \<le> h" "h \<le> wi_max_value ty"
  shows "canonical_range ty (value_range_base_set ty k (INTEGER_CST l False) (INTEGER_CST h False))
       \<and> (in_triple v (k, Some (INTEGER_CST l False), Some (INTEGER_CST h False))
            \<longrightarrow> contains_value ty F (value_range_base_set ty k (INTEGER_CST l False) (INTEGER_CST h False)) v)"
proof -
  note defs = value_range_base_set_def set_normalize_def Let_def tree_int_cst_lt_def
    tree_int_cst_compare_def wi_cmp_def TYPE_MIN_VALUE_def TYPE_MAX_VALUE_def in_triple_def
    vrp_val_min_def vrp_val_max_def
  from ty(2) show ?thesis
  proof (cases rule: one_ok_cases)
    case ok
    then have p: "1 \<le> wi_max_value ty" by (simp add: one_ok_def)
    from k show ?thesis
    proof
      assume "k = VR_RANGE"
      with ty tv b ok p show ?thesis by (auto simp: defs)
    next
      assume "k = VR_ANTI_RANGE"
      with ty tv b ok p show ?thesis by (auto simp: defs dest: one_bit_width)
    qed
  next
    case bit
    with ty tv b k show ?thesis by (auto simp: defs)
  qed
qed

subsection \<open>The case analysis of \<open>union_ranges\<close>\<close>

lemma union_ranges_RR:
  assumes ty: "INTEGRAL_TYPE_P ty" "one_ok ty"
    and b: "wi_min_value ty \<le> a0" "a0 \<le> b0" "b0 \<le> wi_max_value ty"
           "wi_min_value ty \<le> a1" "a1 \<le> b1" "b1 \<le> wi_max_value ty"
  shows "triple_ok ty (union_ranges ty F VR_RANGE (INTEGER_CST a0 False) (INTEGER_CST b0 False)
            VR_RANGE (INTEGER_CST a1 False) (INTEGER_CST b1 False))
       \<and> ((a0 \<le> v \<and> v \<le> b0) \<or> (a1 \<le> v \<and> v \<le> b1) \<longrightarrow>
          in_triple v (union_ranges ty F VR_RANGE (INTEGER_CST a0 False) (INTEGER_CST b0 False)
            VR_RANGE (INTEGER_CST a1 False) (INTEGER_CST b1 False)))"
proof -
  from ty have p: "0 < TYPE_PRECISION ty" "1 \<le> wi_max_value ty" by (simp_all add: one_ok_def)
  note defs = union_ranges_def Let_def triple_ok_def in_triple_def wi_cmp_def
  from b(2,5) show ?thesis
  proof (cases rule: interval_cases)
    case eq
    with ty b p show ?thesis by (auto simp: defs)
  next
    case left
    with ty b p show ?thesis by (auto simp: defs)
  next
    case right
    with ty b p show ?thesis by (auto simp: defs)
  next
    case inner
    with ty b p show ?thesis by (auto simp: defs)
  next
    case outer
    with ty b p show ?thesis by (auto simp: defs)
  next
    case ovl
    with ty b p show ?thesis by (auto simp: defs)
  next
    case ovr
    with ty b p show ?thesis by (auto simp: defs)
  qed
qed

lemma union_ranges_RA:
  assumes ty: "INTEGRAL_TYPE_P ty" "one_ok ty"
    and b: "wi_min_value ty \<le> a0" "a0 \<le> b0" "b0 \<le> wi_max_value ty"
           "wi_min_value ty < a1" "a1 \<le> b1" "b1 < wi_max_value ty"
  shows "triple_ok ty (union_ranges ty F VR_RANGE (INTEGER_CST a0 False) (INTEGER_CST b0 False)
            VR_ANTI_RANGE (INTEGER_CST a1 False) (INTEGER_CST b1 False))
       \<and> ((a0 \<le> v \<and> v \<le> b0) \<or> (v < a1 \<or> b1 < v) \<longrightarrow>
          in_triple v (union_ranges ty F VR_RANGE (INTEGER_CST a0 False) (INTEGER_CST b0 False)
            VR_ANTI_RANGE (INTEGER_CST a1 False) (INTEGER_CST b1 False)))"
proof -
  from ty have p: "0 < TYPE_PRECISION ty" "1 \<le> wi_max_value ty" by (simp_all add: one_ok_def)
  note defs = union_ranges_def Let_def triple_ok_def in_triple_def wi_cmp_def
  from b(2,5) show ?thesis
  proof (cases rule: interval_cases)
    case eq
    with ty b p show ?thesis by (auto simp: defs)
  next
    case left
    with ty b p show ?thesis by (auto simp: defs)
  next
    case right
    with ty b p show ?thesis by (auto simp: defs)
  next
    case inner
    with ty b p show ?thesis by (auto simp: defs)
  next
    case outer
    with ty b p show ?thesis by (auto simp: defs)
  next
    case ovl
    with ty b p show ?thesis by (auto simp: defs)
  next
    case ovr
    with ty b p show ?thesis by (auto simp: defs)
  qed
qed

lemma union_ranges_AR:
  assumes ty: "INTEGRAL_TYPE_P ty" "one_ok ty"
    and b: "wi_min_value ty < a0" "a0 \<le> b0" "b0 < wi_max_value ty"
           "wi_min_value ty \<le> a1" "a1 \<le> b1" "b1 \<le> wi_max_value ty"
  shows "triple_ok ty (union_ranges ty F VR_ANTI_RANGE (INTEGER_CST a0 False) (INTEGER_CST b0 False)
            VR_RANGE (INTEGER_CST a1 False) (INTEGER_CST b1 False))
       \<and> ((v < a0 \<or> b0 < v) \<or> (a1 \<le> v \<and> v \<le> b1) \<longrightarrow>
          in_triple v (union_ranges ty F VR_ANTI_RANGE (INTEGER_CST a0 False) (INTEGER_CST b0 False)
            VR_RANGE (INTEGER_CST a1 False) (INTEGER_CST b1 False)))"
proof -
  from ty have p: "0 < TYPE_PRECISION ty" "1 \<le> wi_max_value ty" by (simp_all add: one_ok_def)
  note defs = union_ranges_def Let_def triple_ok_def in_triple_def wi_cmp_def
  from b(2,5) show ?thesis
  proof (cases rule: interval_cases)
    case eq
    with ty b p show ?thesis by (auto simp: defs)
  next
    case left
    with ty b p show ?thesis by (auto simp: defs)
  next
    case right
    with ty b p show ?thesis by (auto simp: defs)
  next
    case inner
    with ty b p show ?thesis by (auto simp: defs)
  next
    case outer
    with ty b p show ?thesis by (auto simp: defs)
  next
    case ovl
    with ty b p show ?thesis by (auto simp: defs)
  next
    case ovr
    with ty b p show ?thesis by (auto simp: defs)
  qed
qed

lemma union_ranges_AA:
  assumes ty: "INTEGRAL_TYPE_P ty" "one_ok ty"
    and b: "wi_min_value ty < a0" "a0 \<le> b0" "b0 < wi_max_value ty"
           "wi_min_value ty < a1" "a1 \<le> b1" "b1 < wi_max_value ty"
  shows "triple_ok ty (union_ranges ty F VR_ANTI_RANGE (INTEGER_CST a0 False) (INTEGER_CST b0 False)
            VR_ANTI_RANGE (INTEGER_CST a1 False) (INTEGER_CST b1 False))
       \<and> ((v < a0 \<or> b0 < v) \<or> (v < a1 \<or> b1 < v) \<longrightarrow>
          in_triple v (union_ranges ty F VR_ANTI_RANGE (INTEGER_CST a0 False) (INTEGER_CST b0 False)
            VR_ANTI_RANGE (INTEGER_CST a1 False) (INTEGER_CST b1 False)))"
proof -
  from ty have p: "0 < TYPE_PRECISION ty" "1 \<le> wi_max_value ty" by (simp_all add: one_ok_def)
  note defs = union_ranges_def Let_def triple_ok_def in_triple_def wi_cmp_def
  from b(2,5) show ?thesis
  proof (cases rule: interval_cases)
    case eq
    with ty b p show ?thesis by (auto simp: defs)
  next
    case left
    with ty b p show ?thesis by (auto simp: defs)
  next
    case right
    with ty b p show ?thesis by (auto simp: defs)
  next
    case inner
    with ty b p show ?thesis by (auto simp: defs)
  next
    case outer
    with ty b p show ?thesis by (auto simp: defs)
  next
    case ovl
    with ty b p show ?thesis by (auto simp: defs)
  next
    case ovr
    with ty b p show ?thesis by (auto simp: defs)
  qed
qed

subsection \<open>The case analysis of \<open>intersect_ranges\<close>\<close>

lemma intersect_ranges_RR:
  assumes ty: "INTEGRAL_TYPE_P ty" "one_ok ty"
    and b: "wi_min_value ty \<le> a0" "a0 \<le> b0" "b0 \<le> wi_max_value ty"
           "wi_min_value ty \<le> a1" "a1 \<le> b1" "b1 \<le> wi_max_value ty"
  shows "triple_ok ty (intersect_ranges ty F ip VR_RANGE (INTEGER_CST a0 False) (INTEGER_CST b0 False)
            VR_RANGE (INTEGER_CST a1 False) (INTEGER_CST b1 False))
       \<and> ((a0 \<le> v \<and> v \<le> b0) \<and> (a1 \<le> v \<and> v \<le> b1) \<longrightarrow>
          in_triple v (intersect_ranges ty F ip VR_RANGE (INTEGER_CST a0 False) (INTEGER_CST b0 False)
            VR_RANGE (INTEGER_CST a1 False) (INTEGER_CST b1 False)))"
proof -
  from ty have p: "0 < TYPE_PRECISION ty" "1 \<le> wi_max_value ty" by (simp_all add: one_ok_def)
  note defs = intersect_ranges_def Let_def triple_ok_def in_triple_def wi_cmp_def
  from b(2,5) show ?thesis
  proof (cases rule: interval_cases)
    case eq
    with ty b p show ?thesis by (auto simp: defs)
  next
    case left
    with ty b p show ?thesis by (auto simp: defs)
  next
    case right
    with ty b p show ?thesis by (auto simp: defs)
  next
    case inner
    with ty b p show ?thesis by (auto simp: defs)
  next
    case outer
    with ty b p show ?thesis by (auto simp: defs)
  next
    case ovl
    with ty b p show ?thesis by (auto simp: defs)
  next
    case ovr
    with ty b p show ?thesis by (auto simp: defs)
  qed
qed

lemma intersect_ranges_RA:
  assumes ty: "INTEGRAL_TYPE_P ty" "one_ok ty"
    and b: "wi_min_value ty \<le> a0" "a0 \<le> b0" "b0 \<le> wi_max_value ty"
           "wi_min_value ty < a1" "a1 \<le> b1" "b1 < wi_max_value ty"
  shows "triple_ok ty (intersect_ranges ty F ip VR_RANGE (INTEGER_CST a0 False) (INTEGER_CST b0 False)
            VR_ANTI_RANGE (INTEGER_CST a1 False) (INTEGER_CST b1 False))
       \<and> ((a0 \<le> v \<and> v \<le> b0) \<and> (v < a1 \<or> b1 < v) \<longrightarrow>
          in_triple v (intersect_ranges ty F ip VR_RANGE (INTEGER_CST a0 False) (INTEGER_CST b0 False)
            VR_ANTI_RANGE (INTEGER_CST a1 False) (INTEGER_CST b1 False)))"
proof -
  from ty have p: "0 < TYPE_PRECISION ty" "1 \<le> wi_max_value ty" by (simp_all add: one_ok_def)
  note defs = intersect_ranges_def Let_def triple_ok_def in_triple_def wi_cmp_def
  from b(2,5) show ?thesis
  proof (cases rule: interval_cases)
    case eq
    with ty b p show ?thesis by (auto simp: defs)
  next
    case left
    with ty b p show ?thesis by (auto simp: defs)
  next
    case right
    with ty b p show ?thesis by (auto simp: defs)
  next
    case inner
    with ty b p show ?thesis by (auto simp: defs)
  next
    case outer
    with ty b p show ?thesis by (auto simp: defs)
  next
    case ovl
    with ty b p show ?thesis by (auto simp: defs)
  next
    case ovr
    with ty b p show ?thesis by (auto simp: defs)
  qed
qed

lemma intersect_ranges_AR:
  assumes ty: "INTEGRAL_TYPE_P ty" "one_ok ty"
    and b: "wi_min_value ty < a0" "a0 \<le> b0" "b0 < wi_max_value ty"
           "wi_min_value ty \<le> a1" "a1 \<le> b1" "b1 \<le> wi_max_value ty"
  shows "triple_ok ty (intersect_ranges ty F ip VR_ANTI_RANGE (INTEGER_CST a0 False) (INTEGER_CST b0 False)
            VR_RANGE (INTEGER_CST a1 False) (INTEGER_CST b1 False))
       \<and> ((v < a0 \<or> b0 < v) \<and> (a1 \<le> v \<and> v \<le> b1) \<longrightarrow>
          in_triple v (intersect_ranges ty F ip VR_ANTI_RANGE (INTEGER_CST a0 False) (INTEGER_CST b0 False)
            VR_RANGE (INTEGER_CST a1 False) (INTEGER_CST b1 False)))"
proof -
  from ty have p: "0 < TYPE_PRECISION ty" "1 \<le> wi_max_value ty" by (simp_all add: one_ok_def)
  note defs = intersect_ranges_def Let_def triple_ok_def in_triple_def wi_cmp_def
  from b(2,5) show ?thesis
  proof (cases rule: interval_cases)
    case eq
    with ty b p show ?thesis by (auto simp: defs)
  next
    case left
    with ty b p show ?thesis by (auto simp: defs)
  next
    case right
    with ty b p show ?thesis by (auto simp: defs)
  next
    case inner
    with ty b p show ?thesis by (auto simp: defs)
  next
    case outer
    with ty b p show ?thesis by (auto simp: defs)
  next
    case ovl
    with ty b p show ?thesis by (auto simp: defs)
  next
    case ovr
    with ty b p show ?thesis by (auto simp: defs)
  qed
qed

lemma intersect_ranges_AA:
  assumes ty: "INTEGRAL_TYPE_P ty" "one_ok ty"
    and b: "wi_min_value ty < a0" "a0 \<le> b0" "b0 < wi_max_value ty"
           "wi_min_value ty < a1" "a1 \<le> b1" "b1 < wi_max_value ty"
  shows "triple_ok ty (intersect_ranges ty F ip VR_ANTI_RANGE (INTEGER_CST a0 False) (INTEGER_CST b0 False)
            VR_ANTI_RANGE (INTEGER_CST a1 False) (INTEGER_CST b1 False))
       \<and> ((v < a0 \<or> b0 < v) \<and> (v < a1 \<or> b1 < v) \<longrightarrow>
          in_triple v (intersect_ranges ty F ip VR_ANTI_RANGE (INTEGER_CST a0 False) (INTEGER_CST b0 False)
            VR_ANTI_RANGE (INTEGER_CST a1 False) (INTEGER_CST b1 False)))"
proof -
  from ty have p: "0 < TYPE_PRECISION ty" "1 \<le> wi_max_value ty" by (simp_all add: one_ok_def)
  note defs = intersect_ranges_def Let_def triple_ok_def in_triple_def wi_cmp_def
  from b(2,5) show ?thesis
  proof (cases rule: interval_cases)
    case eq
    with ty b p show ?thesis by (auto simp: defs)
  next
    case left
    with ty b p show ?thesis by (auto simp: defs)
  next
    case right
    with ty b p show ?thesis by (auto simp: defs)
  next
    case inner
    with ty b p show ?thesis by (auto simp: defs)
  next
    case outer
    with ty b p show ?thesis by (auto simp: defs)
  next
    case ovl
    with ty b p show ?thesis by (auto simp: defs)
  next
    case ovr
    with ty b p show ?thesis by (auto simp: defs)
  qed
qed

subsection \<open>Soundness of \<open>union_helper\<close> and \<open>intersect_helper\<close>\<close>

lemma tem_sound:
  assumes ty: "INTEGRAL_TYPE_P ty" "0 < TYPE_PRECISION ty" "\<not> POINTER_TYPE_P ty"
    and tv: "wi_min_value ty \<le> v" "v \<le> wi_max_value ty"
    and ok: "triple_ok ty (k, lo, hi)"
  shows "canonical_range ty (if k = VR_UNDEFINED then set_undefined
                             else if k = VR_VARYING then set_varying ty
                             else value_range_base_set ty k (the lo) (the hi))
       \<and> (in_triple v (k, lo, hi) \<longrightarrow>
            contains_value ty F (if k = VR_UNDEFINED then set_undefined
                             else if k = VR_VARYING then set_varying ty
                             else value_range_base_set ty k (the lo) (the hi)) v)"
proof (cases "k = VR_UNDEFINED \<or> k = VR_VARYING")
  case True
  then show ?thesis by (auto simp: in_triple_def)
next
  case False
  with ok obtain l h where e: "lo = Some (INTEGER_CST l False)" "hi = Some (INTEGER_CST h False)"
      and b: "wi_min_value ty \<le> l" "l \<le> h" "h \<le> wi_max_value ty"
      and k: "k = VR_RANGE \<or> k = VR_ANTI_RANGE"
    by (auto simp: triple_ok_def)
  from set_triple[OF ty tv k b, of F] False e show ?thesis by simp
qed

lemma wi_max_ge_0: "0 \<le> wi_max_value ty"
proof -
  have "(1::int) \<le> 2 ^ n" for n by simp
  then have "(1::int) \<le> 2 ^ TYPE_PRECISION ty" "(1::int) \<le> 2 ^ (TYPE_PRECISION ty - 1)" by blast+
  then show ?thesis unfolding wi_max_value_def by (simp split: if_splits)
qed

lemma build_zero [simp]: "0 < TYPE_PRECISION ty \<Longrightarrow> build_int_cst ty 0 = INTEGER_CST 0 False"
  using wi_from_id[of ty 0] wi_min_le_0[of ty] wi_max_ge_0[of ty] by (simp add: build_int_cst_def)

lemma kind_set_varying [simp]: "m_kind (set_varying ty) = VR_VARYING"
  by (simp add: set_varying_def)

lemma kind_set_undefined [simp]: "m_kind set_undefined = VR_UNDEFINED"
  by (simp add: set_undefined_def)

lemma set_nonzero_sound:
  assumes ty: "INTEGRAL_TYPE_P ty" "0 < TYPE_PRECISION ty" "\<not> POINTER_TYPE_P ty"
    and tv: "wi_min_value ty \<le> v" "v \<le> wi_max_value ty"
  shows "canonical_range ty (set_nonzero ty) \<and> (v \<noteq> 0 \<longrightarrow> contains_value ty F (set_nonzero ty) v)"
proof -
  have z: "wi_min_value ty \<le> 0" "0 \<le> wi_max_value ty"
    using wi_min_le_0[of ty] wi_max_ge_0[of ty] by simp_all
  from set_triple[OF ty tv _ z(1) _ z(2), of VR_ANTI_RANGE F] show ?thesis
    using ty by (auto simp: set_nonzero_def in_triple_def Let_def)
qed

lemma excludes_zero:
  assumes "canonical_range ty A" "\<not> range_includes_zero_p ty F A" "contains_value ty F A v"
    and "0 < TYPE_PRECISION ty"
  shows "v \<noteq> 0"
  using assms(1)
proof (cases rule: canonical_cases)
  case undefined with assms show ?thesis by simp
next
  case varying with assms show ?thesis
    by (simp add: range_includes_zero_p_def varying_p_def undefined_p_def)
next
  case (range l h) with assms show ?thesis
    by (auto simp: range_includes_zero_p_def varying_p_def undefined_p_def may_contain_p_def
         value_inside_range_def Let_def split: if_splits)
next
  case (anti l h) with assms show ?thesis
    by (auto simp: range_includes_zero_p_def varying_p_def undefined_p_def may_contain_p_def
         value_inside_range_def Let_def split: if_splits)
qed

lemma union_ranges_sound_ok:
  assumes ty: "INTEGRAL_TYPE_P ty" "one_ok ty"
    and A: "canonical_range ty A" "m_kind A = VR_RANGE \<or> m_kind A = VR_ANTI_RANGE"
    and B: "canonical_range ty B" "m_kind B = VR_RANGE \<or> m_kind B = VR_ANTI_RANGE"
  shows "triple_ok ty (union_ranges ty F (m_kind A) (the (m_min A)) (the (m_max A))
                         (m_kind B) (the (m_min B)) (the (m_max B)))
       \<and> (contains_value ty F A v \<or> contains_value ty F B v \<longrightarrow>
            in_triple v (union_ranges ty F (m_kind A) (the (m_min A)) (the (m_max A))
                           (m_kind B) (the (m_min B)) (the (m_max B))))"
  using A(1)
proof (cases rule: canonical_cases)
  case undefined with A(2) show ?thesis by simp
next
  case varying with A(2) show ?thesis by simp
next
  case ra: (range a0 b0)
  from B(1) show ?thesis
  proof (cases rule: canonical_cases)
    case undefined with B(2) show ?thesis by simp
  next
    case varying with B(2) show ?thesis by simp
  next
    case (range a1 b1)
    with ra union_ranges_RR[OF ty ra(2,3,4) range(2,3,4) , where v=v and F=F] show ?thesis by simp
  next
    case (anti a1 b1)
    with ra union_ranges_RA[OF ty ra(2,3,4) anti(2,3,4) , where v=v and F=F] show ?thesis by simp
  qed
next
  case aa: (anti a0 b0)
  from B(1) show ?thesis
  proof (cases rule: canonical_cases)
    case undefined with B(2) show ?thesis by simp
  next
    case varying with B(2) show ?thesis by simp
  next
    case (range a1 b1)
    with aa union_ranges_AR[OF ty aa(2,3,4) range(2,3,4) , where v=v and F=F] show ?thesis by simp
  next
    case (anti a1 b1)
    with aa union_ranges_AA[OF ty aa(2,3,4) anti(2,3,4) , where v=v and F=F] show ?thesis by simp
  qed
qed

lemma intersect_ranges_sound_ok:
  assumes ty: "INTEGRAL_TYPE_P ty" "one_ok ty"
    and A: "canonical_range ty A" "m_kind A = VR_RANGE \<or> m_kind A = VR_ANTI_RANGE"
    and B: "canonical_range ty B" "m_kind B = VR_RANGE \<or> m_kind B = VR_ANTI_RANGE"
  shows "triple_ok ty (intersect_ranges ty F ip (m_kind A) (the (m_min A)) (the (m_max A))
                         (m_kind B) (the (m_min B)) (the (m_max B)))
       \<and> (contains_value ty F A v \<and> contains_value ty F B v \<longrightarrow>
            in_triple v (intersect_ranges ty F ip (m_kind A) (the (m_min A)) (the (m_max A))
                           (m_kind B) (the (m_min B)) (the (m_max B))))"
  using A(1)
proof (cases rule: canonical_cases)
  case undefined with A(2) show ?thesis by simp
next
  case varying with A(2) show ?thesis by simp
next
  case ra: (range a0 b0)
  from B(1) show ?thesis
  proof (cases rule: canonical_cases)
    case undefined with B(2) show ?thesis by simp
  next
    case varying with B(2) show ?thesis by simp
  next
    case (range a1 b1)
    with ra intersect_ranges_RR[OF ty ra(2,3,4) range(2,3,4) , where v=v and F=F and ip=ip] show ?thesis by simp
  next
    case (anti a1 b1)
    with ra intersect_ranges_RA[OF ty ra(2,3,4) anti(2,3,4) , where v=v and F=F and ip=ip] show ?thesis by simp
  qed
next
  case aa: (anti a0 b0)
  from B(1) show ?thesis
  proof (cases rule: canonical_cases)
    case undefined with B(2) show ?thesis by simp
  next
    case varying with B(2) show ?thesis by simp
  next
    case (range a1 b1)
    with aa intersect_ranges_AR[OF ty aa(2,3,4) range(2,3,4) , where v=v and F=F and ip=ip] show ?thesis by simp
  next
    case (anti a1 b1)
    with aa intersect_ranges_AA[OF ty aa(2,3,4) anti(2,3,4) , where v=v and F=F and ip=ip] show ?thesis by simp
  qed
qed

lemma canonical_bit_cases [consumes 3, case_names undefined varying neg zero]:
  assumes "canonical_range ty A" and bit: "wi_min_value ty = - 1" "wi_max_value ty = 0"
  obtains "A = set_undefined" | "A = set_varying ty"
    | "A = \<lparr>m_kind = VR_RANGE, m_min = Some (INTEGER_CST (- 1) False), m_max = Some (INTEGER_CST (- 1) False)\<rparr>"
    | "A = \<lparr>m_kind = VR_RANGE, m_min = Some (INTEGER_CST 0 False), m_max = Some (INTEGER_CST 0 False)\<rparr>"
  using assms(1)
proof (cases rule: canonical_cases)
  case (range l h)
  with bit have "(l = - 1 \<and> h = - 1) \<or> (l = 0 \<and> h = 0)" by auto
  with range(1) that(3,4) show ?thesis by blast
next
  case (anti l h)
  with bit show ?thesis by simp
qed (use that in blast)+

lemma bit_simps:
  assumes "TYPE_PRECISION ty = 1" "\<not> TYPE_UNSIGNED ty"
  shows "wi_from ty 1 = - 1" "wi_from ty 0 = 0" "wi_from ty (- 1) = - 1" "wi_from ty (- 2) = 0"
    "wi_min_value ty = - 1" "wi_max_value ty = 0"
  using assms by (simp_all add: wi_from_def wi_min_value_def wi_max_value_def)

lemma union_ranges_sound_bit:
  assumes ty: "INTEGRAL_TYPE_P ty" "TYPE_PRECISION ty = 1" "\<not> TYPE_UNSIGNED ty"
    and A: "canonical_range ty A" "m_kind A = VR_RANGE \<or> m_kind A = VR_ANTI_RANGE"
    and B: "canonical_range ty B" "m_kind B = VR_RANGE \<or> m_kind B = VR_ANTI_RANGE"
  shows "triple_ok ty (union_ranges ty F (m_kind A) (the (m_min A)) (the (m_max A))
                         (m_kind B) (the (m_min B)) (the (m_max B)))
       \<and> (contains_value ty F A v \<or> contains_value ty F B v \<longrightarrow>
            in_triple v (union_ranges ty F (m_kind A) (the (m_min A)) (the (m_max A))
                         (m_kind B) (the (m_min B)) (the (m_max B))))"
proof -
  note b = bit_simps[OF ty(2,3)]
  note defs = union_ranges_def Let_def int_const_binop.simps build_int_cst_def wi_cmp_def
    triple_ok_def in_triple_def
  from A(1) b(5,6) show ?thesis
  proof (cases rule: canonical_bit_cases)
    case undefined with A(2) show ?thesis by simp
  next
    case varying with A(2) show ?thesis by simp
  next
    case neg
    from B(1) b(5,6) show ?thesis
    proof (cases rule: canonical_bit_cases)
      case undefined with B(2) show ?thesis by simp
    next
      case varying with B(2) show ?thesis by simp
    next
      case neg': neg
      with neg ty b show ?thesis by (auto simp: defs)
    next
      case zero
      with neg ty b show ?thesis by (auto simp: defs)
    qed
  next
    case zero
    from B(1) b(5,6) show ?thesis
    proof (cases rule: canonical_bit_cases)
      case undefined with B(2) show ?thesis by simp
    next
      case varying with B(2) show ?thesis by simp
    next
      case neg
      with zero ty b show ?thesis by (auto simp: defs)
    next
      case zero': zero
      with zero ty b show ?thesis by (auto simp: defs)
    qed
  qed
qed

lemma union_ranges_sound:
  assumes ty: "INTEGRAL_TYPE_P ty" "0 < TYPE_PRECISION ty"
    and A: "canonical_range ty A" "m_kind A = VR_RANGE \<or> m_kind A = VR_ANTI_RANGE"
    and B: "canonical_range ty B" "m_kind B = VR_RANGE \<or> m_kind B = VR_ANTI_RANGE"
  shows "triple_ok ty (union_ranges ty F (m_kind A) (the (m_min A)) (the (m_max A))
                         (m_kind B) (the (m_min B)) (the (m_max B)))
       \<and> (contains_value ty F A v \<or> contains_value ty F B v \<longrightarrow>
            in_triple v (union_ranges ty F (m_kind A) (the (m_min A)) (the (m_max A))
                         (m_kind B) (the (m_min B)) (the (m_max B))))"
  using ty(2)
proof (cases rule: one_ok_cases)
  case ok
  from union_ranges_sound_ok[OF ty(1) ok A B] show ?thesis .
next
  case bit
  from union_ranges_sound_bit[OF ty(1) bit(1,2) A B] show ?thesis .
qed

lemma intersect_ranges_sound_bit:
  assumes ty: "INTEGRAL_TYPE_P ty" "TYPE_PRECISION ty = 1" "\<not> TYPE_UNSIGNED ty"
    and A: "canonical_range ty A" "m_kind A = VR_RANGE \<or> m_kind A = VR_ANTI_RANGE"
    and B: "canonical_range ty B" "m_kind B = VR_RANGE \<or> m_kind B = VR_ANTI_RANGE"
  shows "triple_ok ty (intersect_ranges ty F ip (m_kind A) (the (m_min A)) (the (m_max A))
                         (m_kind B) (the (m_min B)) (the (m_max B)))
       \<and> (contains_value ty F A v \<and> contains_value ty F B v \<longrightarrow>
            in_triple v (intersect_ranges ty F ip (m_kind A) (the (m_min A)) (the (m_max A))
                         (m_kind B) (the (m_min B)) (the (m_max B))))"
proof -
  note b = bit_simps[OF ty(2,3)]
  note defs = intersect_ranges_def Let_def int_const_binop.simps build_int_cst_def wi_cmp_def
    triple_ok_def in_triple_def
  from A(1) b(5,6) show ?thesis
  proof (cases rule: canonical_bit_cases)
    case undefined with A(2) show ?thesis by simp
  next
    case varying with A(2) show ?thesis by simp
  next
    case neg
    from B(1) b(5,6) show ?thesis
    proof (cases rule: canonical_bit_cases)
      case undefined with B(2) show ?thesis by simp
    next
      case varying with B(2) show ?thesis by simp
    next
      case neg': neg
      with neg ty b show ?thesis by (auto simp: defs)
    next
      case zero
      with neg ty b show ?thesis by (auto simp: defs)
    qed
  next
    case zero
    from B(1) b(5,6) show ?thesis
    proof (cases rule: canonical_bit_cases)
      case undefined with B(2) show ?thesis by simp
    next
      case varying with B(2) show ?thesis by simp
    next
      case neg
      with zero ty b show ?thesis by (auto simp: defs)
    next
      case zero': zero
      with zero ty b show ?thesis by (auto simp: defs)
    qed
  qed
qed

lemma intersect_ranges_sound:
  assumes ty: "INTEGRAL_TYPE_P ty" "0 < TYPE_PRECISION ty"
    and A: "canonical_range ty A" "m_kind A = VR_RANGE \<or> m_kind A = VR_ANTI_RANGE"
    and B: "canonical_range ty B" "m_kind B = VR_RANGE \<or> m_kind B = VR_ANTI_RANGE"
  shows "triple_ok ty (intersect_ranges ty F ip (m_kind A) (the (m_min A)) (the (m_max A))
                         (m_kind B) (the (m_min B)) (the (m_max B)))
       \<and> (contains_value ty F A v \<and> contains_value ty F B v \<longrightarrow>
            in_triple v (intersect_ranges ty F ip (m_kind A) (the (m_min A)) (the (m_max A))
                         (m_kind B) (the (m_min B)) (the (m_max B))))"
  using ty(2)
proof (cases rule: one_ok_cases)
  case ok
  from intersect_ranges_sound_ok[OF ty(1) ok A B] show ?thesis .
next
  case bit
  from intersect_ranges_sound_bit[OF ty(1) bit(1,2) A B] show ?thesis .
qed

lemma canonical_kind_undefined: "canonical_range ty A \<Longrightarrow> m_kind A = VR_UNDEFINED \<Longrightarrow> A = set_undefined"
  by (simp add: canonical_range_def)

lemma canonical_kind_varying: "canonical_range ty A \<Longrightarrow> m_kind A = VR_VARYING \<Longrightarrow> A = set_varying ty"
  by (simp add: canonical_range_def)

lemma kind_cases:
  obtains "k = VR_UNDEFINED" | "k = VR_VARYING" | "k = VR_RANGE \<or> k = VR_ANTI_RANGE"
  by (cases k) auto

lemma union_helper_sound:
  assumes ty: "INTEGRAL_TYPE_P ty" "0 < TYPE_PRECISION ty" "\<not> POINTER_TYPE_P ty"
    and tv: "wi_min_value ty \<le> v" "v \<le> wi_max_value ty"
    and A: "canonical_range ty A" and B: "canonical_range ty B"
  shows "canonical_range ty (union_helper ty F A B)
       \<and> (contains_value ty F A v \<or> contains_value ty F B v \<longrightarrow>
            contains_value ty F (union_helper ty F A B) v)"
proof -
  note p = ty(2)
  show ?thesis
  proof (cases "m_kind A" rule: kind_cases)
    case 1
    with A have "A = set_undefined" by (rule canonical_kind_undefined)
    with B show ?thesis
      by (auto simp: union_helper_def undefined_p_def varying_p_def dest: canonical_kind_undefined)
  next
    case 2
    with A have "A = set_varying ty" by (rule canonical_kind_varying)
    then show ?thesis by (simp add: union_helper_def undefined_p_def varying_p_def)
  next
    case kA: 3
    show ?thesis
    proof (cases "m_kind B" rule: kind_cases)
      case 1
      with B have "B = set_undefined" by (rule canonical_kind_undefined)
      with A show ?thesis by (simp add: union_helper_def undefined_p_def varying_p_def)
    next
      case 2
      with B have "B = set_varying ty" by (rule canonical_kind_varying)
      with kA show ?thesis by (auto simp: union_helper_def undefined_p_def varying_p_def)
    next
      case kB: 3
      obtain k lo hi where u: "union_ranges ty F (m_kind A) (the (m_min A)) (the (m_max A))
                         (m_kind B) (the (m_min B)) (the (m_max B)) = (k, lo, hi)"
        by (cases "union_ranges ty F (m_kind A) (the (m_min A)) (the (m_max A))
                         (m_kind B) (the (m_min B)) (the (m_max B))") auto
      let ?tem = "if k = VR_UNDEFINED then set_undefined
                  else if k = VR_VARYING then set_varying ty
                  else value_range_base_set ty k (the lo) (the hi)"
      from union_ranges_sound[OF ty(1,2) A kA B kB, where v=v and F=F] u
      have ok: "triple_ok ty (k, lo, hi)"
        and m: "contains_value ty F A v \<or> contains_value ty F B v \<longrightarrow> in_triple v (k, lo, hi)"
        by simp_all
      from tem_sound[OF ty(1) p ty(3) tv ok, where F=F] m
      have t: "canonical_range ty ?tem"
          "contains_value ty F A v \<or> contains_value ty F B v \<longrightarrow> contains_value ty F ?tem v"
        by blast+
      from kA kB u have e: "union_helper ty F A B =
          (if varying_p ?tem \<and> \<not> range_includes_zero_p ty F A \<and> \<not> range_includes_zero_p ty F B
           then set_nonzero ty else ?tem)"
        by (auto simp: union_helper_def undefined_p_def varying_p_def)
      show ?thesis
      proof (cases "varying_p ?tem \<and> \<not> range_includes_zero_p ty F A \<and> \<not> range_includes_zero_p ty F B")
        case False
        with e have "union_helper ty F A B = ?tem" by presburger
        with t show ?thesis by simp
      next
        case True
        with e have r: "union_helper ty F A B = set_nonzero ty" by presburger
        from True A B p have "contains_value ty F A v \<or> contains_value ty F B v \<longrightarrow> v \<noteq> 0"
          by (blast dest: excludes_zero)
        with set_nonzero_sound[OF ty(1) p ty(3) tv, where F=F] r show ?thesis by simp
      qed
    qed
  qed
qed

lemma intersect_helper_sound:
  assumes ty: "INTEGRAL_TYPE_P ty" "0 < TYPE_PRECISION ty" "\<not> POINTER_TYPE_P ty"
    and tv: "wi_min_value ty \<le> v" "v \<le> wi_max_value ty"
    and A: "canonical_range ty A" and B: "canonical_range ty B"
  shows "canonical_range ty (intersect_helper ty F ip A B)
       \<and> (contains_value ty F A v \<and> contains_value ty F B v \<longrightarrow>
            contains_value ty F (intersect_helper ty F ip A B) v)"
proof -
  note p = ty(2)
  show ?thesis
  proof (cases "m_kind B" rule: kind_cases)
    case 1
    with B have b: "B = set_undefined" by (rule canonical_kind_undefined)
    show ?thesis
    proof (cases "m_kind A" rule: kind_cases)
      case 1
      with A have "A = set_undefined" by (rule canonical_kind_undefined)
      with b show ?thesis by (simp add: intersect_helper_def undefined_p_def varying_p_def)
    next
      case 2
      with A have "A = set_varying ty" by (rule canonical_kind_varying)
      with b show ?thesis by (simp add: intersect_helper_def undefined_p_def varying_p_def)
    next
      case 3
      with b show ?thesis by (auto simp: intersect_helper_def undefined_p_def varying_p_def)
    qed
  next
    case 2
    with B have "B = set_varying ty" by (rule canonical_kind_varying)
    with A show ?thesis by (simp add: intersect_helper_def undefined_p_def varying_p_def)
  next
    case kB: 3
    show ?thesis
    proof (cases "m_kind A" rule: kind_cases)
      case 1
      with A have "A = set_undefined" by (rule canonical_kind_undefined)
      with kB show ?thesis by (auto simp: intersect_helper_def undefined_p_def varying_p_def)
    next
      case 2
      with A have "A = set_varying ty" by (rule canonical_kind_varying)
      with kB B show ?thesis by (auto simp: intersect_helper_def undefined_p_def varying_p_def)
    next
      case kA: 3
      obtain k lo hi where u: "intersect_ranges ty F ip (m_kind A) (the (m_min A)) (the (m_max A))
                         (m_kind B) (the (m_min B)) (the (m_max B)) = (k, lo, hi)"
        by (cases "intersect_ranges ty F ip (m_kind A) (the (m_min A)) (the (m_max A))
                         (m_kind B) (the (m_min B)) (the (m_max B))") auto
      let ?tem = "if k = VR_UNDEFINED then set_undefined
                  else if k = VR_VARYING then set_varying ty
                  else value_range_base_set ty k (the lo) (the hi)"
      from intersect_ranges_sound[OF ty(1,2) A kA B kB, where v=v and F=F and ip=ip] u
      have ok: "triple_ok ty (k, lo, hi)"
        and m: "contains_value ty F A v \<and> contains_value ty F B v \<longrightarrow> in_triple v (k, lo, hi)"
        by simp_all
      from tem_sound[OF ty(1) p ty(3) tv ok, where F=F] m
      have t: "canonical_range ty ?tem"
          "contains_value ty F A v \<and> contains_value ty F B v \<longrightarrow> contains_value ty F ?tem v"
        by blast+
      from kA kB u have e: "intersect_helper ty F ip A B = (if varying_p ?tem then A else ?tem)"
        by (auto simp: intersect_helper_def undefined_p_def varying_p_def)
      show ?thesis
      proof (cases "varying_p ?tem")
        case False
        with e have "intersect_helper ty F ip A B = ?tem" by presburger
        with t show ?thesis by simp
      next
        case True
        with e have "intersect_helper ty F ip A B = A" by presburger
        with A show ?thesis by simp
      qed
    qed
  qed
qed

lemma meet_join_canonical:
  assumes "INTEGRAL_TYPE_P ty" "\<not> POINTER_TYPE_P ty" "0 < TYPE_PRECISION ty"
    and "canonical_range ty A" "canonical_range ty B"
  shows "canonical_range ty (value_range_base_intersect ty F ip A B)
       \<and> canonical_range ty (value_range_base_union ty F A B)"
proof -
  have z: "wi_min_value ty \<le> 0" "0 \<le> wi_max_value ty"
    using wi_min_le_0[of ty] wi_max_ge_0[of ty] by simp_all
  from intersect_helper_sound[OF assms(1,3,2) z assms(4,5), of F ip]
    union_helper_sound[OF assms(1,3,2) z assms(4,5), of F]
  show ?thesis by (simp add: value_range_base_intersect_def value_range_base_union_def)
qed



section \<open>Soundness of addition and subtraction\<close>

subsection \<open>Wrapping to the precision\<close>

lemma wi_from_period:
  "wi_from ty (x + 2 ^ TYPE_PRECISION ty) = wi_from ty x"
  "wi_from ty (x - 2 ^ TYPE_PRECISION ty) = wi_from ty x"
proof -
  have a: "(x + 2 ^ TYPE_PRECISION ty + c) mod 2 ^ TYPE_PRECISION ty = (x + c) mod 2 ^ TYPE_PRECISION ty" for c :: int
    by (metis add.commute add.left_commute mod_add_self1)
  have b: "(x - 2 ^ TYPE_PRECISION ty + c) mod 2 ^ TYPE_PRECISION ty = (x + c) mod 2 ^ TYPE_PRECISION ty" for c :: int
  proof -
    have "(x - 2 ^ TYPE_PRECISION ty + c) mod 2 ^ TYPE_PRECISION ty
          = (x - 2 ^ TYPE_PRECISION ty + c + 2 ^ TYPE_PRECISION ty) mod 2 ^ TYPE_PRECISION ty"
      by (simp only: mod_add_self2)
    then show ?thesis by simp
  qed
  show "wi_from ty (x + 2 ^ TYPE_PRECISION ty) = wi_from ty x"
    using a[of 0] a[of "2 ^ (TYPE_PRECISION ty - 1)"] by (simp add: wi_from_def)
  show "wi_from ty (x - 2 ^ TYPE_PRECISION ty) = wi_from ty x"
    using b[of 0] b[of "2 ^ (TYPE_PRECISION ty - 1)"] by (simp add: wi_from_def)
qed

lemma wi_from_cases:
  assumes p: "0 < TYPE_PRECISION ty"
    and lo: "2 * wi_min_value ty - wi_max_value ty - 1 \<le> r"
    and hi: "r \<le> 2 * wi_max_value ty - wi_min_value ty + 1"
  shows "wi_from ty r =
           (if r < wi_min_value ty then r + (wi_max_value ty - wi_min_value ty + 1)
            else if wi_max_value ty < r then r - (wi_max_value ty - wi_min_value ty + 1)
            else r)"
proof -
  from wi_range_width[OF p] have w: "wi_max_value ty - wi_min_value ty + 1 = 2 ^ TYPE_PRECISION ty"
    by simp
  show ?thesis
  proof (cases "r < wi_min_value ty")
    case True
    with lo w have "wi_min_value ty \<le> r + 2 ^ TYPE_PRECISION ty" "r + 2 ^ TYPE_PRECISION ty \<le> wi_max_value ty"
      by linarith+
    from wi_from_id[OF p this] True w show ?thesis by (simp add: wi_from_period)
  next
    case False
    show ?thesis
    proof (cases "wi_max_value ty < r")
      case True
      with hi w have "wi_min_value ty \<le> r - 2 ^ TYPE_PRECISION ty" "r - 2 ^ TYPE_PRECISION ty \<le> wi_max_value ty"
        by linarith+
      from wi_from_id[OF p this] True False w show ?thesis by (simp add: wi_from_period)
    next
      case F2: False
      with False wi_from_id[OF p, of r] show ?thesis by simp
    qed
  qed
qed

lemma wi_from_idem: "0 < TYPE_PRECISION ty \<Longrightarrow> wi_from ty (wi_from ty r) = wi_from ty r"
  by (rule wi_from_id) (simp_all add: wi_from_ge_min wi_from_le_max)

subsection \<open>The bounds computed by \<open>set_value_range_with_overflow\<close>\<close>

lemma svrwo_sound:
  assumes p: "0 < TYPE_PRECISION ty"
    and lo: "2 * wi_min_value ty - wi_max_value ty - 1 \<le> m"
    and hi: "M \<le> 2 * wi_max_value ty - wi_min_value ty + 1"
    and width: "M - m \<le> 2 * (wi_max_value ty - wi_min_value ty)"
    and e: "m \<le> e" "e \<le> M"
  shows "triple_ok ty (set_value_range_with_overflow ty (wi_from ty m) (wi_from ty M)
                         (wi_overflow ty m) (wi_overflow ty M))
       \<and> in_triple (if TYPE_OVERFLOW_WRAPS ty then wi_from ty e
                     else max (wi_min_value ty) (min (wi_max_value ty) e))
           (set_value_range_with_overflow ty (wi_from ty m) (wi_from ty M)
                         (wi_overflow ty m) (wi_overflow ty M))"
proof -
  have z: "wi_min_value ty \<le> 0" "0 \<le> wi_max_value ty"
    using wi_min_le_0[of ty] wi_max_ge_0[of ty] by simp_all
  have r: "wi_min_value ty \<le> wi_from ty x" "wi_from ty x \<le> wi_max_value ty" for x
    by (simp_all add: wi_from_ge_min wi_from_le_max)
  have wm: "wi_from ty m = (if m < wi_min_value ty then m + (wi_max_value ty - wi_min_value ty + 1)
            else if wi_max_value ty < m then m - (wi_max_value ty - wi_min_value ty + 1) else m)"
    by (rule wi_from_cases[OF p]) (use lo hi e z in linarith)+
  have wM: "wi_from ty M = (if M < wi_min_value ty then M + (wi_max_value ty - wi_min_value ty + 1)
            else if wi_max_value ty < M then M - (wi_max_value ty - wi_min_value ty + 1) else M)"
    by (rule wi_from_cases[OF p]) (use lo hi e z in linarith)+
  have we: "wi_from ty e = (if e < wi_min_value ty then e + (wi_max_value ty - wi_min_value ty + 1)
            else if wi_max_value ty < e then e - (wi_max_value ty - wi_min_value ty + 1) else e)"
    by (rule wi_from_cases[OF p]) (use lo hi e z in linarith)+
  have s1: "wi_from ty (wi_from ty M + 1) =
      (if wi_max_value ty < wi_from ty M + 1 then wi_from ty M + 1 - (wi_max_value ty - wi_min_value ty + 1)
       else wi_from ty M + 1)"
    using wi_from_cases[OF p, of "wi_from ty M + 1"] r[of M] z by simp
  have s2: "wi_from ty (wi_from ty m - 1) =
      (if wi_from ty m - 1 < wi_min_value ty then wi_from ty m - 1 + (wi_max_value ty - wi_min_value ty + 1)
       else wi_from ty m - 1)"
    using wi_from_cases[OF p, of "wi_from ty m - 1"] r[of m] z by simp
  have one: "TYPE_PRECISION ty = 1 \<longrightarrow> wi_max_value ty = wi_min_value ty + 1"
    by (simp add: one_bit_width)
  show ?thesis
  proof (cases "TYPE_OVERFLOW_WRAPS ty")
    case False
    with p z e show ?thesis
      unfolding set_value_range_with_overflow_def Let_def wi_overflow_def wide_int_to_tree_def
        triple_ok_def in_triple_def
      by (auto simp: wi_from_idem wi_from_id r)
  next
    case True
    note defs = set_value_range_with_overflow_def Let_def wi_overflow_def wide_int_to_tree_def
        triple_ok_def in_triple_def wi_cmp_def
    consider (uu) "m < wi_min_value ty" "M < wi_min_value ty"
      | (un) "m < wi_min_value ty" "wi_min_value ty \<le> M" "M \<le> wi_max_value ty"
      | (uo) "m < wi_min_value ty" "wi_max_value ty < M"
      | (nn) "wi_min_value ty \<le> m" "M \<le> wi_max_value ty"
      | (no) "wi_min_value ty \<le> m" "m \<le> wi_max_value ty" "wi_max_value ty < M"
      | (oo) "wi_max_value ty < m"
      using e by linarith
    then show ?thesis
    proof cases
      case uu
      with True p z e lo hi width wm wM we one show ?thesis
        by (auto simp: defs wi_from_idem wi_from_id)
    next
      case un
      with True p z e lo hi width wm wM we s1 s2 one show ?thesis
        by (auto simp: defs wi_from_idem wi_from_id)
    next
      case uo
      with True p z e lo hi width wm wM we one show ?thesis
        by (auto simp: defs wi_from_idem wi_from_id)
    next
      case nn
      with True p z e lo hi width wm wM we one show ?thesis
        by (auto simp: defs wi_from_idem wi_from_id)
    next
      case no
      with True p z e lo hi width wm wM we s1 s2 one show ?thesis
        by (auto simp: defs wi_from_idem wi_from_id)
    next
      case oo
      with True p z e lo hi width wm wM we one show ?thesis
        by (auto simp: defs wi_from_idem wi_from_id)
    qed
  qed
qed

subsection \<open>Ranges with constant bounds\<close>

lemma svrwo_kind: "fst (set_value_range_with_overflow ty a b c d) \<noteq> VR_UNDEFINED"
  by (simp add: set_value_range_with_overflow_def Let_def)

lemma plus_minus_ranges_RR:
  assumes ty: "INTEGRAL_TYPE_P ty" "0 < TYPE_PRECISION ty" "\<not> POINTER_TYPE_P ty"
    and b0: "wi_min_value ty \<le> l0" "l0 \<le> h0" "h0 \<le> wi_max_value ty"
    and b1: "wi_min_value ty \<le> l1" "l1 \<le> h1" "h1 \<le> wi_max_value ty"
    and x: "l0 \<le> x" "x \<le> h0" and y: "l1 \<le> y" "y \<le> h1"
    and vr0: "vr0 = \<lparr>m_kind = VR_RANGE, m_min = Some (INTEGER_CST l0 False), m_max = Some (INTEGER_CST h0 False)\<rparr>"
    and vr1: "vr1 = \<lparr>m_kind = VR_RANGE, m_min = Some (INTEGER_CST l1 False), m_max = Some (INTEGER_CST h1 False)\<rparr>"
  shows "canonical_range ty (plus_minus_ranges ty F code vr0 vr1)
       \<and> contains_value ty F (plus_minus_ranges ty F code vr0 vr1) (concrete_plus_minus ty code x y)"
proof -
  define m where "m = (if code = MINUS_EXPR then l0 - h1 else l0 + l1)"
  define M where "M = (if code = MINUS_EXPR then h0 - l1 else h0 + h1)"
  define e where "e = (if code = MINUS_EXPR then x - y else x + y)"
  define c where "c = (if TYPE_OVERFLOW_WRAPS ty then wi_from ty e
                     else max (wi_min_value ty) (min (wi_max_value ty) e))"
  have z: "wi_min_value ty \<le> 0" "0 \<le> wi_max_value ty"
    using wi_min_le_0[of ty] wi_max_ge_0[of ty] by simp_all
  have lo: "2 * wi_min_value ty - wi_max_value ty - 1 \<le> m"
    and hi: "M \<le> 2 * wi_max_value ty - wi_min_value ty + 1"
    and width: "M - m \<le> 2 * (wi_max_value ty - wi_min_value ty)"
    and e: "m \<le> e" "e \<le> M"
    using b0 b1 x y z by (auto simp: m_def M_def e_def)
  have cv: "concrete_plus_minus ty code x y = c"
    by (simp add: concrete_plus_minus_def c_def e_def Let_def)
  have ct: "wi_min_value ty \<le> c" "c \<le> wi_max_value ty"
    using z by (auto simp: c_def wi_from_ge_min wi_from_le_max)
  obtain k lo' hi' where t: "set_value_range_with_overflow ty (wi_from ty m) (wi_from ty M)
                         (wi_overflow ty m) (wi_overflow ty M) = (k, lo', hi')"
    by (cases "set_value_range_with_overflow ty (wi_from ty m) (wi_from ty M)
                         (wi_overflow ty m) (wi_overflow ty M)") auto
  from svrwo_sound[OF ty(2) lo hi width e] t
  have ok: "triple_ok ty (k, lo', hi')" and mem: "in_triple c (k, lo', hi')"
    by (simp_all add: c_def)
  from svrwo_kind[of ty "wi_from ty m" "wi_from ty M" "wi_overflow ty m" "wi_overflow ty M"] t
  have nu: "k \<noteq> VR_UNDEFINED" by simp
  note pm = plus_minus_ranges_def plus_minus_operand_def combine_bound_def wi_add_def wi_sub_def
    adjust_symbolic_bound_def Let_def varying_p_def
  show ?thesis
  proof (cases "k = VR_VARYING")
    case True
    with t have "plus_minus_ranges ty F code vr0 vr1 = set_varying ty"
      by (auto simp: pm vr0 vr1 m_def M_def)
    then show ?thesis by simp
  next
    case False
    with nu ok obtain l h where lh: "lo' = Some (INTEGER_CST l False)" "hi' = Some (INTEGER_CST h False)"
        and b: "wi_min_value ty \<le> l" "l \<le> h" "h \<le> wi_max_value ty"
        and k: "k = VR_RANGE \<or> k = VR_ANTI_RANGE"
      by (auto simp: triple_ok_def)
    from t lh False b have r: "plus_minus_ranges ty F code vr0 vr1
          = value_range_base_set ty k (INTEGER_CST l False) (INTEGER_CST h False)"
      by (auto simp: pm vr0 vr1 m_def M_def wi_cmp_def)
    from set_triple[OF ty(1,2,3) ct k b, of F] mem lh r cv show ?thesis by simp
  qed
qed

lemma plus_minus_ranges_varying0:
  "INTEGRAL_TYPE_P ty \<Longrightarrow>
   plus_minus_ranges ty F code (set_varying ty) vr1 =
   plus_minus_ranges ty F code
     \<lparr>m_kind = VR_RANGE, m_min = Some (INTEGER_CST (wi_min_value ty) False),
        m_max = Some (INTEGER_CST (wi_max_value ty) False)\<rparr> vr1"
  by (simp add: plus_minus_ranges_def varying_p_def Let_def vrp_val_min_def vrp_val_max_def
        TYPE_MIN_VALUE_def TYPE_MAX_VALUE_def)

lemma plus_minus_ranges_varying1:
  "INTEGRAL_TYPE_P ty \<Longrightarrow>
   plus_minus_ranges ty F code vr0 (set_varying ty) =
   plus_minus_ranges ty F code vr0
     \<lparr>m_kind = VR_RANGE, m_min = Some (INTEGER_CST (wi_min_value ty) False),
        m_max = Some (INTEGER_CST (wi_max_value ty) False)\<rparr>"
  by (simp add: plus_minus_ranges_def varying_p_def Let_def vrp_val_min_def vrp_val_max_def
        TYPE_MIN_VALUE_def TYPE_MAX_VALUE_def)

lemma plus_minus_ranges_undefined:
  "m_kind vr0 = VR_UNDEFINED \<or> m_kind vr1 = VR_UNDEFINED \<Longrightarrow>
   plus_minus_ranges ty F code vr0 vr1 = set_varying ty"
  by (auto simp: plus_minus_ranges_def varying_p_def Let_def)

text \<open>
  An operand of \<open>plus_minus_ranges\<close> seen as an interval of constants: a range with
  constant bounds, or \<open>Varying\<close>, which the function reads as the whole domain.
\<close>

lemma range_view:
  assumes ty: "INTEGRAL_TYPE_P ty" and c: "canonical_range ty vr"
    and k: "m_kind vr = VR_RANGE \<or> m_kind vr = VR_VARYING"
    and tv: "wi_min_value ty \<le> x" "x \<le> wi_max_value ty"
  obtains l h where "wi_min_value ty \<le> l" "l \<le> h" "h \<le> wi_max_value ty"
    "contains_value ty F vr x \<longrightarrow> l \<le> x \<and> x \<le> h"
    "\<And>w. plus_minus_ranges ty F code vr w =
      plus_minus_ranges ty F code
        \<lparr>m_kind = VR_RANGE, m_min = Some (INTEGER_CST l False), m_max = Some (INTEGER_CST h False)\<rparr> w"
    "\<And>w. plus_minus_ranges ty F code w vr =
      plus_minus_ranges ty F code w
        \<lparr>m_kind = VR_RANGE, m_min = Some (INTEGER_CST l False), m_max = Some (INTEGER_CST h False)\<rparr>"
  using c
proof (cases rule: canonical_cases)
  case undefined with k show ?thesis by simp
next
  case varying
  show ?thesis
  proof (rule that[of "wi_min_value ty" "wi_max_value ty"])
    show "wi_min_value ty \<le> wi_max_value ty" by (rule wi_min_le_max)
  qed (use tv varying ty in \<open>simp_all add: plus_minus_ranges_varying0 plus_minus_ranges_varying1\<close>)
next
  case (range l h)
  show ?thesis
    by (rule that[of l h]) (use range in simp_all)
next
  case (anti l h) with k show ?thesis by simp
qed

lemma plus_minus_ranges_sound:
  assumes ty: "INTEGRAL_TYPE_P ty" "0 < TYPE_PRECISION ty" "\<not> POINTER_TYPE_P ty"
    and c0: "canonical_range ty vr0" and k0: "m_kind vr0 \<noteq> VR_ANTI_RANGE"
    and c1: "canonical_range ty vr1" and k1: "m_kind vr1 \<noteq> VR_ANTI_RANGE"
    and x: "wi_min_value ty \<le> x" "x \<le> wi_max_value ty"
    and y: "wi_min_value ty \<le> y" "y \<le> wi_max_value ty"
  shows "canonical_range ty (plus_minus_ranges ty F code vr0 vr1)
       \<and> (contains_value ty F vr0 x \<and> contains_value ty F vr1 y \<longrightarrow>
            contains_value ty F (plus_minus_ranges ty F code vr0 vr1) (concrete_plus_minus ty code x y))"
proof (cases "m_kind vr0 = VR_UNDEFINED \<or> m_kind vr1 = VR_UNDEFINED")
  case True
  then show ?thesis by (simp add: plus_minus_ranges_undefined)
next
  case False
  with k0 k1 have k: "m_kind vr0 = VR_RANGE \<or> m_kind vr0 = VR_VARYING"
      "m_kind vr1 = VR_RANGE \<or> m_kind vr1 = VR_VARYING"
    by (cases "m_kind vr0"; cases "m_kind vr1"; simp)+
  from ty(1) c0 k(1) x obtain l0 h0 where b0: "wi_min_value ty \<le> l0" "l0 \<le> h0" "h0 \<le> wi_max_value ty"
    and m0: "contains_value ty F vr0 x \<longrightarrow> l0 \<le> x \<and> x \<le> h0"
    and e0: "\<And>w. plus_minus_ranges ty F code vr0 w =
      plus_minus_ranges ty F code
        \<lparr>m_kind = VR_RANGE, m_min = Some (INTEGER_CST l0 False), m_max = Some (INTEGER_CST h0 False)\<rparr> w"
    by (rule range_view[where F=F and code=code]) blast
  from ty(1) c1 k(2) y obtain l1 h1 where b1: "wi_min_value ty \<le> l1" "l1 \<le> h1" "h1 \<le> wi_max_value ty"
    and m1: "contains_value ty F vr1 y \<longrightarrow> l1 \<le> y \<and> y \<le> h1"
    and e1: "\<And>w. plus_minus_ranges ty F code w vr1 =
      plus_minus_ranges ty F code w
        \<lparr>m_kind = VR_RANGE, m_min = Some (INTEGER_CST l1 False), m_max = Some (INTEGER_CST h1 False)\<rparr>"
    by (rule range_view[where F=F and code=code]) blast
  let ?a = "\<lparr>m_kind = VR_RANGE, m_min = Some (INTEGER_CST l0 False), m_max = Some (INTEGER_CST h0 False)\<rparr>"
  let ?b = "\<lparr>m_kind = VR_RANGE, m_min = Some (INTEGER_CST l1 False), m_max = Some (INTEGER_CST h1 False)\<rparr>"
  have e: "plus_minus_ranges ty F code vr0 vr1 = plus_minus_ranges ty F code ?a ?b"
    by (simp add: e0 e1)
  have can: "canonical_range ty (plus_minus_ranges ty F code ?a ?b)"
    using plus_minus_ranges_RR[OF ty b0 b1 b0(2) order_refl b1(2) order_refl refl refl, of F code]
    by simp
  show ?thesis
  proof (cases "contains_value ty F vr0 x \<and> contains_value ty F vr1 y")
    case True
    with m0 m1 have "l0 \<le> x" "x \<le> h0" "l1 \<le> y" "y \<le> h1" by simp_all
    from plus_minus_ranges_RR[OF ty b0 b1 this refl refl, of F code] e show ?thesis by simp
  next
    case False
    with can e show ?thesis by auto
  qed
qed

subsection \<open>Anti-ranges\<close>

declare extract_range_from_plus_minus_expr.simps [simp del]


lemma ranges_from_anti_range_cst:
  assumes ty: "INTEGRAL_TYPE_P ty" "0 < TYPE_PRECISION ty"
    and b: "wi_min_value ty < l" "l \<le> h" "h < wi_max_value ty"
  shows "ranges_from_anti_range ty
           \<lparr>m_kind = VR_ANTI_RANGE, m_min = Some (INTEGER_CST l False), m_max = Some (INTEGER_CST h False)\<rparr> False
         = (True,
            \<lparr>m_kind = VR_RANGE, m_min = Some (INTEGER_CST (wi_min_value ty) False),
               m_max = Some (INTEGER_CST (l - 1) False)\<rparr>,
            \<lparr>m_kind = VR_RANGE, m_min = Some (INTEGER_CST (h + 1) False),
               m_max = Some (INTEGER_CST (wi_max_value ty) False)\<rparr>)"
proof -
  from b have i: "wi_from ty (l - 1) = l - 1" "wi_from ty (h + 1) = h + 1"
    by (simp_all add: wi_from_id[OF ty(2)])
  from ty b i show ?thesis
    by (simp add: ranges_from_anti_range_def Let_def vrp_val_min_def vrp_val_max_def
        TYPE_MIN_VALUE_def TYPE_MAX_VALUE_def tree_int_cst_lt_def wide_int_to_tree_def
        value_range_base_set_def set_normalize_def tree_int_cst_compare_def wi_cmp_def
        undefined_p_def)
qed

lemma extract_non_anti:
  "m_kind vr0 \<noteq> VR_ANTI_RANGE \<Longrightarrow> m_kind vr1 \<noteq> VR_ANTI_RANGE \<Longrightarrow>
   extract_range_from_plus_minus_expr ty F code vr0 vr1 = plus_minus_ranges ty F code vr0 vr1"
  by (subst extract_range_from_plus_minus_expr.simps) simp

lemma extract_right_sound:
  assumes ty: "INTEGRAL_TYPE_P ty" "0 < TYPE_PRECISION ty" "\<not> POINTER_TYPE_P ty"
    and c0: "canonical_range ty vr0" and k0: "m_kind vr0 \<noteq> VR_ANTI_RANGE"
    and c1: "canonical_range ty vr1"
    and x: "wi_min_value ty \<le> x" "x \<le> wi_max_value ty"
    and y: "wi_min_value ty \<le> y" "y \<le> wi_max_value ty"
  shows "canonical_range ty (extract_range_from_plus_minus_expr ty F code vr0 vr1)
       \<and> (contains_value ty F vr0 x \<and> contains_value ty F vr1 y \<longrightarrow>
            contains_value ty F (extract_range_from_plus_minus_expr ty F code vr0 vr1)
              (concrete_plus_minus ty code x y))"
proof (cases "m_kind vr1 = VR_ANTI_RANGE")
  case False
  with plus_minus_ranges_sound[OF ty c0 k0 c1 _ x y, of F code] k0 show ?thesis
    by (simp add: extract_non_anti)
next
  case True
  with c1 obtain l h where v: "vr1 = \<lparr>m_kind = VR_ANTI_RANGE, m_min = Some (INTEGER_CST l False), m_max = Some (INTEGER_CST h False)\<rparr>"
      and b: "wi_min_value ty < l" "l \<le> h" "h < wi_max_value ty"
    by (cases rule: canonical_cases) auto
  let ?q0 = "\<lparr>m_kind = VR_RANGE, m_min = Some (INTEGER_CST (wi_min_value ty) False),
               m_max = Some (INTEGER_CST (l - 1) False)\<rparr>"
  let ?q1 = "\<lparr>m_kind = VR_RANGE, m_min = Some (INTEGER_CST (h + 1) False),
               m_max = Some (INTEGER_CST (wi_max_value ty) False)\<rparr>"
  let ?c = "concrete_plus_minus ty code x y"
  have rfa: "ranges_from_anti_range ty vr1 False = (True, ?q0, ?q1)"
    unfolding v by (rule ranges_from_anti_range_cst[OF ty(1,2) b])
  have q: "canonical_range ty ?q0" "canonical_range ty ?q1" using b by simp_all
  have e: "extract_range_from_plus_minus_expr ty F code vr0 vr1 =
        value_range_base_union ty F (plus_minus_ranges ty F code vr0 ?q0)
          (plus_minus_ranges ty F code vr0 ?q1)"
    using k0 by (subst extract_range_from_plus_minus_expr.simps)
      (simp add: rfa[unfolded v] v Let_def undefined_p_def extract_non_anti)
  have ct: "wi_min_value ty \<le> ?c" "?c \<le> wi_max_value ty"
    using wi_min_le_0[of ty] wi_max_ge_0[of ty]
    by (auto simp: concrete_plus_minus_def Let_def wi_from_ge_min wi_from_le_max)
  from plus_minus_ranges_sound[OF ty c0 k0 q(1) _ x y, of F code]
  have s0: "canonical_range ty (plus_minus_ranges ty F code vr0 ?q0)"
      "contains_value ty F vr0 x \<and> contains_value ty F ?q0 y \<longrightarrow>
         contains_value ty F (plus_minus_ranges ty F code vr0 ?q0) ?c" by simp_all
  from plus_minus_ranges_sound[OF ty c0 k0 q(2) _ x y, of F code]
  have s1: "canonical_range ty (plus_minus_ranges ty F code vr0 ?q1)"
      "contains_value ty F vr0 x \<and> contains_value ty F ?q1 y \<longrightarrow>
         contains_value ty F (plus_minus_ranges ty F code vr0 ?q1) ?c" by simp_all
  have sp: "contains_value ty F vr1 y \<longrightarrow> contains_value ty F ?q0 y \<or> contains_value ty F ?q1 y"
    using y by (auto simp: v)
  from union_helper_sound[OF ty ct s0(1) s1(1), of F] s0(2) s1(2) sp e
  show ?thesis by (auto simp: value_range_base_union_def)
qed

lemma extract_sound:
  assumes ty: "INTEGRAL_TYPE_P ty" "0 < TYPE_PRECISION ty" "\<not> POINTER_TYPE_P ty"
    and c0: "canonical_range ty vr0" and c1: "canonical_range ty vr1"
    and x: "wi_min_value ty \<le> x" "x \<le> wi_max_value ty"
    and y: "wi_min_value ty \<le> y" "y \<le> wi_max_value ty"
  shows "canonical_range ty (extract_range_from_plus_minus_expr ty F code vr0 vr1)
       \<and> (contains_value ty F vr0 x \<and> contains_value ty F vr1 y \<longrightarrow>
            contains_value ty F (extract_range_from_plus_minus_expr ty F code vr0 vr1)
              (concrete_plus_minus ty code x y))"
proof (cases "m_kind vr0 = VR_ANTI_RANGE")
  case False
  from extract_right_sound[OF ty c0 False c1 x y] show ?thesis .
next
  case True
  with c0 obtain l h where v: "vr0 = \<lparr>m_kind = VR_ANTI_RANGE, m_min = Some (INTEGER_CST l False), m_max = Some (INTEGER_CST h False)\<rparr>"
      and b: "wi_min_value ty < l" "l \<le> h" "h < wi_max_value ty"
    by (cases rule: canonical_cases) auto
  let ?q0 = "\<lparr>m_kind = VR_RANGE, m_min = Some (INTEGER_CST (wi_min_value ty) False),
               m_max = Some (INTEGER_CST (l - 1) False)\<rparr>"
  let ?q1 = "\<lparr>m_kind = VR_RANGE, m_min = Some (INTEGER_CST (h + 1) False),
               m_max = Some (INTEGER_CST (wi_max_value ty) False)\<rparr>"
  let ?c = "concrete_plus_minus ty code x y"
  have rfa: "ranges_from_anti_range ty vr0 False = (True, ?q0, ?q1)"
    unfolding v by (rule ranges_from_anti_range_cst[OF ty(1,2) b])
  have q: "canonical_range ty ?q0" "canonical_range ty ?q1" using b by simp_all
  have nk: "m_kind ?q0 \<noteq> VR_ANTI_RANGE" "m_kind ?q1 \<noteq> VR_ANTI_RANGE" by simp_all
  have e: "extract_range_from_plus_minus_expr ty F code vr0 vr1 =
        value_range_base_union ty F (extract_range_from_plus_minus_expr ty F code ?q0 vr1)
          (extract_range_from_plus_minus_expr ty F code ?q1 vr1)"
    by (subst extract_range_from_plus_minus_expr.simps)
      (simp add: rfa[unfolded v] v Let_def undefined_p_def)
  have ct: "wi_min_value ty \<le> ?c" "?c \<le> wi_max_value ty"
    using wi_min_le_0[of ty] wi_max_ge_0[of ty]
    by (auto simp: concrete_plus_minus_def Let_def wi_from_ge_min wi_from_le_max)
  from extract_right_sound[OF ty q(1) nk(1) c1 x y, of F code]
  have s0: "canonical_range ty (extract_range_from_plus_minus_expr ty F code ?q0 vr1)"
      "contains_value ty F ?q0 x \<and> contains_value ty F vr1 y \<longrightarrow>
         contains_value ty F (extract_range_from_plus_minus_expr ty F code ?q0 vr1) ?c" by simp_all
  from extract_right_sound[OF ty q(2) nk(2) c1 x y, of F code]
  have s1: "canonical_range ty (extract_range_from_plus_minus_expr ty F code ?q1 vr1)"
      "contains_value ty F ?q1 x \<and> contains_value ty F vr1 y \<longrightarrow>
         contains_value ty F (extract_range_from_plus_minus_expr ty F code ?q1 vr1) ?c" by simp_all
  have sp: "contains_value ty F vr0 x \<longrightarrow> contains_value ty F ?q0 x \<or> contains_value ty F ?q1 x"
    using x by (auto simp: v)
  from union_helper_sound[OF ty ct s0(1) s1(1), of F] s0(2) s1(2) sp e
  show ?thesis by (auto simp: value_range_base_union_def)
qed

text \<open>
  C2.  Let \<open>A\<close> and \<open>B\<close> be lattice values of an integral type in canonical form with
  constant bounds, \<open>x\<close> a member of \<open>A\<close> and \<open>y\<close> a member of \<open>B\<close>.  The range
  \<open>extract_range_from_plus_minus_expr\<close> computes for \<open>PLUS_EXPR\<close> contains \<open>x + y\<close> and
  the one it computes for \<open>MINUS_EXPR\<close> contains \<open>x - y\<close>, where the sum and the
  difference are wrapped to the precision if the type wraps and saturated to the
  bounds of the type otherwise (\<open>concrete_plus_minus\<close>).
\<close>

theorem plus_minus_arithmetic_sound:
  assumes "INTEGRAL_TYPE_P ty" "\<not> POINTER_TYPE_P ty" "0 < TYPE_PRECISION ty"
    and "code = PLUS_EXPR \<or> code = MINUS_EXPR"
    and "canonical_range ty A" "canonical_range ty B"
    and "type_value ty x" "type_value ty y"
    and "contains_value ty F A x" "contains_value ty F B y"
  shows "contains_value ty F (extract_range_from_plus_minus_expr ty F code A B)
           (concrete_plus_minus ty code x y)"
proof -
  from assms(7,8) have b: "wi_min_value ty \<le> x" "x \<le> wi_max_value ty"
      "wi_min_value ty \<le> y" "y \<le> wi_max_value ty"
    by (simp_all add: type_value_def)
  from extract_sound[OF assms(1,3,2,5,6) b, of F code] assms(9,10) show ?thesis by simp
qed

theorem plus_minus_arithmetic_sound_witness:
  "INTEGRAL_TYPE_P uint8 \<and> \<not> POINTER_TYPE_P uint8 \<and> 0 < TYPE_PRECISION uint8 \<and>
   (PLUS_EXPR = PLUS_EXPR \<or> PLUS_EXPR = MINUS_EXPR) \<and>
   canonical_range uint8
     \<lparr>m_kind = VR_RANGE, m_min = Some (INTEGER_CST 250 False), m_max = Some (INTEGER_CST 255 False)\<rparr> \<and>
   canonical_range uint8
     \<lparr>m_kind = VR_ANTI_RANGE, m_min = Some (INTEGER_CST 11 False), m_max = Some (INTEGER_CST 20 False)\<rparr> \<and>
   type_value uint8 254 \<and> type_value uint8 5 \<and>
   contains_value uint8 no_fold
     \<lparr>m_kind = VR_RANGE, m_min = Some (INTEGER_CST 250 False), m_max = Some (INTEGER_CST 255 False)\<rparr> 254 \<and>
   contains_value uint8 no_fold
     \<lparr>m_kind = VR_ANTI_RANGE, m_min = Some (INTEGER_CST 11 False), m_max = Some (INTEGER_CST 20 False)\<rparr> 5 \<and>
   concrete_plus_minus uint8 PLUS_EXPR 254 5 = 3 \<and>
   contains_value uint8 no_fold
     (extract_range_from_plus_minus_expr uint8 no_fold PLUS_EXPR
        \<lparr>m_kind = VR_RANGE, m_min = Some (INTEGER_CST 250 False), m_max = Some (INTEGER_CST 255 False)\<rparr>
        \<lparr>m_kind = VR_ANTI_RANGE, m_min = Some (INTEGER_CST 11 False), m_max = Some (INTEGER_CST 20 False)\<rparr>)
     3"
proof -
  let ?A = "\<lparr>m_kind = VR_RANGE, m_min = Some (INTEGER_CST 250 False), m_max = Some (INTEGER_CST 255 False)\<rparr>"
  let ?B = "\<lparr>m_kind = VR_ANTI_RANGE, m_min = Some (INTEGER_CST 11 False), m_max = Some (INTEGER_CST 20 False)\<rparr>"
  have h1: "INTEGRAL_TYPE_P uint8" "\<not> POINTER_TYPE_P uint8" "0 < TYPE_PRECISION uint8"
    by (simp_all add: uint8_def)
  have h2: "PLUS_EXPR = PLUS_EXPR \<or> PLUS_EXPR = MINUS_EXPR" by simp
  have h3: "canonical_range uint8 ?A" by code_simp
  have h4: "canonical_range uint8 ?B" by code_simp
  have h5: "type_value uint8 254" "type_value uint8 5" by code_simp+
  have h6: "contains_value uint8 no_fold ?A 254" by code_simp
  have h7: "contains_value uint8 no_fold ?B 5" by code_simp
  have h8: "concrete_plus_minus uint8 PLUS_EXPR 254 5 = 3" by code_simp
  from plus_minus_arithmetic_sound[OF h1 h2 h3 h4 h5 h6 h7] h1 h2 h3 h4 h5 h6 h7 h8
  show ?thesis by simp
qed

end
